theory Spec2Isabelle
  imports Complex_Main "HOL-Library.AList" "HOL-Library.Multiset" "HOL-Library.Sublist"
    "HOL-Library.Code_Target_Nat"
begin

section \<open>JavaScript values used by the pricing code\<close>

text \<open>
  A price travels through the week-mapping code as an opaque JavaScript value: a
  currency string such as \<open>"$3,500"\<close>, a bare number, \<open>null\<close> or \<open>undefined\<close>.
  Numbers are modelled as integers (whole-dollar amounts); a number that is the result
  of an arithmetic operation is an \<open>int option\<close> whose \<open>None\<close> is \<open>NaN\<close>.
  Strings are lists of 8-bit characters.
\<close>

datatype jsval = Undefined | Null | Str string | Num int

text \<open>\<open>!v\<close> is \<open>\<not> truthy v\<close>: the falsy values are \<open>undefined\<close>, \<open>null\<close>, \<open>""\<close> and \<open>0\<close>.\<close>

fun truthy :: "jsval \<Rightarrow> bool" where
  "truthy Undefined = False"
| "truthy Null = False"
| "truthy (Str s) = (s \<noteq> [])"
| "truthy (Num n) = (n \<noteq> 0)"

text \<open>\<open>a || b\<close> on values.\<close>

definition js_or :: "jsval \<Rightarrow> jsval \<Rightarrow> jsval" where
  "js_or a b = (if truthy a then a else b)"

definition digit_char :: "nat \<Rightarrow> char" where
  "digit_char d = char_of (48 + d)"

fun show_nat :: "nat \<Rightarrow> string" where
  "show_nat n = (if n < 10 then [digit_char n] else show_nat (n div 10) @ [digit_char (n mod 10)])"

text \<open>\<open>String(n)\<close> for an integer of ordinary size (no exponent notation).\<close>

definition show_int :: "int \<Rightarrow> string" where
  "show_int n = (if n < 0 then CHR ''-'' # show_nat (nat (- n)) else show_nat (nat n))"

fun js_String :: "jsval \<Rightarrow> string" where
  "js_String Undefined = ''undefined''"
| "js_String Null = ''null''"
| "js_String (Str s) = s"
| "js_String (Num n) = show_int n"

text \<open>
  \<open>parseInt(s)\<close> with no radix: leading white space is skipped, a sign is read, a
  \<open>0x\<close> prefix selects radix 16, and the longest run of digits of the radix is
  converted; an empty run gives \<open>NaN\<close>.
\<close>

definition is_white :: "char \<Rightarrow> bool" where
  "is_white c = (c \<in> set [CHR 0x09, CHR 0x0A, CHR 0x0B, CHR 0x0C, CHR 0x0D, CHR '' ''])"

definition digit_value :: "char \<Rightarrow> nat option" where
  "digit_value c =
     (let n = (of_char c :: nat) in
      if 48 \<le> n \<and> n \<le> 57 then Some (n - 48)
      else if 97 \<le> n \<and> n \<le> 102 then Some (n - 87)
      else if 65 \<le> n \<and> n \<le> 70 then Some (n - 55)
      else None)"

definition is_digit_of :: "nat \<Rightarrow> char \<Rightarrow> bool" where
  "is_digit_of radix c = (case digit_value c of None \<Rightarrow> False | Some d \<Rightarrow> d < radix)"

definition digits_value :: "nat \<Rightarrow> string \<Rightarrow> nat" where
  "digits_value radix ds = foldl (\<lambda>acc c. acc * radix + the (digit_value c)) 0 ds"

definition js_parseInt :: "string \<Rightarrow> int option" where
  "js_parseInt s =
     (let s1 = dropWhile is_white s;
          neg = (s1 \<noteq> [] \<and> hd s1 = CHR ''-'');
          s2 = (if s1 \<noteq> [] \<and> (hd s1 = CHR ''-'' \<or> hd s1 = CHR ''+'') then tl s1 else s1);
          hex = (take 2 s2 = ''0x'' \<or> take 2 s2 = ''0X'');
          radix = (if hex then 16 else 10);
          s3 = (if hex then drop 2 s2 else s2);
          z = takeWhile (is_digit_of radix) s3
      in if z = [] then None
         else Some ((if neg then - 1 else 1) * int (digits_value radix z)))"

text \<open>\<open>s.replace(/[$,]/g, '')\<close>\<close>

definition strip_currency :: "string \<Rightarrow> string" where
  "strip_currency s = filter (\<lambda>c. c \<noteq> CHR ''$'' \<and> c \<noteq> CHR '','') s"

section \<open>Calendar dates\<close>

text \<open>
  Every \<open>Date\<close> object the code builds stands at local midnight, so a valid date is
  modelled by its day number (days since 1 January 1970), read in a time zone without
  daylight saving. \<open>InvalidDate\<close> is the \<open>Date\<close> whose time value is \<open>NaN\<close>. The
  limits of the \<open>Date\<close> range (about 275000 years either side of 1970) are not modelled.
\<close>

datatype jsdate = InvalidDate | Date int

text \<open>Day number of a civil date (month 1..12) in the proleptic Gregorian calendar, and back.\<close>

definition days_from_civil :: "int \<Rightarrow> int \<Rightarrow> int \<Rightarrow> int" where
  "days_from_civil y m d =
     (let y' = (if m \<le> 2 then y - 1 else y);
          era = y' div 400;
          yoe = y' - era * 400;
          doy = (153 * (if m > 2 then m - 3 else m + 9) + 2) div 5 + d - 1;
          doe = yoe * 365 + yoe div 4 - yoe div 100 + doy
      in era * 146097 + doe - 719468)"

definition civil_from_days :: "int \<Rightarrow> int \<times> int \<times> int" where
  "civil_from_days z =
     (let z' = z + 719468;
          era = z' div 146097;
          doe = z' - era * 146097;
          yoe = (doe - doe div 1460 + doe div 36524 - doe div 146096) div 365;
          y = yoe + era * 400;
          doy = doe - (365 * yoe + yoe div 4 - yoe div 100);
          mp = (5 * doy + 2) div 153;
          d = doy - (153 * mp + 2) div 5 + 1;
          m = (if mp < 10 then mp + 3 else mp - 9)
      in (if m \<le> 2 then y + 1 else y, m, d))"

text \<open>
  \<open>new Date(year, month, day)\<close> with a zero-based month: months and days outside their
  range carry over, and a year from 0 to 99 means 1900 + year.
\<close>

definition makeDay :: "int \<Rightarrow> int \<Rightarrow> int \<Rightarrow> int" where
  "makeDay year month day =
     days_from_civil (year + month div 12) (month mod 12 + 1) 1 + day - 1"

definition new_Date :: "int \<Rightarrow> int \<Rightarrow> int \<Rightarrow> int" where
  "new_Date year month day =
     makeDay (if 0 \<le> year \<and> year \<le> 99 then 1900 + year else year) month day"

definition getFullYear :: "int \<Rightarrow> int" where
  "getFullYear t = fst (civil_from_days t)"

definition getMonth :: "int \<Rightarrow> int" where
  "getMonth t = fst (snd (civil_from_days t)) - 1"

definition getDate :: "int \<Rightarrow> int" where
  "getDate t = snd (snd (civil_from_days t))"

text \<open>\<open>getDay\<close>: 0 is Sunday; 1 January 1970 was a Thursday.\<close>

definition getDay :: "int \<Rightarrow> int" where
  "getDay t = (t + 4) mod 7"

text \<open>The \<open>%\<close> operator: the remainder takes the sign of the dividend.\<close>

definition js_rem :: "int \<Rightarrow> int \<Rightarrow> int" where
  "js_rem a b = (if a \<ge> 0 then a mod \<bar>b\<bar> else - ((- a) mod \<bar>b\<bar>))"

text \<open>\<open>Math.round(n / k)\<close> for integers \<open>n\<close> and \<open>k > 0\<close>: halves round up.\<close>

definition round_div :: "int \<Rightarrow> int \<Rightarrow> int" where
  "round_div n k = (2 * n + k) div (2 * k)"

text \<open>
  \<open>Number(s)\<close> on the strings a week key splits into: an optional sign and decimal
  digits, white space around them ignored, the empty string being 0. Literals with a
  fraction, an exponent or a radix prefix do not occur in week keys and are read as
  \<open>NaN\<close> here.
\<close>

definition js_Number :: "string \<Rightarrow> int option" where
  "js_Number s =
     (let t = rev (dropWhile is_white (rev (dropWhile is_white s)));
          neg = (t \<noteq> [] \<and> hd t = CHR ''-'');
          ds = (if t \<noteq> [] \<and> (hd t = CHR ''-'' \<or> hd t = CHR ''+'') then tl t else t)
      in if t = [] then Some 0
         else if ds \<noteq> [] \<and> list_all (is_digit_of 10) ds
         then Some ((if neg then - 1 else 1) * int (digits_value 10 ds))
         else None)"

text \<open>\<open>s.split(sep)\<close> for a one-character separator.\<close>

fun js_split :: "char \<Rightarrow> string \<Rightarrow> string list" where
  "js_split sep [] = [[]]"
| "js_split sep (c # cs) =
     (if c = sep then [] # js_split sep cs
      else (case js_split sep cs of p # ps \<Rightarrow> (c # p) # ps | [] \<Rightarrow> [[c]]))"

section \<open>holidays.js\<close>

text \<open>
  \<open>getNthWeekdayOfMonth(year, month, weekday, n)\<close>. For \<open>n = -1\<close> the code walks back
  from the last day of the month until the weekday matches; seven consecutive days
  show every weekday, so a search that fails seven times never ends, and the model
  stops there with \<open>None\<close> (the call does not return). Otherwise days 1 to 31 are
  scanned forward; \<open>Some None\<close> is the \<open>null\<close> the code returns when the month has no
  such day.
\<close>

fun lastWeekdayLoop :: "nat \<Rightarrow> int \<Rightarrow> int \<Rightarrow> int \<Rightarrow> int \<Rightarrow> int option" where
  "lastWeekdayLoop 0 year month weekday date = None"
| "lastWeekdayLoop (Suc fuel) year month weekday date =
     (if getDay (new_Date year month date) \<noteq> weekday
      then lastWeekdayLoop fuel year month weekday (date - 1)
      else Some date)"

fun nthWeekdayLoop :: "int list \<Rightarrow> int \<Rightarrow> int \<Rightarrow> int \<Rightarrow> int \<Rightarrow> int \<Rightarrow> int option" where
  "nthWeekdayLoop [] count' year month weekday n = None"
| "nthWeekdayLoop (day # days) count' year month weekday n =
     (let d = new_Date year month day in
      if getMonth d \<noteq> month then None
      else if getDay d = weekday
      then (if count' + 1 = n then Some d
            else nthWeekdayLoop days (count' + 1) year month weekday n)
      else nthWeekdayLoop days count' year month weekday n)"

definition getNthWeekdayOfMonth :: "int \<Rightarrow> int \<Rightarrow> int \<Rightarrow> int \<Rightarrow> int option option" where
  "getNthWeekdayOfMonth year month weekday n =
     (if n = - 1
      then (let lastDay = new_Date year (month + 1) 0 in
            case lastWeekdayLoop 7 year month weekday (getDate lastDay) of
              None \<Rightarrow> None
            | Some date \<Rightarrow> Some (Some (new_Date year month date)))
      else Some (nthWeekdayLoop [1..31] 0 year month weekday n))"

text \<open>
  A holiday is \<open>{ name, date, type }\<close>; its date is a valid \<open>Date\<close> or \<open>null\<close>
  (\<open>None\<close>). An object whose properties are enumerated is an association list in
  insertion order: \<open>Object.entries\<close> lists properties in the order they were first set,
  and setting an existing property keeps its place. (Anchor ids are taken to be
  ordinary property names: not array indices, which JavaScript enumerates first, and
  not names inherited from \<open>Object.prototype\<close>.)
\<close>

record holiday =
  h_name :: string
  h_date :: "int option"
  h_type :: string

type_synonym holidays = "(string \<times> holiday) list"

definition getHolidaysForYear :: "int \<Rightarrow> holidays option" where
  "getHolidaysForYear year =
     (case getNthWeekdayOfMonth year 4 1 (- 1) of None \<Rightarrow> None | Some memorial \<Rightarrow>
      case getNthWeekdayOfMonth year 8 1 1 of None \<Rightarrow> None | Some labor \<Rightarrow>
      case getNthWeekdayOfMonth year 10 4 4 of None \<Rightarrow> None | Some thanks \<Rightarrow>
      Some
       [(''newYearsDay'',
           \<lparr>h_name = ''New Year's Day'', h_date = Some (new_Date year 0 1), h_type = ''fixed''\<rparr>),
        (''memorialDay'',
           \<lparr>h_name = ''Memorial Day'', h_date = memorial, h_type = ''floating''\<rparr>),
        (''july4th'',
           \<lparr>h_name = ''July 4th'', h_date = Some (new_Date year 6 4), h_type = ''fixed''\<rparr>),
        (''laborDay'',
           \<lparr>h_name = ''Labor Day'', h_date = labor, h_type = ''floating''\<rparr>),
        (''thanksgiving'',
           \<lparr>h_name = ''Thanksgiving'', h_date = thanks, h_type = ''floating''\<rparr>),
        (''christmas'',
           \<lparr>h_name = ''Christmas'', h_date = Some (new_Date year 11 25), h_type = ''fixed''\<rparr>)])"

text \<open>
  \<open>getWeekContainingDate(date, weekStartDay)\<close>: \<open>new Date(null)\<close> is the epoch. The
  result is the pair \<open>(start, end)\<close>.
\<close>

definition getWeekContainingDate :: "int option \<Rightarrow> int \<Rightarrow> int \<times> int" where
  "getWeekContainingDate date weekStartDay =
     (let d = (case date of None \<Rightarrow> 0 | Some t \<Rightarrow> t);
          dayOfWeek = getDay d;
          daysToSubtract = js_rem (dayOfWeek - weekStartDay + 7) 7;
          weekStart = d - daysToSubtract;
          weekEnd = weekStart + 7
      in (weekStart, weekEnd))"

definition month_names :: "string list" where
  "month_names = [''Jan'', ''Feb'', ''Mar'', ''Apr'', ''May'', ''Jun'',
                  ''Jul'', ''Aug'', ''Sep'', ''Oct'', ''Nov'', ''Dec'']"

text \<open>\<open>formatDateShort\<close>: the \<open>en-US\<close> short month and the day, as in \<open>May 26\<close>.\<close>

definition formatDateShort :: "jsdate \<Rightarrow> string" where
  "formatDateShort date =
     (case date of
        InvalidDate \<Rightarrow> ''Invalid Date''
      | Date t \<Rightarrow> month_names ! nat (getMonth t) @ '' '' @ show_int (getDate t))"

definition formatWeekRange :: "jsdate \<Rightarrow> jsdate \<Rightarrow> string" where
  "formatWeekRange start end' = formatDateShort start @ '' - '' @ formatDateShort end'"

text \<open>\<open>String(n).padStart(2, '0')\<close>\<close>

definition pad2 :: "int \<Rightarrow> string" where
  "pad2 n = (let s = show_int n in if length s < 2 then CHR ''0'' # s else s)"

definition weekKey :: "jsdate \<Rightarrow> string" where
  "weekKey date =
     (case date of
        InvalidDate \<Rightarrow> ''NaN-NaN-NaN''
      | Date t \<Rightarrow> show_int (getFullYear t) @ ''-'' @ pad2 (getMonth t + 1) @ ''-'' @ pad2 (getDate t))"

text \<open>
  \<open>parseWeekKey\<close>: \<open>const [year, month, day] = key.split('-').map(Number)\<close>, then
  \<open>new Date(year, month - 1, day)\<close>. A missing or non-numeric part makes the date invalid.
\<close>

definition parseWeekKey :: "string \<Rightarrow> jsdate" where
  "parseWeekKey k =
     (let parts = map js_Number (js_split (CHR ''-'') k);
          part = (\<lambda>i. if i < length parts then parts ! i else None)
      in case (part 0, part 1, part 2) of
           (Some year, Some month, Some day) \<Rightarrow> Date (new_Date year (month - 1) day)
         | _ \<Rightarrow> InvalidDate)"

text \<open>
  \<open>getWeekHolidayRelationship(weekStart, holidays, weekStartDay)\<close>. The loop state is
  \<open>(nearestHoliday, minDistance, weeksAway)\<close>; \<open>minDistance = None\<close> is the initial
  \<open>Infinity\<close>. A difference with an invalid \<open>weekStart\<close> is \<open>NaN\<close>, which is never
  smaller than anything. Reading \<open>nearestHoliday.name\<close> when no holiday was chosen
  throws a \<open>TypeError\<close>.
\<close>

datatype js_error = TypeError | NoReturn

record relationship_result =
  r_holiday :: "string \<times> holiday"
  r_relationship :: string
  r_weeksAway :: int

definition diffWeeksOf :: "jsdate \<Rightarrow> holiday \<Rightarrow> int \<Rightarrow> int option" where
  "diffWeeksOf weekStart hol weekStartDay =
     (let holidayWeek = getWeekContainingDate (h_date hol) weekStartDay in
      case weekStart of
        InvalidDate \<Rightarrow> None
      | Date t \<Rightarrow> (let diffDays = t - fst holidayWeek in Some (round_div diffDays 7)))"

fun nearestLoop ::
  "jsdate \<Rightarrow> int \<Rightarrow> holidays \<Rightarrow> (string \<times> holiday) option \<times> int option \<times> int
     \<Rightarrow> (string \<times> holiday) option \<times> int option \<times> int" where
  "nearestLoop weekStart weekStartDay [] st = st"
| "nearestLoop weekStart weekStartDay ((k, hol) # rest) (nearestHoliday, minDistance, weeksAway) =
     nearestLoop weekStart weekStartDay rest
       (case diffWeeksOf weekStart hol weekStartDay of
          None \<Rightarrow> (nearestHoliday, minDistance, weeksAway)
        | Some diffWeeks \<Rightarrow>
            (if (case minDistance of None \<Rightarrow> True | Some md \<Rightarrow> \<bar>diffWeeks\<bar> < \<bar>md\<bar>)
             then (Some (k, hol), Some diffWeeks, diffWeeks)
             else (nearestHoliday, minDistance, weeksAway)))"

definition relationshipLabel :: "int \<Rightarrow> string \<Rightarrow> string" where
  "relationshipLabel weeksAway nm =
     (if weeksAway = 0 then nm @ '' week''
      else if weeksAway > 0
      then show_int weeksAway @ '' week'' @ (if weeksAway > 1 then ''s'' else [])
             @ '' after '' @ nm
      else show_int \<bar>weeksAway\<bar> @ '' week'' @ (if \<bar>weeksAway\<bar> > 1 then ''s'' else [])
             @ '' before '' @ nm)"

definition getWeekHolidayRelationship ::
  "jsdate \<Rightarrow> holidays \<Rightarrow> int \<Rightarrow> js_error + relationship_result" where
  "getWeekHolidayRelationship weekStart hs weekStartDay =
     (case nearestLoop weekStart weekStartDay hs (None, None, 0) of
        (None, minDistance, weeksAway) \<Rightarrow> Inl TypeError
      | (Some nearestHoliday, minDistance, weeksAway) \<Rightarrow>
          Inr \<lparr>r_holiday = nearestHoliday,
               r_relationship = relationshipLabel weeksAway (h_name (snd nearestHoliday)),
               r_weeksAway = weeksAway\<rparr>)"

section \<open>weekMapping.js: generating and mapping weeks\<close>

text \<open>A rental week \<open>{ start, end, key }\<close>.\<close>

record week =
  w_start :: jsdate
  w_end :: jsdate
  w_key :: string

text \<open>
  \<open>generateWeeksForYear(year, weekStartDay)\<close>. The \<open>while\<close> loop advances \<open>current\<close>
  by seven days while its year is at most \<open>year\<close>, and pushes the weeks that start in
  \<open>year\<close>.
\<close>

function weeksLoop :: "int \<Rightarrow> int \<Rightarrow> week list \<Rightarrow> week list" where
  "weeksLoop year current weeks =
     (if getFullYear current \<le> year
      then weeksLoop year (current + 7)
             (if getFullYear current = year
              then weeks @ [\<lparr>w_start = Date current, w_end = Date (current + 7),
                              w_key = weekKey (Date current)\<rparr>]
              else weeks)
      else weeks)"
  by pat_completeness auto
termination
proof (relation "measure (\<lambda>(year, current, weeks).
         nat ((year div 400 + 1) * 146097 - (current + 719468)))")
  show "wf (measure (\<lambda>(year, current, weeks).
         nat ((year div 400 + 1) * 146097 - (current + 719468))))"
    by simp
next
  fix year current :: int and weeks :: "week list"
  assume le: "getFullYear current \<le> year"
  define z where "z = current + 719468"
  define era where "era = z div 146097"
  define doe where "doe = z - era * 146097"
  define yoe where "yoe = (doe - doe div 1460 + doe div 36524 - doe div 146096) div 365"
  have doe_range: "0 \<le> doe" "doe < 146097"
    unfolding doe_def era_def by (simp_all add: minus_div_mult_eq_mod)
  have "doe div 1460 \<le> doe div 1"
    using doe_range by (intro zdiv_mono2) simp_all
  moreover have "doe div 146096 \<le> doe div 36524"
    using doe_range by (intro zdiv_mono2) simp_all
  ultimately have "0 \<le> doe - doe div 1460 + doe div 36524 - doe div 146096"
    by simp
  then have yoe_nonneg: "0 \<le> yoe"
    unfolding yoe_def by (simp add: pos_imp_zdiv_nonneg_iff)
  have "yoe + era * 400 \<le> getFullYear current"
    unfolding getFullYear_def civil_from_days_def Let_def yoe_def doe_def era_def z_def
    by (simp only: if_distrib [of fst] fst_conv split: if_split) (intro conjI impI; linarith)
  with yoe_nonneg le have "era * 400 \<le> year" by linarith
  then have "era * 400 div 400 \<le> year div 400"
    by (rule zdiv_mono1) simp
  then have "era \<le> year div 400" by simp
  then have "(era + 1) * 146097 \<le> (year div 400 + 1) * 146097" by simp
  moreover have "z < (era + 1) * 146097"
    using doe_range unfolding doe_def by (simp add: algebra_simps)
  ultimately have "0 < (year div 400 + 1) * 146097 - z" by linarith
  then show "((year, current + 7,
               if getFullYear current = year
               then weeks @ [\<lparr>w_start = Date current, w_end = Date (current + 7),
                               w_key = weekKey (Date current)\<rparr>]
               else weeks),
              (year, current, weeks))
             \<in> measure (\<lambda>(year, current, weeks).
                  nat ((year div 400 + 1) * 146097 - (current + 719468)))"
    unfolding z_def by simp
qed

definition generateWeeksForYear :: "int \<Rightarrow> int \<Rightarrow> week list" where
  "generateWeeksForYear year weekStartDay =
     (let current = new_Date year 0 1;
          dayOfWeek = getDay current;
          daysToSubtract = js_rem (dayOfWeek - weekStartDay + 7) 7
      in weeksLoop year (current - daysToSubtract) [])"

text \<open>
  An anchor of the settings. Its dates are calendar dates or absent (\<open>None\<close>); the
  model takes \<open>new Date(anchor.sourceDate)\<close> as already read.
\<close>

record anchor =
  a_id :: string
  a_name :: string
  a_type :: string
  a_enabled :: bool
  a_sourceDate :: "int option"
  a_targetDate :: "int option"

text \<open>
  A source week as the mapper reads it. \<open>start\<close> is a string (a serialized date) or
  an object read through \<open>start?.year\<close>, \<open>start?.month\<close>, \<open>start?.day\<close>; a \<open>Date\<close>
  object, \<open>null\<close> and \<open>undefined\<close> have none of the three. \<open>startDate\<close> is read the
  same way. \<open>weekKey\<close> and \<open>key\<close> are strings or absent.
\<close>

datatype start_value = StartString string | StartObject "int option" "int option" "int option"

record source_week =
  sw_start :: start_value
  sw_startDate :: "int option \<times> int option \<times> int option"
  sw_weekKey :: "string option"
  sw_key :: "string option"
  sw_price :: jsval

text \<open>
  A mapping. A field that is \<open>None\<close> is absent from the object (or \<open>null\<close>) and reads
  as a falsy value.
\<close>

record mapping =
  source :: "source_week option"
  sourceStart :: "jsdate option"
  sourceRange :: "string option"
  target :: "week option"
  targetRange :: "string option"
  relationship :: "string option"
  holidayKey :: "string option"
  weeksAway :: "int option"
  proposedPrice :: "jsval option"
  error :: "string option"
  isGapFill :: bool

text \<open>\<open>a ?? b\<close> on optional numbers.\<close>

definition nullish :: "'a option \<Rightarrow> 'a option \<Rightarrow> 'a option" where
  "nullish a b = (case a of None \<Rightarrow> b | Some v \<Rightarrow> Some v)"

text \<open>\<open>new Date(y, m, d)\<close> where an argument may be \<open>undefined\<close>.\<close>

definition new_Date_opt :: "int option \<Rightarrow> int option \<Rightarrow> int option \<Rightarrow> jsdate" where
  "new_Date_opt y m d =
     (case (y, m, d) of
        (Some year, Some month, Some day) \<Rightarrow> Date (new_Date year month day)
      | _ \<Rightarrow> InvalidDate)"

text \<open>
  The start date of a source week (lines 80 to 84): \<open>weekKey || key\<close> is parsed when
  \<open>start\<close> is a string, and \<open>undefined.split\<close> throws when both are missing.
\<close>

definition sourceStartOf :: "source_week \<Rightarrow> js_error + jsdate" where
  "sourceStartOf sourceWeek =
     (case sw_start sourceWeek of
        StartString s \<Rightarrow>
          (case (case sw_weekKey sourceWeek of
                   Some k \<Rightarrow> (if k \<noteq> [] then Some k else sw_key sourceWeek)
                 | None \<Rightarrow> sw_key sourceWeek) of
             None \<Rightarrow> Inl TypeError
           | Some k \<Rightarrow> Inr (parseWeekKey k))
      | StartObject y m d \<Rightarrow>
          (case sw_startDate sourceWeek of
             (y', m', d') \<Rightarrow> Inr (new_Date_opt (nullish y y') (nullish m m') (nullish d d'))))"

text \<open>Lines 59 to 75: the enabled anchors are added to both holiday objects.\<close>

definition addAnchor :: "holidays \<times> holidays \<Rightarrow> anchor \<Rightarrow> holidays \<times> holidays" where
  "addAnchor hs a =
     (case hs of (allSourceHolidays, allTargetHolidays) \<Rightarrow>
        ((case a_sourceDate a of
            None \<Rightarrow> allSourceHolidays
          | Some d \<Rightarrow> AList.update (a_id a)
                        \<lparr>h_name = a_name a, h_date = Some d, h_type = a_type a\<rparr> allSourceHolidays),
         (case a_targetDate a of
            None \<Rightarrow> allTargetHolidays
          | Some d \<Rightarrow> AList.update (a_id a)
                        \<lparr>h_name = a_name a, h_date = Some d, h_type = a_type a\<rparr> allTargetHolidays)))"

definition addAnchors :: "holidays \<Rightarrow> holidays \<Rightarrow> anchor list \<Rightarrow> holidays \<times> holidays" where
  "addAnchors sourceHolidays targetHolidays anchors =
     foldl addAnchor (sourceHolidays, targetHolidays) (filter a_enabled anchors)"

definition addDays :: "jsdate \<Rightarrow> int \<Rightarrow> jsdate" where
  "addDays date n = (case date of InvalidDate \<Rightarrow> InvalidDate | Date t \<Rightarrow> Date (t + n))"

text \<open>The body of \<open>sourceWeeks.forEach\<close> (lines 79 to 127): the mapping it pushes.\<close>

definition mapWeek :: "holidays \<Rightarrow> holidays \<Rightarrow> int \<Rightarrow> source_week \<Rightarrow> js_error + mapping" where
  "mapWeek allSourceHolidays allTargetHolidays weekStartDay sourceWeek =
     (case sourceStartOf sourceWeek of
        Inl e \<Rightarrow> Inl e
      | Inr sourceStart' \<Rightarrow>
     (case getWeekHolidayRelationship sourceStart' allSourceHolidays weekStartDay of
        Inl e \<Rightarrow> Inl e
      | Inr rel \<Rightarrow>
     (case map_of allTargetHolidays (fst (r_holiday rel)) of
        None \<Rightarrow>
          Inr \<lparr>source = Some sourceWeek,
               sourceStart = Some sourceStart',
               sourceRange = None,
               target = None,
               targetRange = None,
               relationship = Some (r_relationship rel),
               holidayKey = Some (fst (r_holiday rel)),
               weeksAway = Some (r_weeksAway rel),
               proposedPrice = None,
               error = Some ''No matching anchor in target year'',
               isGapFill = False\<rparr>
      | Some targetHoliday \<Rightarrow>
          (let targetHolidayWeek = getWeekContainingDate (h_date targetHoliday) weekStartDay;
               targetWeekStart = fst targetHolidayWeek + r_weeksAway rel * 7;
               targetWeekEnd = targetWeekStart + 7
           in Inr \<lparr>source = Some sourceWeek,
                    sourceStart = Some sourceStart',
                    sourceRange = Some (formatWeekRange sourceStart' (addDays sourceStart' 7)),
                    target = Some \<lparr>w_start = Date targetWeekStart,
                                    w_end = Date targetWeekEnd,
                                    w_key = weekKey (Date targetWeekStart)\<rparr>,
                    targetRange = Some (formatWeekRange (Date targetWeekStart) (Date targetWeekEnd)),
                    relationship = Some (r_relationship rel),
                    holidayKey = Some (fst (r_holiday rel)),
                    weeksAway = Some (r_weeksAway rel),
                    proposedPrice = Some (sw_price sourceWeek),
                    error = None,
                    isGapFill = False\<rparr>))))"

fun mapWeeksLoop ::
  "holidays \<Rightarrow> holidays \<Rightarrow> int \<Rightarrow> source_week list \<Rightarrow> mapping list \<Rightarrow> js_error + mapping list" where
  "mapWeeksLoop allSourceHolidays allTargetHolidays weekStartDay [] mappings = Inr mappings"
| "mapWeeksLoop allSourceHolidays allTargetHolidays weekStartDay (sourceWeek # rest) mappings =
     (case mapWeek allSourceHolidays allTargetHolidays weekStartDay sourceWeek of
        Inl e \<Rightarrow> Inl e
      | Inr m \<Rightarrow>
          mapWeeksLoop allSourceHolidays allTargetHolidays weekStartDay rest (mappings @ [m]))"

definition mapWeeksByHolidays ::
  "source_week list \<Rightarrow> int \<Rightarrow> int \<Rightarrow> anchor list \<Rightarrow> int \<Rightarrow> js_error + mapping list" where
  "mapWeeksByHolidays sourceWeeks sourceYear targetYear anchors weekStartDay =
     (case getHolidaysForYear sourceYear of
        None \<Rightarrow> Inl NoReturn
      | Some sourceHolidays \<Rightarrow>
     (case getHolidaysForYear targetYear of
        None \<Rightarrow> Inl NoReturn
      | Some targetHolidays \<Rightarrow>
     (case addAnchors sourceHolidays targetHolidays anchors of
        (allSourceHolidays, allTargetHolidays) \<Rightarrow>
          mapWeeksLoop allSourceHolidays allTargetHolidays weekStartDay sourceWeeks [])))"

section \<open>weekMapping.js: detecting conflicts\<close>

text \<open>
  A conflict is one of three tagged variants sharing \<open>description\<close>, \<open>options\<close>,
  \<open>resolved\<close> and \<open>resolution\<close>. A resolution is
  \<open>{ value, customPrice?, sourceIndex?, interpolatedPrice? }\<close>; an absent price reads
  \<open>undefined\<close>, an absent \<open>sourceIndex\<close> is \<open>None\<close>.
\<close>

record collision_entry =
  ce_sourceRange :: "string option"
  ce_price :: jsval
  ce_relationship :: "string option"

record option_entry =
  o_label :: string
  o_value :: jsval
  o_sourceIndex :: "int option"
  o_interpolatedPrice :: "jsval option"

record neighbour =
  n_range :: "string option"
  n_price :: jsval

record resolution =
  res_value :: jsval
  res_customPrice :: jsval
  res_sourceIndex :: "int option"
  res_interpolatedPrice :: jsval

record collision_conflict =
  col_targetWeek :: string
  col_targetRange :: "string option"
  col_mappings :: "collision_entry list"

record gap_conflict =
  gap_targetWeek :: string
  gap_targetRange :: "string option"
  gap_relationship :: "string option"
  gap_nearestBefore :: "neighbour option"
  gap_nearestAfter :: "neighbour option"

record reversal_conflict =
  sr_sourceRange :: "string option"
  sr_targetRange :: "string option"
  sr_price :: jsval
  sr_sourcePattern :: string
  sr_targetPattern :: string

datatype conflict_kind =
  Collision collision_conflict | Gap gap_conflict | StrategyReversal reversal_conflict

record conflict =
  c_kind :: conflict_kind
  c_description :: string
  c_options :: "option_entry list"
  c_resolved :: bool
  c_resolution :: "resolution option"

text \<open>
  \<open>parsePrice\<close> of weekMapping.js:
  \<open>if (!priceStr) return NaN; return parseInt(String(priceStr).replace(/[$,]/g, '')) || NaN\<close>.
\<close>

definition parsePrice :: "jsval \<Rightarrow> int option" where
  "parsePrice priceStr =
     (if \<not> truthy priceStr then None
      else case js_parseInt (strip_currency (js_String priceStr)) of
             None \<Rightarrow> None
           | Some n \<Rightarrow> (if n = 0 then None else Some n))"

text \<open>\<open>n.toLocaleString()\<close> in the \<open>en-US\<close> locale: digits in groups of three.\<close>

function group3 :: "string \<Rightarrow> string" where
  "group3 ds =
     (if length ds \<le> 3 then ds
      else group3 (take (length ds - 3) ds) @ '','' @ drop (length ds - 3) ds)"
  by pat_completeness auto
termination
  by (relation "measure length") auto

definition toLocaleString :: "int \<Rightarrow> string" where
  "toLocaleString n =
     (if n < 0 then CHR ''-'' # group3 (show_nat (nat (- n))) else group3 (show_nat (nat n)))"

definition interpolatePrice :: "jsval \<Rightarrow> jsval \<Rightarrow> jsval" where
  "interpolatePrice price1 price2 =
     (case (parsePrice price1, parsePrice price2) of
        (Some p1, Some p2) \<Rightarrow>
          (let avg = round_div (p1 + p2) 2 in Str (CHR ''$'' # toLocaleString avg))
      | _ \<Rightarrow> price1)"

text \<open>Reading fields that may be absent; \<open>${x}\<close> and \<open>join\<close> on a possibly undefined string.\<close>

definition priceOf :: "mapping \<Rightarrow> jsval" where
  "priceOf m = (case proposedPrice m of None \<Rightarrow> Undefined | Some v \<Rightarrow> v)"

definition sourcePriceOf :: "mapping \<Rightarrow> jsval" where
  "sourcePriceOf m = (case source m of None \<Rightarrow> Undefined | Some w \<Rightarrow> sw_price w)"

definition tmpl :: "string option \<Rightarrow> string" where
  "tmpl s = (case s of None \<Rightarrow> ''undefined'' | Some t \<Rightarrow> t)"

fun js_join :: "string \<Rightarrow> string option list \<Rightarrow> string" where
  "js_join sep [] = []"
| "js_join sep [x] = (case x of None \<Rightarrow> [] | Some t \<Rightarrow> t)"
| "js_join sep (x # y # ys) = (case x of None \<Rightarrow> [] | Some t \<Rightarrow> t) @ sep @ js_join sep (y # ys)"

text \<open>
  \<open>xs.sort((a, b) => ...)\<close>: the sort is stable, and a comparator result of \<open>NaN\<close>
  counts as 0. For a comparator that is a consistent order this insertion sort yields
  the one stable sorted arrangement; with invalid dates the comparator is not
  consistent and JavaScript leaves the order to the implementation.
\<close>

fun insort_by :: "('a \<Rightarrow> 'a \<Rightarrow> int option) \<Rightarrow> 'a \<Rightarrow> 'a list \<Rightarrow> 'a list" where
  "insort_by cmp x [] = [x]"
| "insort_by cmp x (y # ys) =
     (if (case cmp x y of None \<Rightarrow> True | Some v \<Rightarrow> v \<le> 0) then x # y # ys
      else y # insort_by cmp x ys)"

definition js_sort :: "('a \<Rightarrow> 'a \<Rightarrow> int option) \<Rightarrow> 'a list \<Rightarrow> 'a list" where
  "js_sort cmp xs = foldr (insort_by cmp) xs []"

definition targetStartOf :: "mapping \<Rightarrow> jsdate" where
  "targetStartOf m = (case target m of None \<Rightarrow> InvalidDate | Some t \<Rightarrow> w_start t)"

text \<open>\<open>(a, b) => a.target.start.getTime() - b.target.start.getTime()\<close>\<close>

definition byTargetStart :: "mapping \<Rightarrow> mapping \<Rightarrow> int option" where
  "byTargetStart a b =
     (case (targetStartOf a, targetStartOf b) of
        (Date x, Date y) \<Rightarrow> Some (x - y)
      | _ \<Rightarrow> None)"

text \<open>\<open>xs.findIndex(p)\<close>: the first index that satisfies \<open>p\<close>, or -1.\<close>

definition findIndex :: "('a \<Rightarrow> bool) \<Rightarrow> 'a list \<Rightarrow> int" where
  "findIndex p xs =
     (let n = length (takeWhile (\<lambda>x. \<not> p x) xs) in if n < length xs then int n else - 1)"

text \<open>
  Lines 142 to 152: the index of mappings by target week. \<open>targetKeyToMappings\<close> is a
  \<open>Map\<close>, enumerated in the order its keys were first set.
\<close>

fun indexLoop ::
  "mapping list \<Rightarrow> string set \<times> (string \<times> mapping list) list
     \<Rightarrow> string set \<times> (string \<times> mapping list) list" where
  "indexLoop [] st = st"
| "indexLoop (m # rest) (mappedTargetKeys, targetKeyToMappings) =
     indexLoop rest
       (case target m of
          None \<Rightarrow> (mappedTargetKeys, targetKeyToMappings)
        | Some t \<Rightarrow>
            (let k = w_key t;
                 tk = (if map_of targetKeyToMappings k = None
                       then targetKeyToMappings @ [(k, [])] else targetKeyToMappings)
             in (insert k mappedTargetKeys,
                 AList.update k ((case map_of tk k of None \<Rightarrow> [] | Some ms \<Rightarrow> ms) @ [m]) tk)))"

text \<open>
  Lines 155 to 179: one collision conflict for each key with more than one mapping.
  \<open>m.source.price\<close> throws when \<open>source\<close> is \<open>null\<close>.
\<close>

definition collisionConflict :: "string \<Rightarrow> mapping list \<Rightarrow> conflict" where
  "collisionConflict targetKey maps =
     \<lparr>c_kind = Collision
         \<lparr>col_targetWeek = targetKey,
          col_targetRange = targetRange (hd maps),
          col_mappings =
            map (\<lambda>m. \<lparr>ce_sourceRange = sourceRange m, ce_price = sourcePriceOf m,
                       ce_relationship = relationship m\<rparr>) maps\<rparr>,
      c_description =
        ''Both '' @ js_join '' and '' (map sourceRange maps) @ '' would map to ''
          @ tmpl (targetRange (hd maps)) @ ''. Which price should apply?'',
      c_options =
        map (\<lambda>(m, i).
               \<lparr>o_label = ''Use '' @ tmpl (sourceRange m) @ '' price ('' @
                            js_String (sourcePriceOf m) @ '')'',
                o_value = sourcePriceOf m,
                o_sourceIndex = Some (int i),
                o_interpolatedPrice = None\<rparr>)
            (zip maps [0..<length maps])
        @ [\<lparr>o_label = ''Enter custom price'', o_value = Str ''custom'',
             o_sourceIndex = Some (- 1), o_interpolatedPrice = None\<rparr>],
      c_resolved = False,
      c_resolution = None\<rparr>"

fun collisionLoop ::
  "(string \<times> mapping list) list \<Rightarrow> conflict list \<Rightarrow> js_error + conflict list" where
  "collisionLoop [] conflicts = Inr conflicts"
| "collisionLoop ((targetKey, maps) # rest) conflicts =
     (if length maps > 1
      then (if list_ex (\<lambda>m. source m = None) maps then Inl TypeError
            else collisionLoop rest (conflicts @ [collisionConflict targetKey maps]))
      else collisionLoop rest conflicts)"

text \<open>
  Lines 184 to 236: the gaps. Comparisons of time values are false when either is
  \<open>NaN\<close>.
\<close>

definition time_lt :: "jsdate \<Rightarrow> jsdate \<Rightarrow> bool" where
  "time_lt a b = (case (a, b) of (Date x, Date y) \<Rightarrow> x < y | _ \<Rightarrow> False)"

definition nearestStep ::
  "jsdate \<Rightarrow> mapping option \<times> mapping option \<Rightarrow> mapping \<Rightarrow> mapping option \<times> mapping option" where
  "nearestStep targetTime st m =
     (case st of (nearestBefore, nearestAfter) \<Rightarrow>
        (case target m of
           None \<Rightarrow> (nearestBefore, nearestAfter)
         | Some t \<Rightarrow>
            (let mTime = w_start t in
             (if time_lt mTime targetTime \<and>
                 (case nearestBefore of None \<Rightarrow> True
                  | Some nb \<Rightarrow> time_lt (targetStartOf nb) mTime)
              then Some m else nearestBefore,
              if time_lt targetTime mTime \<and>
                 (case nearestAfter of None \<Rightarrow> True
                  | Some na \<Rightarrow> time_lt mTime (targetStartOf na))
              then Some m else nearestAfter))))"

definition gapOptions :: "mapping option \<Rightarrow> mapping option \<Rightarrow> option_entry list" where
  "gapOptions nearestBefore nearestAfter =
     (case nearestBefore of
        None \<Rightarrow> []
      | Some nb \<Rightarrow>
          [\<lparr>o_label = ''Use previous week's price ('' @ js_String (priceOf nb) @ '')'',
            o_value = priceOf nb, o_sourceIndex = None, o_interpolatedPrice = None\<rparr>])
     @ (case nearestAfter of
          None \<Rightarrow> []
        | Some na \<Rightarrow>
            [\<lparr>o_label = ''Use next week's price ('' @ js_String (priceOf na) @ '')'',
              o_value = priceOf na, o_sourceIndex = None, o_interpolatedPrice = None\<rparr>])
     @ (case (nearestBefore, nearestAfter) of
          (Some nb, Some na) \<Rightarrow>
            [\<lparr>o_label = ''Interpolate between neighbors'', o_value = Str ''interpolate'',
              o_sourceIndex = None,
              o_interpolatedPrice = Some (interpolatePrice (priceOf nb) (priceOf na))\<rparr>]
        | _ \<Rightarrow> [])
     @ [\<lparr>o_label = ''Enter custom price'', o_value = Str ''custom'',
          o_sourceIndex = None, o_interpolatedPrice = None\<rparr>]"

definition gapConflict :: "mapping list \<Rightarrow> holidays \<Rightarrow> int \<Rightarrow> week \<Rightarrow> js_error + conflict" where
  "gapConflict mappings targetHolidays weekStartDay targetWeek =
     (case getWeekHolidayRelationship (w_start targetWeek) targetHolidays weekStartDay of
        Inl e \<Rightarrow> Inl e
      | Inr rel \<Rightarrow>
          (case foldl (nearestStep (w_start targetWeek)) (None, None) mappings of
             (nearestBefore, nearestAfter) \<Rightarrow>
               Inr \<lparr>c_kind = Gap
                      \<lparr>gap_targetWeek = w_key targetWeek,
                       gap_targetRange = Some (formatWeekRange (w_start targetWeek) (w_end targetWeek)),
                       gap_relationship = Some (r_relationship rel),
                       gap_nearestBefore =
                         map_option (\<lambda>nb. \<lparr>n_range = targetRange nb, n_price = priceOf nb\<rparr>)
                           nearestBefore,
                       gap_nearestAfter =
                         map_option (\<lambda>na. \<lparr>n_range = targetRange na, n_price = priceOf na\<rparr>)
                           nearestAfter\<rparr>,
                    c_description =
                      ''No source week maps to ''
                        @ formatWeekRange (w_start targetWeek) (w_end targetWeek)
                        @ '' ('' @ r_relationship rel @ ''). How should we price it?'',
                    c_options = gapOptions nearestBefore nearestAfter,
                    c_resolved = False,
                    c_resolution = None\<rparr>))"

text \<open>The off-season test \<open>month < 3 || month > 10\<close>; it is false when the month is \<open>NaN\<close>.\<close>

definition offSeason :: "week \<Rightarrow> bool" where
  "offSeason targetWeek =
     (case w_start targetWeek of
        InvalidDate \<Rightarrow> False
      | Date t \<Rightarrow> (let month = getMonth t in month < 3 \<or> month > 10))"

fun gapLoop ::
  "mapping list \<Rightarrow> string set \<Rightarrow> holidays \<Rightarrow> int \<Rightarrow> week list \<Rightarrow> conflict list
     \<Rightarrow> js_error + conflict list" where
  "gapLoop mappings mappedTargetKeys targetHolidays weekStartDay [] conflicts = Inr conflicts"
| "gapLoop mappings mappedTargetKeys targetHolidays weekStartDay (targetWeek # rest) conflicts =
     (if offSeason targetWeek
      then gapLoop mappings mappedTargetKeys targetHolidays weekStartDay rest conflicts
      else if w_key targetWeek \<notin> mappedTargetKeys
      then (case gapConflict mappings targetHolidays weekStartDay targetWeek of
              Inl e \<Rightarrow> Inl e
            | Inr c \<Rightarrow>
                gapLoop mappings mappedTargetKeys targetHolidays weekStartDay rest (conflicts @ [c]))
      else gapLoop mappings mappedTargetKeys targetHolidays weekStartDay rest conflicts)"

text \<open>
  Lines 239 to 307: the body of the strategy-reversal pass for the mapping at index
  \<open>idx\<close>; \<open>None\<close> is an early \<open>return\<close> or a comparison that found no reversal.
  Averages of two integers are computed in the rationals.
\<close>

definition reversalConflict :: "mapping \<Rightarrow> string \<Rightarrow> string \<Rightarrow> conflict" where
  "reversalConflict m sourcePattern targetPattern =
     \<lparr>c_kind = StrategyReversal
         \<lparr>sr_sourceRange = sourceRange m,
          sr_targetRange = targetRange m,
          sr_price = priceOf m,
          sr_sourcePattern = sourcePattern,
          sr_targetPattern = targetPattern\<rparr>,
      c_description =
        tmpl (sourceRange m) @ '' was priced '' @ js_String (priceOf m) @ '', which was ''
          @ sourcePattern @ '' than its neighbors. The proposed '' @ tmpl (targetRange m)
          @ '' at '' @ js_String (priceOf m) @ '' would be '' @ targetPattern
          @ '' than ITS neighbors - the opposite pattern. Is this intentional?'',
      c_options =
        [\<lparr>o_label = ''Keep as mapped (intentional change)'', o_value = Str ''keep'',
           o_sourceIndex = None, o_interpolatedPrice = None\<rparr>,
         \<lparr>o_label = ''Adjust to maintain relative position'', o_value = Str ''adjust'',
           o_sourceIndex = None, o_interpolatedPrice = None\<rparr>],
      c_resolved = False,
      c_resolution = None\<rparr>"

definition strategyReversal :: "mapping list \<Rightarrow> nat \<Rightarrow> conflict option" where
  "strategyReversal mappings idx =
     (let m = mappings ! idx in
      if target m = None \<or> \<not> truthy (priceOf m) then None
      else case parsePrice (priceOf m) of
        None \<Rightarrow> None
      | Some currentPrice \<Rightarrow>
      if idx = 0 \<or> length mappings \<le> idx + 1 then None
      else
        (let sourcePrev = mappings ! (idx - 1);
             sourceNext = mappings ! (idx + 1)
         in case (parsePrice (js_or (sourcePriceOf sourcePrev) (priceOf sourcePrev)),
                  parsePrice (js_or (sourcePriceOf sourceNext) (priceOf sourceNext))) of
              (Some sourcePrevPrice, Some sourceNextPrice) \<Rightarrow>
                (let sourceAvgNeighbor = (of_int sourcePrevPrice + of_int sourceNextPrice) / (2 :: rat);
                     sourceRelative = of_int currentPrice - sourceAvgNeighbor;
                     wasAbove = (sourceRelative > 100);
                     wasBelow = (sourceRelative < - 100)
                 in if \<not> wasAbove \<and> \<not> wasBelow then None
                    else
                      (let targetKey = map_option w_key (target m);
                           sortedMappings =
                             js_sort byTargetStart (filter (\<lambda>x. target x \<noteq> None) mappings);
                           targetIdx =
                             findIndex (\<lambda>x. map_option w_key (target x) = targetKey) sortedMappings
                       in if targetIdx \<le> 0 \<or> targetIdx \<ge> int (length sortedMappings) - 1 then None
                          else
                            (let targetPrev = sortedMappings ! nat (targetIdx - 1);
                                 targetNext = sortedMappings ! nat (targetIdx + 1)
                             in case (parsePrice (priceOf targetPrev), parsePrice (priceOf targetNext)) of
                                  (Some targetPrevPrice, Some targetNextPrice) \<Rightarrow>
                                    (let targetAvgNeighbor =
                                           (of_int targetPrevPrice + of_int targetNextPrice) / (2 :: rat);
                                         targetRelative = of_int currentPrice - targetAvgNeighbor;
                                         isAbove = (targetRelative > 100);
                                         isBelow = (targetRelative < - 100)
                                     in if (wasAbove \<and> isBelow) \<or> (wasBelow \<and> isAbove)
                                        then Some (reversalConflict m
                                                     (if wasAbove then ''higher'' else ''lower'')
                                                     (if isAbove then ''higher'' else ''lower''))
                                        else None)
                                | _ \<Rightarrow> None)))
            | _ \<Rightarrow> None))"

definition detectConflicts :: "mapping list \<Rightarrow> int \<Rightarrow> int \<Rightarrow> js_error + conflict list" where
  "detectConflicts mappings targetYear weekStartDay =
     (let allTargetWeeks = generateWeeksForYear targetYear weekStartDay in
      case indexLoop mappings ({}, []) of
        (mappedTargetKeys, targetKeyToMappings) \<Rightarrow>
     (case collisionLoop targetKeyToMappings [] of
        Inl e \<Rightarrow> Inl e
      | Inr collisions \<Rightarrow>
     (case getHolidaysForYear targetYear of
        None \<Rightarrow> Inl NoReturn
      | Some targetHolidays \<Rightarrow>
     (case gapLoop mappings mappedTargetKeys targetHolidays weekStartDay allTargetWeeks collisions of
        Inl e \<Rightarrow> Inl e
      | Inr conflicts \<Rightarrow>
          Inr (conflicts @ List.map_filter (strategyReversal mappings) [0..<length mappings])))))"

section \<open>weekMapping.js: applying resolutions\<close>

text \<open>
  \<open>applyResolutions\<close> copies the array (\<open>[...mappings]\<close>) but not the mapping objects,
  and later assigns to \<open>resolvedMappings[i].proposedPrice\<close>. The objects therefore live
  in a store: an array of mappings is a list of addresses, and the function returns
  the store as it leaves it together with the returned array, read out of that store.
  Gap-fill mappings are fresh objects referenced from the result only.
\<close>

type_synonym addr = nat

type_synonym heap = "addr \<Rightarrow> mapping"

text \<open>
  Lines 339 to 355, the body of the \<open>for\<close> loop at index \<open>i\<close>; the state is the store,
  \<open>resolvedMappings\<close> and \<open>kept\<close>. \<open>splice(i, 1)\<close> removes the element at \<open>i\<close>.
\<close>

definition collisionStep ::
  "collision_conflict \<Rightarrow> resolution \<Rightarrow> nat \<Rightarrow> heap \<times> addr list \<times> bool \<Rightarrow> heap \<times> addr list \<times> bool" where
  "collisionStep col res i st =
     (case st of (h, resolvedMappings, kept) \<Rightarrow>
        (let a = resolvedMappings ! i in
         if map_option w_key (target (h a)) = Some (col_targetWeek col)
         then (if \<not> kept \<and> res_sourceIndex res \<noteq> None
               then (if res_sourceIndex res =
                          Some (findIndex (\<lambda>m. ce_sourceRange m = sourceRange (h a)) (col_mappings col))
                     then (h(a := (h a)\<lparr>proposedPrice := Some (res_value res)\<rparr>),
                           resolvedMappings, True)
                     else (h, take i resolvedMappings @ drop (Suc i) resolvedMappings, kept))
               else if res_value res = Str ''custom''
               then (h(a := (h a)\<lparr>proposedPrice := Some (res_customPrice res)\<rparr>),
                     resolvedMappings, True)
               else (h, resolvedMappings, kept))
         else (h, resolvedMappings, kept)))"

text \<open>\<open>for (let i = resolvedMappings.length - 1; i >= 0; i--)\<close>: the argument counts \<open>i + 1\<close>.\<close>

fun collisionDownLoop ::
  "collision_conflict \<Rightarrow> resolution \<Rightarrow> nat \<Rightarrow> heap \<times> addr list \<times> bool \<Rightarrow> heap \<times> addr list \<times> bool" where
  "collisionDownLoop col res 0 st = st"
| "collisionDownLoop col res (Suc i) st = collisionDownLoop col res i (collisionStep col res i st)"

text \<open>Lines 357 to 382: the mapping synthesized for a resolved gap.\<close>

definition gapFill :: "gap_conflict \<Rightarrow> resolution \<Rightarrow> mapping" where
  "gapFill g res =
     (let targetStart = parseWeekKey (gap_targetWeek g);
          targetEnd = addDays targetStart 7;
          price = (if res_value res = Str ''interpolate'' then res_interpolatedPrice res
                   else if res_value res = Str ''custom'' then res_customPrice res
                   else res_value res)
      in \<lparr>source = None,
          sourceStart = None,
          sourceRange = Some ''N/A (gap fill)'',
          target = Some \<lparr>w_start = targetStart, w_end = targetEnd, w_key = gap_targetWeek g\<rparr>,
          targetRange = gap_targetRange g,
          relationship = gap_relationship g,
          holidayKey = None,
          weeksAway = None,
          proposedPrice = Some price,
          error = None,
          isGapFill = True\<rparr>)"

text \<open>The body of \<open>conflicts.forEach\<close>; the state is the store, \<open>resolvedMappings\<close> and \<open>additionalWeeks\<close>.\<close>

definition applyConflict ::
  "heap \<times> addr list \<times> mapping list \<Rightarrow> conflict \<Rightarrow> heap \<times> addr list \<times> mapping list" where
  "applyConflict st c =
     (case st of (h, resolvedMappings, additionalWeeks) \<Rightarrow>
        (if \<not> c_resolved c then st
         else case c_resolution c of
           None \<Rightarrow> st
         | Some res \<Rightarrow>
             (case c_kind c of
                Collision col \<Rightarrow>
                  (case collisionDownLoop col res (length resolvedMappings)
                          (h, resolvedMappings, False) of
                     (h', resolvedMappings', kept) \<Rightarrow> (h', resolvedMappings', additionalWeeks))
              | Gap g \<Rightarrow> (h, resolvedMappings, additionalWeeks @ [gapFill g res])
              | StrategyReversal r \<Rightarrow> st)))"

definition applyResolutions :: "heap \<Rightarrow> addr list \<Rightarrow> conflict list \<Rightarrow> heap \<times> mapping list" where
  "applyResolutions h mappings conflicts =
     (case foldl applyConflict (h, mappings, []) conflicts of
        (h', resolvedMappings, additionalWeeks) \<Rightarrow>
          (h', js_sort byTargetStart
                 (filter (\<lambda>m. target m \<noteq> None) (map h' resolvedMappings @ additionalWeeks))))"

section \<open>calculations.js\<close>

text \<open>
  \<open>parsePrice\<close> of calculations.js:
  \<open>if (!priceStr) return 0; return parseInt(String(priceStr).replace(/[$,]/g, '')) || 0\<close>.
  The result is a JavaScript number; \<open>None\<close> would be \<open>NaN\<close>.
\<close>

definition calc_parsePrice :: "jsval \<Rightarrow> int option" where
  "calc_parsePrice priceStr =
     (if \<not> truthy priceStr then Some 0
      else case js_parseInt (strip_currency (js_String priceStr)) of
             None \<Rightarrow> Some 0
           | Some n \<Rightarrow> (if n = 0 then Some 0 else Some n))"

text \<open>
  JavaScript numbers are IEEE 754 doubles. A number is a finite value, given as the
  rational it denotes, an infinity, or \<open>NaN\<close>. (The two zeros are one value here: they
  differ only as divisors, and \<open>calculateListPrice\<close> never divides by zero.)
\<close>

datatype jsnum = Double rat | Infinity | MinusInfinity | NotANumber

text \<open>
  Rounding a rational to the nearest double, ties to the even significand: the
  exponent \<open>e\<close> of a positive \<open>a\<close> is the largest with \<open>2 ^ e \<le> a\<close> (found from the bit
  lengths of numerator and denominator), but at least -1022, where the subnormal
  numbers begin; the result is a multiple of \<open>2 ^ (e - 52)\<close>, and a result of \<open>2 ^ 1024\<close>
  or more is an infinity.
\<close>

function ilog2 :: "int \<Rightarrow> int" where
  "ilog2 n = (if n \<le> 1 then 0 else 1 + ilog2 (n div 2))"
  by pat_completeness auto
termination
  by (relation "measure nat") auto

declare ilog2.simps [simp del]

definition pow2 :: "int \<Rightarrow> rat" where
  "pow2 e = (if e \<ge> 0 then of_int (2 ^ nat e) else 1 / of_int (2 ^ nat (- e)))"

definition floorLog2 :: "rat \<Rightarrow> int" where
  "floorLog2 a =
     (case quotient_of a of
        (p, q) \<Rightarrow> (let e = ilog2 p - ilog2 q in if pow2 e \<le> a then e else e - 1))"

definition roundHalfEven :: "rat \<Rightarrow> int" where
  "roundHalfEven x =
     (let f = \<lfloor>x\<rfloor>; r = x - of_int f
      in if r < 1 / 2 then f else if r > 1 / 2 then f + 1 else if even f then f else f + 1)"

text \<open>The number \<open>2 ^ 1024\<close>, written out.\<close>

definition twoTo1024 :: rat where
  "twoTo1024 = 179769313486231590772930519078902473361797697894230657273430081157732675805500963132708477322407536021120113879871393357658789768814416622492847430639474124377767893424865485276302219601246094119453082952085005768838150682342462881473913110540827237163350510684586298239947245938479716304835356329624224137216"

definition roundDouble :: "rat \<Rightarrow> jsnum" where
  "roundDouble x =
     (if x = 0 then Double 0
      else (let a = \<bar>x\<bar>;
                e = max (floorLog2 a) (- 1022);
                ulp = pow2 (e - 52);
                r = of_int (roundHalfEven (a / ulp)) * ulp
            in if r \<ge> twoTo1024 then (if x > 0 then Infinity else MinusInfinity)
               else Double (if x > 0 then r else - r)))"

text \<open>
  The operators \<open>>=\<close>, \<open>-\<close> and \<open>/\<close> and \<open>Math.ceil\<close> on numbers: a comparison with \<open>NaN\<close> is
  false, an operation on \<open>NaN\<close> is \<open>NaN\<close>, and a finite result is rounded.
\<close>

definition js_ge :: "jsnum \<Rightarrow> jsnum \<Rightarrow> bool" where
  "js_ge a b =
     (case a of
        NotANumber \<Rightarrow> False
      | Infinity \<Rightarrow> b \<noteq> NotANumber
      | MinusInfinity \<Rightarrow> b = MinusInfinity
      | Double x \<Rightarrow>
          (case b of
             NotANumber \<Rightarrow> False
           | Infinity \<Rightarrow> False
           | MinusInfinity \<Rightarrow> True
           | Double y \<Rightarrow> x \<ge> y))"

definition js_sub :: "jsnum \<Rightarrow> jsnum \<Rightarrow> jsnum" where
  "js_sub a b =
     (case a of
        NotANumber \<Rightarrow> NotANumber
      | Infinity \<Rightarrow> (case b of NotANumber \<Rightarrow> NotANumber | Infinity \<Rightarrow> NotANumber | _ \<Rightarrow> Infinity)
      | MinusInfinity \<Rightarrow>
          (case b of NotANumber \<Rightarrow> NotANumber | MinusInfinity \<Rightarrow> NotANumber | _ \<Rightarrow> MinusInfinity)
      | Double x \<Rightarrow>
          (case b of
             NotANumber \<Rightarrow> NotANumber
           | Infinity \<Rightarrow> MinusInfinity
           | MinusInfinity \<Rightarrow> Infinity
           | Double y \<Rightarrow> roundDouble (x - y)))"

definition js_div :: "jsnum \<Rightarrow> jsnum \<Rightarrow> jsnum" where
  "js_div a b =
     (case a of
        NotANumber \<Rightarrow> NotANumber
      | Infinity \<Rightarrow>
          (case b of Double y \<Rightarrow> (if y \<ge> 0 then Infinity else MinusInfinity) | _ \<Rightarrow> NotANumber)
      | MinusInfinity \<Rightarrow>
          (case b of Double y \<Rightarrow> (if y \<ge> 0 then MinusInfinity else Infinity) | _ \<Rightarrow> NotANumber)
      | Double x \<Rightarrow>
          (case b of
             NotANumber \<Rightarrow> NotANumber
           | Infinity \<Rightarrow> Double 0
           | MinusInfinity \<Rightarrow> Double 0
           | Double y \<Rightarrow>
               (if y = 0
                then (if x = 0 then NotANumber else if x > 0 then Infinity else MinusInfinity)
                else roundDouble (x / y))))"

definition js_ceil :: "jsnum \<Rightarrow> jsnum" where
  "js_ceil a = (case a of Double x \<Rightarrow> Double (of_int \<lceil>x\<rceil>) | _ \<Rightarrow> a)"

text \<open>
  \<open>calculateListPrice\<close>: \<open>if (commissionRate >= 1) return netPrice\<close>, then
  \<open>Math.ceil(netPrice / (1 - commissionRate))\<close>.
\<close>

definition calculateListPrice :: "jsnum \<Rightarrow> jsnum \<Rightarrow> jsnum" where
  "calculateListPrice netPrice commissionRate =
     (if js_ge commissionRate (Double 1) then netPrice
      else (let listPrice = js_div netPrice (js_sub (Double 1) commissionRate)
            in js_ceil listPrice))"

section \<open>Notions used to state the properties\<close>

text \<open>The keys of the six standard holidays.\<close>

definition holidayKeys :: "string list" where
  "holidayKeys = [''newYearsDay'', ''memorialDay'', ''july4th'', ''laborDay'',
                  ''thanksgiving'', ''christmas'']"

text \<open>The distinct elements of a list, in order of first occurrence.\<close>

definition firstOcc :: "'a list \<Rightarrow> 'a list" where
  "firstOcc xs = foldl (\<lambda>acc k. if k \<in> set acc then acc else acc @ [k]) [] xs"

text \<open>A source week whose start date resolves to a valid date.\<close>

definition validStart :: "source_week \<Rightarrow> bool" where
  "validStart w = (case sourceStartOf w of Inr (Date t) \<Rightarrow> True | _ \<Rightarrow> False)"

text \<open>
  The keys of the target-year anchor set: the six holidays and the enabled anchors
  that have a target date.
\<close>

definition targetAnchorKeys :: "anchor list \<Rightarrow> string list" where
  "targetAnchorKeys anchors =
     holidayKeys @ map a_id (filter (\<lambda>a. a_enabled a \<and> a_targetDate a \<noteq> None) anchors)"

text \<open>
  The source-year anchor set in the words of the specification: the holidays of the
  source year and the enabled anchors that have a source date. Its keys are the
  holiday keys followed by the new anchor ids, in order of first occurrence; the
  entry of a key is that of the last enabled anchor with a source date and that id,
  or else the holiday.
\<close>

definition sourceAnchors :: "anchor list \<Rightarrow> anchor list" where
  "sourceAnchors anchors = filter (\<lambda>a. a_enabled a \<and> a_sourceDate a \<noteq> None) anchors"

definition anchorHoliday :: "anchor \<Rightarrow> int option \<Rightarrow> holiday" where
  "anchorHoliday a date = \<lparr>h_name = a_name a, h_date = date, h_type = a_type a\<rparr>"

definition sourceEntry :: "holidays \<Rightarrow> anchor list \<Rightarrow> string \<Rightarrow> holiday" where
  "sourceEntry sourceHolidays custom k =
     (case filter (\<lambda>a. a_id a = k) custom of
        [] \<Rightarrow> the (map_of sourceHolidays k)
      | a # as \<Rightarrow> anchorHoliday (last (a # as)) (a_sourceDate (last (a # as))))"

definition sourceAnchorSet :: "holidays \<Rightarrow> anchor list \<Rightarrow> holidays" where
  "sourceAnchorSet sourceHolidays anchors =
     map (\<lambda>k. (k, sourceEntry sourceHolidays (sourceAnchors anchors) k))
       (firstOcc (map fst sourceHolidays @ map a_id (sourceAnchors anchors)))"

text \<open>
  The signed number of weeks from an anchor to a week that starts on day \<open>t\<close>: the week
  containing the anchor's date starts on that date minus
  \<open>(weekday - weekStartDay + 7) % 7\<close> days, and the difference of the two week starts
  is divided by seven days and rounded. (A missing date reads as the epoch.)
\<close>

definition weeksFromAnchor :: "int \<Rightarrow> int \<Rightarrow> int option \<Rightarrow> int" where
  "weeksFromAnchor weekStartDay t date =
     (let d = (case date of None \<Rightarrow> 0 | Some d \<Rightarrow> d);
          anchorWeekStart = d - js_rem (getDay d - weekStartDay + 7) 7
      in round_div (t - anchorWeekStart) 7)"

text \<open>
  The anchor at index \<open>j\<close> of an anchor set is the nearest to the week that starts on
  day \<open>t\<close>: no anchor is fewer weeks away, and every anchor before it is more weeks
  away (of several nearest anchors the first wins).
\<close>

definition nearestAt :: "int \<Rightarrow> int \<Rightarrow> holidays \<Rightarrow> nat \<Rightarrow> bool" where
  "nearestAt weekStartDay t anchorSet j =
     (j < length anchorSet \<and>
      list_all
        (\<lambda>i. \<bar>weeksFromAnchor weekStartDay t (h_date (snd (anchorSet ! j)))\<bar>
                \<le> \<bar>weeksFromAnchor weekStartDay t (h_date (snd (anchorSet ! i)))\<bar>
              \<and> (i < j \<longrightarrow>
                   \<bar>weeksFromAnchor weekStartDay t (h_date (snd (anchorSet ! j)))\<bar>
                     < \<bar>weeksFromAnchor weekStartDay t (h_date (snd (anchorSet ! i)))\<bar>))
        [0..<length anchorSet])"

text \<open>
  Example inputs: the week of Labor Day 2026 (Saturday 5 September) priced \<open>$3,500\<close>,
  the week of 18 April 2026 priced \<open>$2,800\<close>, and a custom anchor on 20 April 2026
  that has no target date.
\<close>

definition laborDayWeek2026 :: source_week where
  "laborDayWeek2026 =
     \<lparr>sw_start = StartObject None None None,
      sw_startDate = (Some 2026, Some 8, Some 5),
      sw_weekKey = Some ''2026-09-05'',
      sw_key = Some ''2026-09-05'',
      sw_price = Str ''$3,500''\<rparr>"

definition aprilWeek2026 :: source_week where
  "aprilWeek2026 =
     \<lparr>sw_start = StartString ''2026-04-18T04:00:00.000Z'',
      sw_startDate = (Some 2026, Some 3, Some 18),
      sw_weekKey = Some ''2026-04-18'',
      sw_key = Some ''2026-04-18'',
      sw_price = Str ''$2,800''\<rparr>"

definition aprilBreakAnchor :: anchor where
  "aprilBreakAnchor =
     \<lparr>a_id = ''custom_1'', a_name = ''April School Break'', a_type = ''custom'',
      a_enabled = True, a_sourceDate = Some (new_Date 2026 3 20), a_targetDate = None\<rparr>"

text \<open>
  Two records on which the start date does not resolve: the Labor Day week as a week
  with a \<open>Date\<close> object for \<open>start\<close> and a key, with no structured \<open>startDate\<close>; and the
  April week with its start as an ISO string and no \<open>weekKey\<close> or \<open>key\<close>.
\<close>

definition dateStartWeek2026 :: source_week where
  "dateStartWeek2026 =
     \<lparr>sw_start = StartObject None None None,
      sw_startDate = (None, None, None),
      sw_weekKey = Some ''2026-09-05'',
      sw_key = Some ''2026-09-05'',
      sw_price = Str ''$3,500''\<rparr>"

definition isoStartWeek2026 :: source_week where
  "isoStartWeek2026 =
     \<lparr>sw_start = StartString ''2026-04-18T04:00:00.000Z'',
      sw_startDate = (None, None, None),
      sw_weekKey = None,
      sw_key = None,
      sw_price = Str ''$2,800''\<rparr>"

text \<open>The day number of a mapping's target start, for mappings whose target start is valid.\<close>

definition targetDay :: "mapping \<Rightarrow> int" where
  "targetDay m = (case targetStartOf m of InvalidDate \<Rightarrow> 0 | Date t \<Rightarrow> t)"

definition validTarget :: "mapping \<Rightarrow> bool" where
  "validTarget m = (case targetStartOf m of InvalidDate \<Rightarrow> False | Date t \<Rightarrow> True)"

text \<open>Two mappings that agree on every field except, possibly, \<open>proposedPrice\<close>.\<close>

definition sameButPrice :: "mapping \<Rightarrow> mapping \<Rightarrow> bool" where
  "sameButPrice m m' = (m' = m\<lparr>proposedPrice := proposedPrice m'\<rparr>)"

text \<open>A conflict that \<open>applyResolutions\<close> treats as a resolved collision.\<close>

definition resolvedCollision :: "conflict \<Rightarrow> bool" where
  "resolvedCollision c =
     (c_resolved c \<and> c_resolution c \<noteq> None
      \<and> (case c_kind c of Collision col \<Rightarrow> True | _ \<Rightarrow> False))"

text \<open>
  The price \<open>p\<close> is one that the resolution of a collision writes into the mapping \<open>m\<close>:
  the collision is for the mapping's target key, and \<open>p\<close> is the resolution's value, for
  a resolution whose \<open>sourceIndex\<close> is the index of the mapping's \<open>sourceRange\<close> among the
  conflict's mappings, or its \<open>customPrice\<close>, for a resolution whose value is \<open>custom\<close>.
\<close>

definition priceWritten :: "collision_conflict \<Rightarrow> resolution \<Rightarrow> mapping \<Rightarrow> jsval option \<Rightarrow> bool" where
  "priceWritten col res m p =
     (map_option w_key (target m) = Some (col_targetWeek col)
      \<and> ((p = Some (res_value res)
           \<and> res_sourceIndex res =
               Some (findIndex (\<lambda>e. ce_sourceRange e = sourceRange m) (col_mappings col)))
          \<or> (p = Some (res_customPrice res) \<and> res_value res = Str ''custom'')))"

definition priceWrittenBy :: "conflict \<Rightarrow> mapping \<Rightarrow> jsval option \<Rightarrow> bool" where
  "priceWrittenBy c m p =
     (c_resolved c
      \<and> (case c_kind c of
            Collision col \<Rightarrow>
              (case c_resolution c of None \<Rightarrow> False | Some res \<Rightarrow> priceWritten col res m p)
          | _ \<Rightarrow> False))"

text \<open>The gap-fill mappings made for the resolved gaps of a conflict list, in order.\<close>

definition gapFills :: "conflict list \<Rightarrow> mapping list" where
  "gapFills conflicts =
     List.map_filter
       (\<lambda>c. if c_resolved c
            then (case c_kind c of
                    Gap g \<Rightarrow> map_option (gapFill g) (c_resolution c)
                  | _ \<Rightarrow> None)
            else None)
       conflicts"

text \<open>
  Example inputs for \<open>applyResolutions\<close>, after the data of the repository's tests: two
  mappings from different source weeks (\<open>Aug 22 - Aug 29\<close> at \<open>$3,500\<close>, stored at
  address 0, and \<open>Aug 29 - Sep 5\<close> at \<open>$3,200\<close>, at address 1) onto the target week
  \<open>2027-09-06\<close>, and the collision conflict for that week with a given resolution.
\<close>

definition exampleMapping :: "string \<Rightarrow> string \<Rightarrow> mapping" where
  "exampleMapping rng price =
     \<lparr>source = Some \<lparr>sw_start = StartObject None None None,
                      sw_startDate = (None, None, None),
                      sw_weekKey = None, sw_key = None, sw_price = Str price\<rparr>,
      sourceStart = None,
      sourceRange = Some rng,
      target = Some \<lparr>w_start = Date (new_Date 2027 8 6), w_end = Date (new_Date 2027 8 13),
                      w_key = ''2027-09-06''\<rparr>,
      targetRange = Some ''Sep 6 - Sep 13'',
      relationship = None,
      holidayKey = None,
      weeksAway = None,
      proposedPrice = Some (Str price),
      error = None,
      isGapFill = False\<rparr>"

definition exampleStore :: heap where
  "exampleStore =
     (\<lambda>a. if a = 0 then exampleMapping ''Aug 22 - Aug 29'' ''$3,500''
          else exampleMapping ''Aug 29 - Sep 5'' ''$3,200'')"

definition exampleCollision :: "bool \<Rightarrow> resolution option \<Rightarrow> conflict" where
  "exampleCollision resolved res =
     \<lparr>c_kind = Collision
         \<lparr>col_targetWeek = ''2027-09-06'',
          col_targetRange = Some ''Sep 6 - Sep 13'',
          col_mappings =
            [\<lparr>ce_sourceRange = Some ''Aug 22 - Aug 29'', ce_price = Str ''$3,500'',
               ce_relationship = None\<rparr>,
             \<lparr>ce_sourceRange = Some ''Aug 29 - Sep 5'', ce_price = Str ''$3,200'',
               ce_relationship = None\<rparr>]\<rparr>,
      c_description = [],
      c_options = [],
      c_resolved = resolved,
      c_resolution = res\<rparr>"

text \<open>
  Notions for conflict detection: the target key of a mapping (if it has a target),
  the keys of the successful mappings in list order, the mappings that contribute to
  a key, the distinct elements of a list in order of first occurrence, and the
  mappings grouped by key in that order.
\<close>

definition targetKeyOf :: "mapping \<Rightarrow> string option" where
  "targetKeyOf m = map_option w_key (target m)"

definition targetKeys :: "mapping list \<Rightarrow> string list" where
  "targetKeys ms = List.map_filter targetKeyOf ms"

definition contributors :: "string \<Rightarrow> mapping list \<Rightarrow> mapping list" where
  "contributors k ms = filter (\<lambda>m. targetKeyOf m = Some k) ms"

definition groupIndex :: "mapping list \<Rightarrow> (string \<times> mapping list) list" where
  "groupIndex ms = map (\<lambda>k. (k, contributors k ms)) (firstOcc (targetKeys ms))"

text \<open>The conflicts of each kind in a list of conflicts, in order.\<close>

definition collisionsOf :: "conflict list \<Rightarrow> collision_conflict list" where
  "collisionsOf cs =
     List.map_filter (\<lambda>c. case c_kind c of Collision col \<Rightarrow> Some col | _ \<Rightarrow> None) cs"

definition gapsOf :: "conflict list \<Rightarrow> gap_conflict list" where
  "gapsOf cs = List.map_filter (\<lambda>c. case c_kind c of Gap g \<Rightarrow> Some g | _ \<Rightarrow> None) cs"

definition reversalsOf :: "conflict list \<Rightarrow> conflict list" where
  "reversalsOf cs =
     filter (\<lambda>c. case c_kind c of StrategyReversal r \<Rightarrow> True | _ \<Rightarrow> False) cs"

text \<open>The entry a collision conflict records for a contributing mapping.\<close>

definition collisionEntry :: "mapping \<Rightarrow> collision_entry" where
  "collisionEntry m =
     \<lparr>ce_sourceRange = sourceRange m, ce_price = sourcePriceOf m,
      ce_relationship = relationship m\<rparr>"

text \<open>A week that starts in the months April to November (zero-based 3 to 10).\<close>

definition inSeason :: "week \<Rightarrow> bool" where
  "inSeason w =
     (case w_start w of InvalidDate \<Rightarrow> False | Date t \<Rightarrow> 3 \<le> getMonth t \<and> getMonth t \<le> 10)"

text \<open>
  Every successful mapping has a source week, as every mapping made by
  \<open>mapWeeksByHolidays\<close> has.
\<close>

definition sourcesPresent :: "mapping list \<Rightarrow> bool" where
  "sourcesPresent ms = list_all (\<lambda>m. target m \<noteq> None \<longrightarrow> source m \<noteq> None) ms"

text \<open>
  Every mapping that shares its target key with another successful mapping has a
  source week. A successful mapping alone on its key may have none, as the gap-fill
  mappings of \<open>applyResolutions\<close> do.
\<close>

definition collidingSourcesPresent :: "mapping list \<Rightarrow> bool" where
  "collidingSourcesPresent ms =
     list_all (\<lambda>m. case targetKeyOf m of
                      None \<Rightarrow> True
                    | Some k \<Rightarrow> 2 \<le> length (contributors k ms) \<longrightarrow> source m \<noteq> None) ms"

text \<open>
  More example mappings: a mapping onto the week that starts on a given day, and five
  mappings in source order whose second entry is priced above its source neighbours
  but below its neighbours in target order.
\<close>

definition pricedMapping :: "string \<Rightarrow> int \<Rightarrow> string \<Rightarrow> mapping" where
  "pricedMapping rng day price =
     (exampleMapping rng price)
       \<lparr>target := Some \<lparr>w_start = Date day, w_end = Date (day + 7), w_key = weekKey (Date day)\<rparr>,
        targetRange := Some (formatWeekRange (Date day) (Date (day + 7)))\<rparr>"

definition reversalExample :: "mapping list" where
  "reversalExample =
     [pricedMapping ''A'' 21000 ''$3,000'',
      pricedMapping ''B'' 21028 ''$3,500'',
      pricedMapping ''C'' 21007 ''$3,000'',
      pricedMapping ''D'' 21021 ''$4,000'',
      pricedMapping ''E'' 21035 ''$4,000'']"

definition unparseableExample :: "mapping list" where
  "unparseableExample =
     [pricedMapping ''A'' 21000 ''abc'',
      pricedMapping ''B'' 21007 ''abc'',
      pricedMapping ''C'' 21014 ''abc'']"

text \<open>
  Example source weeks for the collision scenario: the Saturday weeks of 13 and 20 June
  2026, and a mapping list with a single mapped July week.
\<close>

definition juneWeek2026 :: "int \<Rightarrow> string \<Rightarrow> string \<Rightarrow> source_week" where
  "juneWeek2026 day k price =
     \<lparr>sw_start = StartObject (Some 2026) (Some 5) (Some day),
      sw_startDate = (None, None, None),
      sw_weekKey = Some k,
      sw_key = Some k,
      sw_price = Str price\<rparr>"

definition juneWeeks2026 :: "source_week list" where
  "juneWeeks2026 =
     [juneWeek2026 6 ''2026-06-06'' ''$2,900'',
      juneWeek2026 13 ''2026-06-13'' ''$3,000'',
      juneWeek2026 20 ''2026-06-20'' ''$3,300'',
      juneWeek2026 27 ''2026-06-27'' ''$3,600'']"

definition julyMapped :: "mapping list" where
  "julyMapped = [pricedMapping ''Jul 4 - Jul 11'' (new_Date 2027 6 10) ''$4,000'']"

text \<open>The mappings next to a mapping in target order, and the price read from a source neighbour.\<close>

definition targetNeighbours :: "mapping list \<Rightarrow> nat \<Rightarrow> mapping \<times> mapping" where
  "targetNeighbours mappings idx =
     (let sortedMappings = js_sort byTargetStart (filter (\<lambda>x. target x \<noteq> None) mappings);
          targetIdx =
            findIndex (\<lambda>x. map_option w_key (target x) = map_option w_key (target (mappings ! idx)))
              sortedMappings
      in (sortedMappings ! nat (targetIdx - 1), sortedMappings ! nat (targetIdx + 1)))"

definition neighbourPrice :: "mapping \<Rightarrow> jsval" where
  "neighbourPrice m = js_or (sourcePriceOf m) (priceOf m)"


text \<open>
  Example lists with a mapping that has no source week: the second mapping of the
  example collision with its source removed; the mapped July week followed by the
  gap-fill mapping that \<open>applyResolutions\<close> makes for the week of 3 July 2027; and the
  mapped July week followed by a gap-fill mapping for its own week.
\<close>

definition sourcelessCollision :: "mapping list" where
  "sourcelessCollision = [exampleStore 0, (exampleStore 1)\<lparr>source := None\<rparr>]"

definition julyGapFill :: "string \<Rightarrow> string \<Rightarrow> mapping" where
  "julyGapFill k rng =
     gapFill \<lparr>gap_targetWeek = k, gap_targetRange = Some rng,
              gap_relationship = Some ''July 4th week'',
              gap_nearestBefore = None, gap_nearestAfter = None\<rparr>
             \<lparr>res_value = Str ''custom'', res_customPrice = Str ''$4,200'',
              res_sourceIndex = None, res_interpolatedPrice = Undefined\<rparr>"

definition gapFilled :: "mapping list" where
  "gapFilled = julyMapped @ [julyGapFill ''2027-07-03'' ''Jul 3 - Jul 10'']"

definition gapFillCollision :: "mapping list" where
  "gapFillCollision = julyMapped @ [julyGapFill ''2027-07-10'' ''Jul 10 - Jul 17'']"

section \<open>Facts about lists with keys\<close>

lemma firstOcc_Nil: "firstOcc [] = []"
  by (simp add: firstOcc_def)

lemma firstOcc_snoc:
  "firstOcc (xs @ [k]) = (if k \<in> set (firstOcc xs) then firstOcc xs else firstOcc xs @ [k])"
  by (simp add: firstOcc_def)

lemma set_firstOcc: "set (firstOcc xs) = set xs"
  by (induction xs rule: rev_induct) (auto simp: firstOcc_Nil firstOcc_snoc)

lemma distinct_firstOcc: "distinct (firstOcc xs)"
  by (induction xs rule: rev_induct) (auto simp: firstOcc_Nil firstOcc_snoc)

lemma map_of_mapped:
  "map_of (map (\<lambda>x. (x, f x)) ks) k = (if k \<in> set ks then Some (f k) else None)"
  by (induction ks) auto

lemma update_mapped:
  "distinct ks \<Longrightarrow> k \<in> set ks \<Longrightarrow>
   AList.update k v (map (\<lambda>x. (x, f x)) ks) = map (\<lambda>x. (x, if x = k then v else f x)) ks"
  by (induction ks) auto

lemma update_appended:
  "k \<notin> set ks \<Longrightarrow>
   AList.update k v (map (\<lambda>x. (x, f x)) ks @ [(k, v0)]) = map (\<lambda>x. (x, f x)) ks @ [(k, v)]"
  by (induction ks) auto

lemma firstOcc_distinct: "distinct xs \<Longrightarrow> firstOcc xs = xs"
  by (induction xs rule: rev_induct) (auto simp: firstOcc_Nil firstOcc_snoc)

lemma update_new_key:
  "k \<notin> set ks \<Longrightarrow>
   AList.update k v (map (\<lambda>x. (x, f x)) ks) = map (\<lambda>x. (x, f x)) ks @ [(k, v)]"
  by (induction ks) auto

lemma mapped_by_lookup:
  "distinct (map fst al) \<Longrightarrow> map (\<lambda>k. (k, the (map_of al k))) (map fst al) = al"
proof (induction al)
  case Nil
  then show ?case by simp
next
  case (Cons kv al)
  obtain k v where kv: "kv = (k, v)" by (cases kv)
  from Cons.prems have d: "distinct (map fst al)" and n: "k \<notin> fst ` set al"
    by (simp_all add: kv)
  have "map (\<lambda>x. (x, the (map_of ((k, v) # al) x))) (map fst al) =
        map (\<lambda>x. (x, the (map_of al x))) (map fst al)"
    using n by (intro map_cong) auto
  with Cons.IH [OF d] show ?case
    by (simp add: kv)
qed

section \<open>Facts about dates and holidays\<close>

lemma new_Date_day: "new_Date y m d = new_Date y m 0 + d"
  by (simp add: new_Date_def makeDay_def)

lemma weekday_within_week:
  assumes "0 \<le> wd" "wd \<le> 6"
  shows "\<exists>k<7. getDay (x - int k) = wd"
proof -
  define k where "k = nat ((x + 4 - wd) mod 7)"
  have k7: "k < 7" unfolding k_def by simp
  have "int k = (x + 4 - wd) mod 7" unfolding k_def by simp
  then have "getDay (x - int k) = ((x + 4) - (x + 4 - wd) mod 7) mod 7"
    unfolding getDay_def by (simp add: algebra_simps)
  also have "\<dots> = ((x + 4) - (x + 4 - wd)) mod 7"
    by (simp only: mod_diff_right_eq)
  also have "\<dots> = wd" using assms by simp
  finally have "getDay (x - int k) = wd" .
  with k7 show ?thesis by blast
qed

lemma lastWeekdayLoop_finds:
  "\<exists>k<fuel. getDay (new_Date y m (date - int k)) = wd \<Longrightarrow>
   \<exists>d. lastWeekdayLoop fuel y m wd date = Some d"
proof (induction fuel arbitrary: date)
  case 0
  then show ?case by simp
next
  case (Suc fuel)
  show ?case
  proof (cases "getDay (new_Date y m date) = wd")
    case True
    then show ?thesis by simp
  next
    case False
    from Suc.prems obtain k where k: "k < Suc fuel" "getDay (new_Date y m (date - int k)) = wd"
      by blast
    with False have "k \<noteq> 0" by (cases k) auto
    then obtain k' where k': "k = Suc k'" by (cases k) auto
    with k have "k' < fuel" "getDay (new_Date y m (date - 1 - int k')) = wd"
      by (simp_all add: algebra_simps)
    then have "\<exists>d. lastWeekdayLoop fuel y m wd (date - 1) = Some d"
      by (intro Suc.IH) blast
    with False show ?thesis by simp
  qed
qed

text \<open>The backward search of \<open>getNthWeekdayOfMonth\<close> returns for every weekday 0..6.\<close>

lemma lastWeekdayLoop_returns:
  assumes "0 \<le> wd" "wd \<le> 6"
  shows "\<exists>d. lastWeekdayLoop 7 y m wd date = Some d"
proof -
  obtain k where "k < 7" "getDay (new_Date y m 0 + date - int k) = wd"
    using weekday_within_week [OF assms, of "new_Date y m 0 + date"] by blast
  then have "\<exists>k<7. getDay (new_Date y m (date - int k)) = wd"
    by (subst new_Date_day) (auto simp: algebra_simps)
  then show ?thesis by (rule lastWeekdayLoop_finds)
qed

text \<open>\<open>getHolidaysForYear\<close> returns, for every year, the six holidays in this order.\<close>

lemma getHolidaysForYear_returns:
  "\<exists>hs. getHolidaysForYear year = Some hs \<and> map fst hs = holidayKeys"
proof -
  obtain d where "lastWeekdayLoop 7 year 4 1 (getDate (new_Date year (4 + 1) 0)) = Some d"
    using lastWeekdayLoop_returns [of 1 year 4] by force
  then have m: "getNthWeekdayOfMonth year 4 1 (- 1) = Some (Some (new_Date year 4 d))"
    by (simp add: getNthWeekdayOfMonth_def Let_def)
  have l: "getNthWeekdayOfMonth year 8 1 1 = Some (nthWeekdayLoop [1..31] 0 year 8 1 1)"
    by (simp add: getNthWeekdayOfMonth_def del: nthWeekdayLoop.simps)
  have t: "getNthWeekdayOfMonth year 10 4 4 = Some (nthWeekdayLoop [1..31] 0 year 10 4 4)"
    by (simp add: getNthWeekdayOfMonth_def del: nthWeekdayLoop.simps)
  show ?thesis
    unfolding getHolidaysForYear_def m l t by (simp add: holidayKeys_def del: nthWeekdayLoop.simps)
qed

lemma nearestLoop_keeps:
  "fst st \<noteq> None \<Longrightarrow> fst (nearestLoop ws wsd hs st) \<noteq> None"
proof (induction hs arbitrary: st)
  case Nil
  then show ?case by simp
next
  case (Cons kh hs)
  obtain k hol where kh: "kh = (k, hol)" by (cases kh)
  obtain n md wa where st: "st = (n, md, wa)" by (cases st)
  from Cons.prems st have "n \<noteq> None" by simp
  then show ?case
    unfolding kh st nearestLoop.simps
    by (intro Cons.IH) (simp split: option.splits)
qed

lemma nearestLoop_chosen:
  "fst (nearestLoop ws wsd hs st) = fst st \<or>
   (\<exists>kh\<in>set hs. fst (nearestLoop ws wsd hs st) = Some kh)"
proof (induction hs arbitrary: st)
  case Nil
  then show ?case by simp
next
  case (Cons kh hs)
  obtain k hol where kh: "kh = (k, hol)" by (cases kh)
  obtain n md wa where st: "st = (n, md, wa)" by (cases st)
  define st' where "st' =
    (case diffWeeksOf ws hol wsd of
       None \<Rightarrow> (n, md, wa)
     | Some diffWeeks \<Rightarrow>
         (if (case md of None \<Rightarrow> True | Some m \<Rightarrow> \<bar>diffWeeks\<bar> < \<bar>m\<bar>)
          then (Some (k, hol), Some diffWeeks, diffWeeks)
          else (n, md, wa)))"
  have step: "nearestLoop ws wsd (kh # hs) st = nearestLoop ws wsd hs st'"
    unfolding kh st st'_def by simp
  have alt: "fst st' = n \<or> fst st' = Some (k, hol)"
    unfolding st'_def by (simp split: option.splits)
  have "fst (nearestLoop ws wsd hs st') = fst st \<or>
        (\<exists>x\<in>set (kh # hs). fst (nearestLoop ws wsd hs st') = Some x)"
    using Cons.IH [of st'] alt unfolding st kh by auto
  then show ?case by (simp only: step)
qed

text \<open>
  With a valid week start and at least one holiday, \<open>getWeekHolidayRelationship\<close>
  returns, and the holiday it names is one of those given.
\<close>

lemma getWeekHolidayRelationship_returns:
  assumes "hs \<noteq> []"
  shows "\<exists>rel. getWeekHolidayRelationship (Date t) hs wsd = Inr rel \<and> r_holiday rel \<in> set hs"
proof -
  from assms obtain k hol rest where hs: "hs = (k, hol) # rest"
    by (cases hs) auto
  obtain dw where dw: "diffWeeksOf (Date t) hol wsd = Some dw"
    by (simp add: diffWeeksOf_def Let_def)
  have step: "nearestLoop (Date t) wsd hs (None, None, 0) =
              nearestLoop (Date t) wsd rest (Some (k, hol), Some dw, dw)"
    unfolding hs by (simp add: dw)
  have "fst (nearestLoop (Date t) wsd rest (Some (k, hol), Some dw, dw)) \<noteq> None"
    by (rule nearestLoop_keeps) simp
  then obtain kh md wa where res:
    "nearestLoop (Date t) wsd rest (Some (k, hol), Some dw, dw) = (Some kh, md, wa)"
    by (cases "nearestLoop (Date t) wsd rest (Some (k, hol), Some dw, dw)") auto
  have "kh \<in> set hs"
    using nearestLoop_chosen [of "Date t" wsd rest "(Some (k, hol), Some dw, dw)"]
    unfolding res hs by auto
  then show ?thesis
    unfolding getWeekHolidayRelationship_def step res by simp
qed

lemma getWeekHolidayRelationship_invalid:
  "getWeekHolidayRelationship InvalidDate hs wsd = Inl TypeError"
proof -
  have "nearestLoop InvalidDate wsd hs st = st" for st
    by (induction hs arbitrary: st) (auto simp: diffWeeksOf_def Let_def)
  then show ?thesis by (simp add: getWeekHolidayRelationship_def)
qed

section \<open>Facts about the week mapper\<close>

lemma update_nonempty: "AList.update k v al \<noteq> []"
  by (cases al) auto

lemma addAnchor_nonempty:
  "fst hs \<noteq> [] \<Longrightarrow> fst (addAnchor hs a) \<noteq> []"
  by (cases hs) (simp add: addAnchor_def update_nonempty split: option.splits)

lemma addAnchors_source_nonempty:
  "sourceHolidays \<noteq> [] \<Longrightarrow> fst (addAnchors sourceHolidays targetHolidays anchors) \<noteq> []"
proof -
  have "fst hs \<noteq> [] \<Longrightarrow> fst (foldl addAnchor hs as) \<noteq> []" for hs as
    by (induction as arbitrary: hs) (simp_all add: addAnchor_nonempty)
  then show "sourceHolidays \<noteq> [] \<Longrightarrow> ?thesis"
    by (simp add: addAnchors_def)
qed

text \<open>
  The target-year anchor set holds the target holidays and every enabled anchor with
  a target date, and nothing else.
\<close>

lemma addAnchors_target_keys:
  "(map_of (snd (addAnchors sourceHolidays targetHolidays anchors)) k = None) =
   (map_of targetHolidays k = None \<and>
    \<not> list_ex (\<lambda>a. a_enabled a \<and> a_id a = k \<and> a_targetDate a \<noteq> None) anchors)"
proof -
  have "(map_of (snd (foldl addAnchor hs as)) k = None) =
        (map_of (snd hs) k = None \<and> \<not> list_ex (\<lambda>a. a_id a = k \<and> a_targetDate a \<noteq> None) as)"
    for hs as
  proof (induction as arbitrary: hs)
    case Nil
    then show ?case by simp
  next
    case (Cons a as)
    obtain s t where hs: "hs = (s, t)" by (cases hs)
    have "(map_of (snd (addAnchor hs a)) k = None) =
          (map_of (snd hs) k = None \<and> \<not> (a_id a = k \<and> a_targetDate a \<noteq> None))"
      unfolding hs by (auto simp: addAnchor_def update_conv' split: option.splits)
    then show ?case
      by (simp add: Cons.IH)
  qed
  from this [of "(sourceHolidays, targetHolidays)" "filter a_enabled anchors"]
  show ?thesis
    by (auto simp: addAnchors_def list_ex_iff)
qed

text \<open>What the loop body pushes for a week with a valid start date.\<close>

lemma mapWeek_valid:
  fixes allTarget :: holidays
  assumes "sourceStartOf w = Inr (Date t)"
    and "getWeekHolidayRelationship (Date t) allSource wsd = Inr rel"
  defines "m \<equiv> projr (mapWeek allSource allTarget wsd w)"
  shows "mapWeek allSource allTarget wsd w = Inr m"
    and "source m = Some w"
    and "sourceStart m = Some (Date t)"
    and "relationship m = Some (r_relationship rel)"
    and "holidayKey m = Some (fst (r_holiday rel))"
    and "weeksAway m = Some (r_weeksAway rel)"
    and "\<not> isGapFill m"
    and "(target m = None) = (map_of allTarget (fst (r_holiday rel)) = None)"
    and "(error m = Some ''No matching anchor in target year'') = (target m = None)"
    and "(error m = None) = (target m \<noteq> None)"
    and "(sourceRange m = None) = (target m = None)"
    and "(targetRange m = None) = (target m = None)"
    and "proposedPrice m = (if target m = None then None else Some (sw_price w))"
  unfolding m_def
  by (simp_all add: mapWeek_def assms(1,2) Let_def split: option.splits)

lemma mapWeeksLoop_valid:
  assumes "\<forall>w\<in>set ws. \<exists>m. f w = Inr m" and "f = mapWeek allSource allTarget wsd"
  shows "mapWeeksLoop allSource allTarget wsd ws acc = Inr (acc @ map (\<lambda>w. projr (f w)) ws)"
  using assms(1)
proof (induction ws arbitrary: acc)
  case Nil
  then show ?case by simp
next
  case (Cons w ws)
  then obtain m where m: "f w = Inr m" by auto
  from Cons.prems have "\<forall>w\<in>set ws. \<exists>m. f w = Inr m" by simp
  then have "mapWeeksLoop allSource allTarget wsd ws (acc @ [m]) =
             Inr ((acc @ [m]) @ map (\<lambda>w. projr (f w)) ws)"
    by (rule Cons.IH)
  with m show ?case
    by (simp add: assms(2) [symmetric])
qed

section \<open>The anchor set and the nearest anchor\<close>

text \<open>The source-year set that \<open>mapWeeksByHolidays\<close> builds is the one specified.\<close>

lemma addAnchors_source_fold:
  "fst (foldl addAnchor (s, t) as) =
   foldl (\<lambda>s a. AList.update (a_id a) (anchorHoliday a (a_sourceDate a)) s) s
     (filter (\<lambda>a. a_sourceDate a \<noteq> None) as)"
proof (induction as arbitrary: s t)
  case Nil
  then show ?case by simp
next
  case (Cons a as)
  show ?case
  proof (cases "a_sourceDate a")
    case None
    then have "addAnchor (s, t) a = (s, snd (addAnchor (s, t) a))"
      by (simp add: addAnchor_def)
    then have "fst (foldl addAnchor (s, t) (a # as)) =
               fst (foldl addAnchor (s, snd (addAnchor (s, t) a)) as)"
      by simp
    with None show ?thesis by (simp only: Cons.IH) simp
  next
    case (Some d)
    then have "addAnchor (s, t) a =
               (AList.update (a_id a) (anchorHoliday a (a_sourceDate a)) s, snd (addAnchor (s, t) a))"
      by (simp add: addAnchor_def anchorHoliday_def)
    then have "fst (foldl addAnchor (s, t) (a # as)) =
               fst (foldl addAnchor
                      (AList.update (a_id a) (anchorHoliday a (a_sourceDate a)) s,
                       snd (addAnchor (s, t) a)) as)"
      by simp
    with Some show ?thesis by (simp only: Cons.IH) simp
  qed
qed

lemma sourceEntry_last:
  "sourceEntry s0 cs k =
     (if filter (\<lambda>a. a_id a = k) cs = [] then the (map_of s0 k)
      else anchorHoliday (last (filter (\<lambda>a. a_id a = k) cs))
             (a_sourceDate (last (filter (\<lambda>a. a_id a = k) cs))))"
  unfolding sourceEntry_def by (cases "filter (\<lambda>a. a_id a = k) cs") simp_all

lemma sourceEntry_snoc:
  "sourceEntry s0 (cs @ [c]) k =
     (if k = a_id c then anchorHoliday c (a_sourceDate c) else sourceEntry s0 cs k)"
  unfolding sourceEntry_last by simp

lemma source_fold_spec:
  assumes "distinct (map fst s0)"
  shows "foldl (\<lambda>s a. AList.update (a_id a) (anchorHoliday a (a_sourceDate a)) s) s0 cs =
         map (\<lambda>k. (k, sourceEntry s0 cs k)) (firstOcc (map fst s0 @ map a_id cs))"
proof (induction cs rule: rev_induct)
  case Nil
  have "map (\<lambda>k. (k, sourceEntry s0 [] k)) (map fst s0) = s0"
    using mapped_by_lookup [OF assms] by (simp add: sourceEntry_def)
  then show ?case
    by (simp add: firstOcc_distinct [OF assms])
next
  case (snoc c cs)
  define ks where "ks = firstOcc (map fst s0 @ map a_id cs)"
  have d: "distinct ks" unfolding ks_def by (rule distinct_firstOcc)
  have keys: "firstOcc (map fst s0 @ map a_id (cs @ [c])) =
              (if a_id c \<in> set ks then ks else ks @ [a_id c])"
    unfolding ks_def using firstOcc_snoc [of "map fst s0 @ map a_id cs" "a_id c"] by simp
  have step: "foldl (\<lambda>s a. AList.update (a_id a) (anchorHoliday a (a_sourceDate a)) s) s0 (cs @ [c]) =
              AList.update (a_id c) (anchorHoliday c (a_sourceDate c))
                (map (\<lambda>k. (k, sourceEntry s0 cs k)) ks)"
    by (simp add: snoc.IH ks_def)
  show ?case
  proof (cases "a_id c \<in> set ks")
    case True
    show ?thesis
      unfolding step keys update_mapped [OF d True]
      using True by (simp add: sourceEntry_snoc)
  next
    case False
    have "map (\<lambda>k. (k, sourceEntry s0 (cs @ [c]) k)) ks = map (\<lambda>k. (k, sourceEntry s0 cs k)) ks"
      using False by (auto simp: sourceEntry_snoc)
    then show ?thesis
      unfolding step keys update_new_key [OF False]
      using False by (simp add: sourceEntry_snoc)
  qed
qed

lemma addAnchors_source:
  assumes "distinct (map fst sourceHolidays)"
  shows "fst (addAnchors sourceHolidays targetHolidays anchors) =
         sourceAnchorSet sourceHolidays anchors"
proof -
  have "filter (\<lambda>a. a_sourceDate a \<noteq> None) (filter a_enabled anchors) = sourceAnchors anchors"
    by (simp add: sourceAnchors_def conj_commute)
  then show ?thesis
    unfolding addAnchors_def addAnchors_source_fold sourceAnchorSet_def
    by (simp add: source_fold_spec [OF assms])
qed

text \<open>
  The relationship that \<open>getWeekHolidayRelationship\<close> finds for a valid week start is
  the one to the nearest anchor, the first of several nearest.
\<close>

lemma diffWeeksOf_weeksFromAnchor:
  "diffWeeksOf (Date t) hol wsd = Some (weeksFromAnchor wsd t (h_date hol))"
  by (simp add: diffWeeksOf_def weeksFromAnchor_def getWeekContainingDate_def Let_def)

lemma nearestLoop_Cons:
  "nearestLoop ws wsd (kh # rest) (nh, md, wa) =
     nearestLoop ws wsd rest
       (case diffWeeksOf ws (snd kh) wsd of
          None \<Rightarrow> (nh, md, wa)
        | Some dw \<Rightarrow>
            (if (case md of None \<Rightarrow> True | Some m \<Rightarrow> \<bar>dw\<bar> < \<bar>m\<bar>)
             then (Some kh, Some dw, dw) else (nh, md, wa)))"
proof (cases kh)
  case (Pair k hol)
  show ?thesis unfolding Pair by simp
qed

lemma nearestLoop_spec:
  assumes "n \<le> length hs" and "j < n"
    and "\<forall>i<n. \<bar>weeksFromAnchor wsd t (h_date (snd (hs ! j)))\<bar>
                  \<le> \<bar>weeksFromAnchor wsd t (h_date (snd (hs ! i)))\<bar>
                \<and> (i < j \<longrightarrow> \<bar>weeksFromAnchor wsd t (h_date (snd (hs ! j)))\<bar>
                               < \<bar>weeksFromAnchor wsd t (h_date (snd (hs ! i)))\<bar>)"
  shows "\<exists>j'. nearestAt wsd t hs j'
           \<and> nearestLoop (Date t) wsd (drop n hs)
               (Some (hs ! j), Some (weeksFromAnchor wsd t (h_date (snd (hs ! j)))),
                weeksFromAnchor wsd t (h_date (snd (hs ! j)))) =
             (Some (hs ! j'), Some (weeksFromAnchor wsd t (h_date (snd (hs ! j')))),
              weeksFromAnchor wsd t (h_date (snd (hs ! j'))))"
  using assms
proof (induction "length hs - n" arbitrary: n j)
  case 0
  then have n: "n = length hs" by simp
  with "0.prems" have "nearestAt wsd t hs j"
    by (simp add: nearestAt_def list_all_iff)
  then show ?case
    unfolding n by (intro exI [of _ j]) simp
next
  case (Suc k)
  define d where "d = (\<lambda>i. weeksFromAnchor wsd t (h_date (snd (hs ! i))))"
  from Suc.hyps(2) have n: "n < length hs" by simp
  then have dr: "drop n hs = hs ! n # drop (Suc n) hs"
    by (simp add: Cons_nth_drop_Suc)
  have k: "k = length hs - Suc n" using Suc.hyps(2) by simp
  have len: "Suc n \<le> length hs" using n by simp
  have best: "\<forall>i<n. \<bar>d j\<bar> \<le> \<bar>d i\<bar> \<and> (i < j \<longrightarrow> \<bar>d j\<bar> < \<bar>d i\<bar>)"
    unfolding d_def by (rule Suc.prems(3))
  show ?case
  proof (cases "\<bar>d n\<bar> < \<bar>d j\<bar>")
    case True
    have b: "\<forall>i<Suc n. \<bar>d n\<bar> \<le> \<bar>d i\<bar> \<and> (i < n \<longrightarrow> \<bar>d n\<bar> < \<bar>d i\<bar>)"
    proof (intro allI impI)
      fix i assume "i < Suc n"
      show "\<bar>d n\<bar> \<le> \<bar>d i\<bar> \<and> (i < n \<longrightarrow> \<bar>d n\<bar> < \<bar>d i\<bar>)"
      proof (cases "i < n")
        case True
        with best have "\<bar>d j\<bar> \<le> \<bar>d i\<bar>" by simp
        with \<open>\<bar>d n\<bar> < \<bar>d j\<bar>\<close> show ?thesis by simp
      next
        case False
        with \<open>i < Suc n\<close> have "i = n" by simp
        then show ?thesis by simp
      qed
    qed
    have step: "nearestLoop (Date t) wsd (drop n hs) (Some (hs ! j), Some (d j), d j) =
                nearestLoop (Date t) wsd (drop (Suc n) hs) (Some (hs ! n), Some (d n), d n)"
      unfolding dr nearestLoop_Cons using True by (simp add: diffWeeksOf_weeksFromAnchor d_def)
    from Suc.hyps(1) [OF k len _ b [unfolded d_def]]
    show ?thesis unfolding step [unfolded d_def] by simp
  next
    case False
    have b: "\<forall>i<Suc n. \<bar>d j\<bar> \<le> \<bar>d i\<bar> \<and> (i < j \<longrightarrow> \<bar>d j\<bar> < \<bar>d i\<bar>)"
    proof (intro allI impI)
      fix i assume "i < Suc n"
      show "\<bar>d j\<bar> \<le> \<bar>d i\<bar> \<and> (i < j \<longrightarrow> \<bar>d j\<bar> < \<bar>d i\<bar>)"
      proof (cases "i < n")
        case True
        with best show ?thesis by simp
      next
        case False
        with \<open>i < Suc n\<close> have "i = n" by simp
        with \<open>\<not> \<bar>d n\<bar> < \<bar>d j\<bar>\<close> Suc.prems(2) show ?thesis by simp
      qed
    qed
    have step: "nearestLoop (Date t) wsd (drop n hs) (Some (hs ! j), Some (d j), d j) =
                nearestLoop (Date t) wsd (drop (Suc n) hs) (Some (hs ! j), Some (d j), d j)"
      unfolding dr nearestLoop_Cons using False by (simp add: diffWeeksOf_weeksFromAnchor d_def)
    from Suc.prems(2) have "j < Suc n" by simp
    from Suc.hyps(1) [OF k len this b [unfolded d_def]]
    show ?thesis unfolding step [unfolded d_def] by simp
  qed
qed

lemma getWeekHolidayRelationship_nearest:
  assumes "hs \<noteq> []"
  shows "\<exists>j. nearestAt wsd t hs j
          \<and> getWeekHolidayRelationship (Date t) hs wsd =
              Inr \<lparr>r_holiday = hs ! j,
                   r_relationship =
                     relationshipLabel (weeksFromAnchor wsd t (h_date (snd (hs ! j))))
                       (h_name (snd (hs ! j))),
                   r_weeksAway = weeksFromAnchor wsd t (h_date (snd (hs ! j)))\<rparr>"
proof -
  from assms have l: "1 \<le> length hs" by (cases hs) auto
  from assms have dr: "hs = hs ! 0 # drop 1 hs"
    by (cases hs) auto
  have first: "nearestLoop (Date t) wsd hs (None, None, 0) =
               nearestLoop (Date t) wsd (drop 1 hs)
                 (Some (hs ! 0), Some (weeksFromAnchor wsd t (h_date (snd (hs ! 0)))),
                  weeksFromAnchor wsd t (h_date (snd (hs ! 0))))"
    by (subst dr) (simp only: nearestLoop_Cons diffWeeksOf_weeksFromAnchor option.case if_True)
  have "\<forall>i<1. \<bar>weeksFromAnchor wsd t (h_date (snd (hs ! 0)))\<bar>
                  \<le> \<bar>weeksFromAnchor wsd t (h_date (snd (hs ! i)))\<bar>
                \<and> (i < 0 \<longrightarrow> \<bar>weeksFromAnchor wsd t (h_date (snd (hs ! 0)))\<bar>
                               < \<bar>weeksFromAnchor wsd t (h_date (snd (hs ! i)))\<bar>)"
    by simp
  from nearestLoop_spec [OF l _ this] obtain j where j: "nearestAt wsd t hs j"
    and r: "nearestLoop (Date t) wsd (drop 1 hs)
              (Some (hs ! 0), Some (weeksFromAnchor wsd t (h_date (snd (hs ! 0)))),
               weeksFromAnchor wsd t (h_date (snd (hs ! 0)))) =
            (Some (hs ! j), Some (weeksFromAnchor wsd t (h_date (snd (hs ! j)))),
             weeksFromAnchor wsd t (h_date (snd (hs ! j))))"
    by auto
  have "getWeekHolidayRelationship (Date t) hs wsd =
          Inr \<lparr>r_holiday = hs ! j,
               r_relationship =
                 relationshipLabel (weeksFromAnchor wsd t (h_date (snd (hs ! j))))
                   (h_name (snd (hs ! j))),
               r_weeksAway = weeksFromAnchor wsd t (h_date (snd (hs ! j)))\<rparr>"
    unfolding getWeekHolidayRelationship_def first r by simp
  with j show ?thesis by blast
qed

text \<open>
  The whole mapper on source weeks with valid start dates: both holiday sets are
  computed, and the result is the list of what the loop body pushes, week by week.
\<close>

lemma mapWeeksByHolidays_result:
  assumes "list_all validStart sourceWeeks"
  shows "\<exists>sh th. getHolidaysForYear sourceYear = Some sh
           \<and> getHolidaysForYear targetYear = Some th
           \<and> map fst sh = holidayKeys
           \<and> map fst th = holidayKeys
           \<and> fst (addAnchors sh th anchors) \<noteq> []
           \<and> mapWeeksByHolidays sourceWeeks sourceYear targetYear anchors weekStartDay =
               Inr (map (\<lambda>w. projr (mapWeek (fst (addAnchors sh th anchors))
                                       (snd (addAnchors sh th anchors)) weekStartDay w))
                      sourceWeeks)"
proof -
  obtain sh where sh: "getHolidaysForYear sourceYear = Some sh" "map fst sh = holidayKeys"
    using getHolidaysForYear_returns by blast
  obtain th where th: "getHolidaysForYear targetYear = Some th" "map fst th = holidayKeys"
    using getHolidaysForYear_returns by blast
  define allS where "allS = fst (addAnchors sh th anchors)"
  define allT where "allT = snd (addAnchors sh th anchors)"
  from sh(2) have "sh \<noteq> []" by (auto simp: holidayKeys_def)
  then have ne: "allS \<noteq> []"
    unfolding allS_def by (rule addAnchors_source_nonempty)
  have "\<forall>w\<in>set sourceWeeks. \<exists>m. mapWeek allS allT weekStartDay w = Inr m"
  proof
    fix w assume "w \<in> set sourceWeeks"
    with assms have "validStart w" by (simp add: list_all_iff)
    then obtain t where t: "sourceStartOf w = Inr (Date t)"
      by (auto simp: validStart_def split: sum.splits jsdate.splits)
    obtain rel where "getWeekHolidayRelationship (Date t) allS weekStartDay = Inr rel"
      using getWeekHolidayRelationship_returns [OF ne] by blast
    from mapWeek_valid(1) [OF t this]
    show "\<exists>m. mapWeek allS allT weekStartDay w = Inr m" ..
  qed
  then have "mapWeeksLoop allS allT weekStartDay sourceWeeks [] =
             Inr ([] @ map (\<lambda>w. projr (mapWeek allS allT weekStartDay w)) sourceWeeks)"
    by (rule mapWeeksLoop_valid) simp
  then have "mapWeeksByHolidays sourceWeeks sourceYear targetYear anchors weekStartDay =
             Inr (map (\<lambda>w. projr (mapWeek allS allT weekStartDay w)) sourceWeeks)"
    by (simp add: mapWeeksByHolidays_def sh(1) th(1) allS_def allT_def case_prod_beta)
  with sh th ne show ?thesis
    unfolding allS_def allT_def by blast
qed

text \<open>
  On a source week whose start date does not resolve to a valid date the loop body
  throws: \<open>undefined.split\<close> for a string start without \<open>weekKey\<close> and \<open>key\<close>, and
  \<open>nearestHoliday.name\<close> when the start is an invalid date, to which no anchor is near.
\<close>

lemma mapWeek_throws:
  assumes "\<not> validStart w"
  shows "mapWeek allSource allTarget wsd w = Inl TypeError"
proof (cases "sourceStartOf w")
  case (Inl e)
  then have "e = TypeError" by (cases e) (auto simp: sourceStartOf_def split: start_value.splits option.splits if_splits prod.splits)
  with Inl show ?thesis by (simp add: mapWeek_def)
next
  case (Inr d)
  with assms have "d = InvalidDate"
    by (cases d) (simp_all add: validStart_def)
  with Inr show ?thesis
    by (simp add: mapWeek_def getWeekHolidayRelationship_invalid)
qed

lemma mapWeek_returns:
  assumes "validStart w" and "allSource \<noteq> []"
  shows "\<exists>m. mapWeek allSource allTarget wsd w = Inr m"
proof -
  from assms(1) obtain t where t: "sourceStartOf w = Inr (Date t)"
    by (auto simp: validStart_def split: sum.splits jsdate.splits)
  obtain rel where "getWeekHolidayRelationship (Date t) allSource wsd = Inr rel"
    using getWeekHolidayRelationship_returns [OF assms(2)] by blast
  from mapWeek_valid(1) [OF t this] show ?thesis ..
qed

lemma mapWeeksLoop_throws:
  assumes "allSource \<noteq> []" and "\<not> list_all validStart ws"
  shows "mapWeeksLoop allSource allTarget wsd ws acc = Inl TypeError"
  using assms(2)
proof (induction ws arbitrary: acc)
  case Nil
  then show ?case by simp
next
  case (Cons w ws)
  show ?case
  proof (cases "validStart w")
    case True
    with Cons.prems have "\<not> list_all validStart ws" by simp
    note ih = Cons.IH [OF this]
    from mapWeek_returns [OF True assms(1)] obtain m where
      "mapWeek allSource allTarget wsd w = Inr m" by blast
    then show ?thesis by (simp add: ih)
  next
    case False
    then show ?thesis by (simp add: mapWeek_throws)
  qed
qed

lemma mapWeeksByHolidays_throws:
  assumes "\<not> list_all validStart sourceWeeks"
  shows "mapWeeksByHolidays sourceWeeks sourceYear targetYear anchors weekStartDay = Inl TypeError"
proof -
  obtain sh where sh: "getHolidaysForYear sourceYear = Some sh" "map fst sh = holidayKeys"
    using getHolidaysForYear_returns by blast
  obtain th where th: "getHolidaysForYear targetYear = Some th" "map fst th = holidayKeys"
    using getHolidaysForYear_returns by blast
  from sh(2) have "sh \<noteq> []" by (auto simp: holidayKeys_def)
  then have ne: "fst (addAnchors sh th anchors) \<noteq> []"
    by (rule addAnchors_source_nonempty)
  show ?thesis
    unfolding mapWeeksByHolidays_def
    by (simp add: sh(1) th(1) case_prod_beta mapWeeksLoop_throws [OF ne assms])
qed

text \<open>The records whose start date resolves, read off the code of lines 80 to 84.\<close>

lemma validStart_records:
  "validStart w =
     (case sw_start w of
        StartString s \<Rightarrow>
          (case (case sw_weekKey w of
                   Some k \<Rightarrow> (if k \<noteq> [] then Some k else sw_key w)
                 | None \<Rightarrow> sw_key w) of
             None \<Rightarrow> False
           | Some k \<Rightarrow> parseWeekKey k \<noteq> InvalidDate)
      | StartObject y m d \<Rightarrow>
          (case sw_startDate w of
             (y', m', d') \<Rightarrow>
               (y \<noteq> None \<or> y' \<noteq> None) \<and> (m \<noteq> None \<or> m' \<noteq> None) \<and> (d \<noteq> None \<or> d' \<noteq> None)))"
  by (auto simp: validStart_def sourceStartOf_def new_Date_opt_def nullish_def
      split: start_value.splits option.splits prod.splits jsdate.splits)

text \<open>
  C5. The mapper is not total. It returns exactly for the lists of source weeks whose
  start dates all resolve to valid dates: then the result has exactly one mapping per
  input week, in the order of the input (the \<open>source\<close> fields of the result are the
  input weeks), and every successful mapping carries its week's price unchanged as
  \<open>proposedPrice\<close>. For every other list it throws a \<open>TypeError\<close>. The empty list of
  weeks yields the empty list of mappings.
\<close>

theorem mapWeeksByHolidays_order_preserving:
  "(list_all validStart sourceWeeks \<longrightarrow>
      (\<exists>mappings.
         mapWeeksByHolidays sourceWeeks sourceYear targetYear anchors weekStartDay = Inr mappings
         \<and> length mappings = length sourceWeeks
         \<and> map source mappings = map Some sourceWeeks
         \<and> list_all (\<lambda>m. target m \<noteq> None \<longrightarrow>
                            proposedPrice m = map_option sw_price (source m)) mappings))
   \<and> (\<not> list_all validStart sourceWeeks \<longrightarrow>
        mapWeeksByHolidays sourceWeeks sourceYear targetYear anchors weekStartDay = Inl TypeError)
   \<and> mapWeeksByHolidays [] sourceYear targetYear anchors weekStartDay = Inr []"
proof (intro conjI impI)
  assume assms: "list_all validStart sourceWeeks"
  obtain sh th where r:
    "fst (addAnchors sh th anchors) \<noteq> []"
    "mapWeeksByHolidays sourceWeeks sourceYear targetYear anchors weekStartDay =
       Inr (map (\<lambda>w. projr (mapWeek (fst (addAnchors sh th anchors))
                               (snd (addAnchors sh th anchors)) weekStartDay w)) sourceWeeks)"
    using mapWeeksByHolidays_result [OF assms] by blast
  define f where "f = (\<lambda>w. projr (mapWeek (fst (addAnchors sh th anchors))
                               (snd (addAnchors sh th anchors)) weekStartDay w))"
  have each: "source (f w) = Some w \<and>
              (target (f w) \<noteq> None \<longrightarrow> proposedPrice (f w) = Some (sw_price w))"
    if "w \<in> set sourceWeeks" for w
  proof -
    from that assms have "validStart w" by (simp add: list_all_iff)
    then obtain t where t: "sourceStartOf w = Inr (Date t)"
      by (auto simp: validStart_def split: sum.splits jsdate.splits)
    obtain rel where rel:
      "getWeekHolidayRelationship (Date t) (fst (addAnchors sh th anchors)) weekStartDay = Inr rel"
      using getWeekHolidayRelationship_returns [OF r(1)] by blast
    show ?thesis
      unfolding f_def
      by (simp add: mapWeek_valid(2) [OF t rel] mapWeek_valid(13) [OF t rel])
  qed
  have "map source (map f sourceWeeks) = map Some sourceWeeks"
    using each by (induction sourceWeeks) auto
  moreover have "list_all (\<lambda>m. target m \<noteq> None \<longrightarrow>
                   proposedPrice m = map_option sw_price (source m)) (map f sourceWeeks)"
    using each by (auto simp: list_all_iff)
  ultimately show "\<exists>mappings.
         mapWeeksByHolidays sourceWeeks sourceYear targetYear anchors weekStartDay = Inr mappings
         \<and> length mappings = length sourceWeeks
         \<and> map source mappings = map Some sourceWeeks
         \<and> list_all (\<lambda>m. target m \<noteq> None \<longrightarrow>
                            proposedPrice m = map_option sw_price (source m)) mappings"
    unfolding r(2) f_def [symmetric] by simp
next
  assume "\<not> list_all validStart sourceWeeks"
  then show "mapWeeksByHolidays sourceWeeks sourceYear targetYear anchors weekStartDay = Inl TypeError"
    by (rule mapWeeksByHolidays_throws)
next
  show "mapWeeksByHolidays [] sourceYear targetYear anchors weekStartDay = Inr []"
    using mapWeeksByHolidays_result [of "[]" sourceYear targetYear anchors weekStartDay]
    by auto
qed

lemma validStart_laborDayWeek2026: "validStart laborDayWeek2026"
  by (simp add: validStart_def sourceStartOf_def laborDayWeek2026_def new_Date_opt_def nullish_def)

lemma validStart_aprilWeek2026: "validStart aprilWeek2026"
  by (simp add: validStart_def sourceStartOf_def aprilWeek2026_def parseWeekKey_def
      js_Number_def is_white_def is_digit_of_def digit_value_def Let_def)

lemma invalidStart_dateStartWeek2026: "\<not> validStart dateStartWeek2026"
  by (simp add: validStart_records dateStartWeek2026_def)

lemma invalidStart_isoStartWeek2026: "\<not> validStart isoStartWeek2026"
  by (simp add: validStart_records isoStartWeek2026_def)

theorem mapWeeksByHolidays_order_preserving_witness:
  "list_all validStart [laborDayWeek2026, aprilWeek2026]
   \<and> (\<exists>mappings.
         mapWeeksByHolidays [laborDayWeek2026, aprilWeek2026] 2026 2027 [aprilBreakAnchor] 6
           = Inr mappings
         \<and> length mappings = length [laborDayWeek2026, aprilWeek2026]
         \<and> map source mappings = map Some [laborDayWeek2026, aprilWeek2026]
         \<and> list_all (\<lambda>m. target m \<noteq> None \<longrightarrow>
                            proposedPrice m = map_option sw_price (source m)) mappings)
   \<and> \<not> list_all validStart [laborDayWeek2026, dateStartWeek2026]
   \<and> mapWeeksByHolidays [laborDayWeek2026, dateStartWeek2026] 2026 2027 [aprilBreakAnchor] 6
       = Inl TypeError
   \<and> mapWeeksByHolidays [] 2026 2027 [aprilBreakAnchor] 6 = Inr []"
proof -
  have v: "list_all validStart [laborDayWeek2026, aprilWeek2026]"
    by (simp add: validStart_laborDayWeek2026 validStart_aprilWeek2026)
  have n: "\<not> list_all validStart [laborDayWeek2026, dateStartWeek2026]"
    by (simp add: invalidStart_dateStartWeek2026)
  note t = mapWeeksByHolidays_order_preserving
             [of "[laborDayWeek2026, aprilWeek2026]" 2026 2027 "[aprilBreakAnchor]" 6]
  note u = mapWeeksByHolidays_order_preserving
             [of "[laborDayWeek2026, dateStartWeek2026]" 2026 2027 "[aprilBreakAnchor]" 6]
  note a = t [THEN conjunct1, THEN mp, OF v]
  note b = u [THEN conjunct2, THEN conjunct1, THEN mp, OF n]
  note c = t [THEN conjunct2, THEN conjunct2]
  from v a n b c show ?thesis by (intro conjI)
qed

text \<open>
  The claim of totality fails: a source week given as a week with a \<open>Date\<close> start and a
  key, together with its price, makes the mapper throw.
\<close>

theorem mapWeeksByHolidays_throws_on_date_start:
  "mapWeeksByHolidays [dateStartWeek2026] 2026 2027 [] 6 = Inl TypeError"
  by code_simp

lemma targetAnchorKeys_lookup:
  assumes "map fst th = holidayKeys"
  shows "(map_of (snd (addAnchors sh th anchors)) k = None) = (k \<notin> set (targetAnchorKeys anchors))"
proof -
  have "(map_of th k = None) = (k \<notin> set holidayKeys)"
    unfolding assms [symmetric] by (simp add: map_of_eq_None_iff)
  then show ?thesis
    unfolding addAnchors_target_keys targetAnchorKeys_def
    by (auto simp: list_ex_iff)
qed

text \<open>
  The two example weeks mapped from 2026 to 2027: the Labor Day week maps to the week
  of 4 September 2027, and the week anchored to the custom anchor without a target
  date becomes an error mapping.
\<close>

lemma mapWeeksByHolidays_example:
  "mapWeeksByHolidays [laborDayWeek2026, aprilWeek2026] 2026 2027 [aprilBreakAnchor] 6 =
   Inr [\<lparr>source = Some laborDayWeek2026,
         sourceStart = Some (Date 20701),
         sourceRange = Some ''Sep 5 - Sep 12'',
         target = Some \<lparr>w_start = Date 21065, w_end = Date 21072, w_key = ''2027-09-04''\<rparr>,
         targetRange = Some ''Sep 4 - Sep 11'',
         relationship = Some ''Labor Day week'',
         holidayKey = Some ''laborDay'',
         weeksAway = Some 0,
         proposedPrice = Some (Str ''$3,500''),
         error = None,
         isGapFill = False\<rparr>,
        \<lparr>source = Some aprilWeek2026,
         sourceStart = Some (Date 20561),
         sourceRange = None,
         target = None,
         targetRange = None,
         relationship = Some ''April School Break week'',
         holidayKey = Some ''custom_1'',
         weeksAway = Some 0,
         proposedPrice = None,
         error = Some ''No matching anchor in target year'',
         isGapFill = False\<rparr>]"
  by code_simp

text \<open>
  C4. For a list of source weeks whose start dates all resolve to valid dates the call
  returns one mapping per week, and the mapping at any position is anchored to the
  nearest anchor of the source-year anchor set (the holidays and the enabled anchors
  with a source date; of several nearest the first): its \<open>holidayKey\<close> is that anchor's
  key and its \<open>weeksAway\<close> the number of weeks from it. The mapping has \<open>target = null\<close>
  and \<open>error = "No matching anchor in target year"\<close> exactly when that key is not a key
  of the target-year anchor set (the holidays and the enabled anchors with a target
  date); otherwise it has a target and no error. For a list with a source week whose
  start date does not resolve, the call throws a \<open>TypeError\<close>.
\<close>

theorem mapWeeksByHolidays_unresolvable_anchor:
  "(list_all validStart sourceWeeks \<and> i < length sourceWeeks \<longrightarrow>
      (\<exists>mappings sh t j.
         mapWeeksByHolidays sourceWeeks sourceYear targetYear anchors weekStartDay = Inr mappings
         \<and> length mappings = length sourceWeeks
         \<and> source (mappings ! i) = Some (sourceWeeks ! i)
         \<and> getHolidaysForYear sourceYear = Some sh
         \<and> sourceStartOf (sourceWeeks ! i) = Inr (Date t)
         \<and> nearestAt weekStartDay t (sourceAnchorSet sh anchors) j
         \<and> holidayKey (mappings ! i) = Some (fst (sourceAnchorSet sh anchors ! j))
         \<and> weeksAway (mappings ! i) =
             Some (weeksFromAnchor weekStartDay t (h_date (snd (sourceAnchorSet sh anchors ! j))))
         \<and> (if fst (sourceAnchorSet sh anchors ! j) \<in> set (targetAnchorKeys anchors)
              then target (mappings ! i) \<noteq> None \<and> error (mappings ! i) = None
              else target (mappings ! i) = None
                   \<and> error (mappings ! i) = Some ''No matching anchor in target year'')))
   \<and> (\<not> list_all validStart sourceWeeks \<longrightarrow>
        mapWeeksByHolidays sourceWeeks sourceYear targetYear anchors weekStartDay = Inl TypeError)"
proof (intro conjI impI)
  assume "list_all validStart sourceWeeks \<and> i < length sourceWeeks"
  then have assms: "list_all validStart sourceWeeks" "i < length sourceWeeks"
    by simp_all
  obtain sh th where r:
    "getHolidaysForYear sourceYear = Some sh"
    "map fst sh = holidayKeys"
    "map fst th = holidayKeys"
    "fst (addAnchors sh th anchors) \<noteq> []"
    "mapWeeksByHolidays sourceWeeks sourceYear targetYear anchors weekStartDay =
       Inr (map (\<lambda>w. projr (mapWeek (fst (addAnchors sh th anchors))
                               (snd (addAnchors sh th anchors)) weekStartDay w)) sourceWeeks)"
    using mapWeeksByHolidays_result [OF assms(1)] by blast
  from r(2) have "distinct (map fst sh)" by (simp add: holidayKeys_def)
  then have src: "fst (addAnchors sh th anchors) = sourceAnchorSet sh anchors"
    by (rule addAnchors_source)
  define w where "w = sourceWeeks ! i"
  define m where "m = projr (mapWeek (fst (addAnchors sh th anchors))
                               (snd (addAnchors sh th anchors)) weekStartDay w)"
  from assms have "validStart w"
    unfolding w_def by (simp add: list_all_length)
  then obtain t where t: "sourceStartOf w = Inr (Date t)"
    by (auto simp: validStart_def split: sum.splits jsdate.splits)
  define S where "S = sourceAnchorSet sh anchors"
  from r(4) have "S \<noteq> []" by (simp add: src S_def)
  from getWeekHolidayRelationship_nearest [OF this, of weekStartDay t]
  obtain j where j: "nearestAt weekStartDay t S j"
    and rel: "getWeekHolidayRelationship (Date t) (fst (addAnchors sh th anchors)) weekStartDay =
              Inr \<lparr>r_holiday = S ! j,
                   r_relationship =
                     relationshipLabel (weeksFromAnchor weekStartDay t (h_date (snd (S ! j))))
                       (h_name (snd (S ! j))),
                   r_weeksAway = weeksFromAnchor weekStartDay t (h_date (snd (S ! j)))\<rparr>"
    unfolding src S_def by blast
  note f = mapWeek_valid [OF t rel, of "snd (addAnchors sh th anchors)", folded m_def]
  have key: "holidayKey m = Some (fst (S ! j))"
    using f(5) by simp
  have away: "weeksAway m = Some (weeksFromAnchor weekStartDay t (h_date (snd (S ! j))))"
    using f(6) by simp
  have look: "(target m = None) = (fst (S ! j) \<notin> set (targetAnchorKeys anchors))"
    unfolding f(8) using targetAnchorKeys_lookup [OF r(3), of sh anchors "fst (S ! j)"] by simp
  have branch: "if fst (S ! j) \<in> set (targetAnchorKeys anchors)
        then target m \<noteq> None \<and> error m = None
        else target m = None \<and> error m = Some ''No matching anchor in target year''"
    using look f(9) f(10) by auto
  have at: "map (\<lambda>w. projr (mapWeek (fst (addAnchors sh th anchors))
                   (snd (addAnchors sh th anchors)) weekStartDay w)) sourceWeeks ! i = m"
    using assms(2) unfolding m_def w_def by simp
  have len: "length (map (\<lambda>w. projr (mapWeek (fst (addAnchors sh th anchors))
                   (snd (addAnchors sh th anchors)) weekStartDay w)) sourceWeeks) = length sourceWeeks"
    by simp
  show "\<exists>mappings sh t j.
         mapWeeksByHolidays sourceWeeks sourceYear targetYear anchors weekStartDay = Inr mappings
         \<and> length mappings = length sourceWeeks
         \<and> source (mappings ! i) = Some (sourceWeeks ! i)
         \<and> getHolidaysForYear sourceYear = Some sh
         \<and> sourceStartOf (sourceWeeks ! i) = Inr (Date t)
         \<and> nearestAt weekStartDay t (sourceAnchorSet sh anchors) j
         \<and> holidayKey (mappings ! i) = Some (fst (sourceAnchorSet sh anchors ! j))
         \<and> weeksAway (mappings ! i) =
             Some (weeksFromAnchor weekStartDay t (h_date (snd (sourceAnchorSet sh anchors ! j))))
         \<and> (if fst (sourceAnchorSet sh anchors ! j) \<in> set (targetAnchorKeys anchors)
              then target (mappings ! i) \<noteq> None \<and> error (mappings ! i) = None
              else target (mappings ! i) = None
                   \<and> error (mappings ! i) = Some ''No matching anchor in target year'')"
    unfolding r(5)
    apply (intro exI conjI)
            apply (rule refl)
           apply (rule len)
          apply (simp only: at f(2) w_def)
         apply (rule r(1))
        apply (rule t [unfolded w_def])
       apply (rule j [unfolded S_def])
      apply (simp only: at key S_def)
     apply (simp only: at away S_def)
    apply (simp only: at)
    apply (rule branch [unfolded S_def])
    done
next
  assume "\<not> list_all validStart sourceWeeks"
  then show "mapWeeksByHolidays sourceWeeks sourceYear targetYear anchors weekStartDay = Inl TypeError"
    by (rule mapWeeksByHolidays_throws)
qed

theorem mapWeeksByHolidays_unresolvable_anchor_witness:
  "list_all validStart [laborDayWeek2026, aprilWeek2026]
   \<and> 1 < length [laborDayWeek2026, aprilWeek2026]
   \<and> (\<exists>mappings sh t j.
         mapWeeksByHolidays [laborDayWeek2026, aprilWeek2026] 2026 2027 [aprilBreakAnchor] 6
           = Inr mappings
         \<and> getHolidaysForYear 2026 = Some sh
         \<and> sourceStartOf aprilWeek2026 = Inr (Date t)
         \<and> nearestAt 6 t (sourceAnchorSet sh [aprilBreakAnchor]) j
         \<and> fst (sourceAnchorSet sh [aprilBreakAnchor] ! j) = ''custom_1''
         \<and> ''custom_1'' \<notin> set (targetAnchorKeys [aprilBreakAnchor])
         \<and> holidayKey (mappings ! 1) = Some ''custom_1''
         \<and> weeksAway (mappings ! 1) = Some 0
         \<and> target (mappings ! 1) = None
         \<and> error (mappings ! 1) = Some ''No matching anchor in target year'')
   \<and> 0 < length [laborDayWeek2026, aprilWeek2026]
   \<and> (\<exists>mappings sh t j.
         mapWeeksByHolidays [laborDayWeek2026, aprilWeek2026] 2026 2027 [aprilBreakAnchor] 6
           = Inr mappings
         \<and> getHolidaysForYear 2026 = Some sh
         \<and> sourceStartOf laborDayWeek2026 = Inr (Date t)
         \<and> nearestAt 6 t (sourceAnchorSet sh [aprilBreakAnchor]) j
         \<and> fst (sourceAnchorSet sh [aprilBreakAnchor] ! j) = ''laborDay''
         \<and> ''laborDay'' \<in> set (targetAnchorKeys [aprilBreakAnchor])
         \<and> holidayKey (mappings ! 0) = Some ''laborDay''
         \<and> target (mappings ! 0) \<noteq> None
         \<and> error (mappings ! 0) = None)
   \<and> \<not> list_all validStart [isoStartWeek2026]
   \<and> mapWeeksByHolidays [isoStartWeek2026] 2026 2027 [aprilBreakAnchor] 6 = Inl TypeError"
proof -
  let ?ws = "[laborDayWeek2026, aprilWeek2026]"
  have v: "list_all validStart ?ws"
    by (simp add: validStart_laborDayWeek2026 validStart_aprilWeek2026)
  have l1: "1 < length ?ws" and l0: "0 < length ?ws"
    by simp_all
  have n: "\<not> list_all validStart [isoStartWeek2026]"
    by (simp add: invalidStart_isoStartWeek2026)
  have k1: "''custom_1'' \<notin> set (targetAnchorKeys [aprilBreakAnchor])"
    by (simp add: targetAnchorKeys_def holidayKeys_def aprilBreakAnchor_def)
  have k0: "''laborDay'' \<in> set (targetAnchorKeys [aprilBreakAnchor])"
    by (simp add: targetAnchorKeys_def holidayKeys_def)
  note ex = mapWeeksByHolidays_example
  note t1 = mapWeeksByHolidays_unresolvable_anchor [of ?ws 1 2026 2027 "[aprilBreakAnchor]" 6]
  note t0 = mapWeeksByHolidays_unresolvable_anchor [of ?ws 0 2026 2027 "[aprilBreakAnchor]" 6]
  note tn = mapWeeksByHolidays_unresolvable_anchor
              [of "[isoStartWeek2026]" 0 2026 2027 "[aprilBreakAnchor]" 6]
  have throws: "mapWeeksByHolidays [isoStartWeek2026] 2026 2027 [aprilBreakAnchor] 6 = Inl TypeError"
    using tn [THEN conjunct2, THEN mp, OF n] .
  from t1 [THEN conjunct1, THEN mp, OF conjI [OF v l1]]
  obtain ms1 sh1 d1 j1 where a1:
    "mapWeeksByHolidays ?ws 2026 2027 [aprilBreakAnchor] 6 = Inr ms1"
    "getHolidaysForYear 2026 = Some sh1"
    "sourceStartOf (?ws ! 1) = Inr (Date d1)"
    "nearestAt 6 d1 (sourceAnchorSet sh1 [aprilBreakAnchor]) j1"
    "holidayKey (ms1 ! 1) = Some (fst (sourceAnchorSet sh1 [aprilBreakAnchor] ! j1))"
    "if fst (sourceAnchorSet sh1 [aprilBreakAnchor] ! j1) \<in> set (targetAnchorKeys [aprilBreakAnchor])
     then target (ms1 ! 1) \<noteq> None \<and> error (ms1 ! 1) = None
     else target (ms1 ! 1) = None
          \<and> error (ms1 ! 1) = Some ''No matching anchor in target year''"
    by (elim exE conjE) (rule that; assumption)
  from a1(1) have h1: "holidayKey (ms1 ! 1) = Some ''custom_1''"
    and w1: "weeksAway (ms1 ! 1) = Some 0"
    unfolding ex by auto
  with a1(5) have f1: "fst (sourceAnchorSet sh1 [aprilBreakAnchor] ! j1) = ''custom_1''"
    by simp
  from a1(6) k1 have e1: "target (ms1 ! 1) = None"
      "error (ms1 ! 1) = Some ''No matching anchor in target year''"
    unfolding f1 by simp_all
  from a1(3) have s1: "sourceStartOf aprilWeek2026 = Inr (Date d1)" by simp
  have first: "\<exists>mappings sh t j.
         mapWeeksByHolidays ?ws 2026 2027 [aprilBreakAnchor] 6 = Inr mappings
         \<and> getHolidaysForYear 2026 = Some sh
         \<and> sourceStartOf aprilWeek2026 = Inr (Date t)
         \<and> nearestAt 6 t (sourceAnchorSet sh [aprilBreakAnchor]) j
         \<and> fst (sourceAnchorSet sh [aprilBreakAnchor] ! j) = ''custom_1''
         \<and> ''custom_1'' \<notin> set (targetAnchorKeys [aprilBreakAnchor])
         \<and> holidayKey (mappings ! 1) = Some ''custom_1''
         \<and> weeksAway (mappings ! 1) = Some 0
         \<and> target (mappings ! 1) = None
         \<and> error (mappings ! 1) = Some ''No matching anchor in target year''"
    using a1(1) a1(2) s1 a1(4) f1 k1 h1 w1 e1
    by (intro exI [of _ ms1] exI [of _ sh1] exI [of _ d1] exI [of _ j1] conjI)
  from t0 [THEN conjunct1, THEN mp, OF conjI [OF v l0]]
  obtain ms0 sh0 d0 j0 where a0:
    "mapWeeksByHolidays ?ws 2026 2027 [aprilBreakAnchor] 6 = Inr ms0"
    "getHolidaysForYear 2026 = Some sh0"
    "sourceStartOf (?ws ! 0) = Inr (Date d0)"
    "nearestAt 6 d0 (sourceAnchorSet sh0 [aprilBreakAnchor]) j0"
    "holidayKey (ms0 ! 0) = Some (fst (sourceAnchorSet sh0 [aprilBreakAnchor] ! j0))"
    "if fst (sourceAnchorSet sh0 [aprilBreakAnchor] ! j0) \<in> set (targetAnchorKeys [aprilBreakAnchor])
     then target (ms0 ! 0) \<noteq> None \<and> error (ms0 ! 0) = None
     else target (ms0 ! 0) = None
          \<and> error (ms0 ! 0) = Some ''No matching anchor in target year''"
    by (elim exE conjE) (rule that; assumption)
  from a0(1) have h0: "holidayKey (ms0 ! 0) = Some ''laborDay''"
    unfolding ex by auto
  with a0(5) have f0: "fst (sourceAnchorSet sh0 [aprilBreakAnchor] ! j0) = ''laborDay''"
    by simp
  from a0(6) k0 have e0: "target (ms0 ! 0) \<noteq> None" "error (ms0 ! 0) = None"
    unfolding f0 by simp_all
  from a0(3) have s0: "sourceStartOf laborDayWeek2026 = Inr (Date d0)" by simp
  have second: "\<exists>mappings sh t j.
         mapWeeksByHolidays ?ws 2026 2027 [aprilBreakAnchor] 6 = Inr mappings
         \<and> getHolidaysForYear 2026 = Some sh
         \<and> sourceStartOf laborDayWeek2026 = Inr (Date t)
         \<and> nearestAt 6 t (sourceAnchorSet sh [aprilBreakAnchor]) j
         \<and> fst (sourceAnchorSet sh [aprilBreakAnchor] ! j) = ''laborDay''
         \<and> ''laborDay'' \<in> set (targetAnchorKeys [aprilBreakAnchor])
         \<and> holidayKey (mappings ! 0) = Some ''laborDay''
         \<and> target (mappings ! 0) \<noteq> None
         \<and> error (mappings ! 0) = None"
    using a0(1) a0(2) s0 a0(4) f0 k0 h0 e0
    by (intro exI [of _ ms0] exI [of _ sh0] exI [of _ d0] exI [of _ j0] conjI)
  from v l1 first l0 second n throws show ?thesis
    by (intro conjI)
qed

text \<open>
  The claim that no exception is thrown fails: a source week whose start is an ISO
  string, without \<open>weekKey\<close> and \<open>key\<close>, makes the mapper throw.
\<close>

theorem mapWeeksByHolidays_throws_on_string_start:
  "sw_start isoStartWeek2026 = StartString ''2026-04-18T04:00:00.000Z''
   \<and> mapWeeksByHolidays [isoStartWeek2026] 2026 2027 [aprilBreakAnchor] 6 = Inl TypeError"
  by code_simp

text \<open>
  C10. For source weeks with valid start dates, every emitted mapping has \<open>source\<close>,
  \<open>sourceStart\<close>, \<open>relationship\<close>, \<open>holidayKey\<close> and \<open>weeksAway\<close>. An error mapping
  (\<open>target = null\<close>) has the error text and has no \<open>sourceRange\<close>, no \<open>targetRange\<close>
  and no \<open>proposedPrice\<close>; a successful mapping has no error and has \<open>sourceRange\<close>,
  \<open>targetRange\<close> and \<open>proposedPrice\<close>, the latter being the price of its source week.
\<close>

theorem mapWeeksByHolidays_error_mapping_fields:
  assumes "list_all validStart sourceWeeks"
  shows "\<exists>mappings.
           mapWeeksByHolidays sourceWeeks sourceYear targetYear anchors weekStartDay = Inr mappings
           \<and> list_all
               (\<lambda>m. source m \<noteq> None \<and> sourceStart m \<noteq> None \<and> relationship m \<noteq> None
                     \<and> holidayKey m \<noteq> None \<and> weeksAway m \<noteq> None
                     \<and> (if target m = None
                          then error m = Some ''No matching anchor in target year''
                               \<and> sourceRange m = None \<and> targetRange m = None
                               \<and> proposedPrice m = None
                          else error m = None
                               \<and> sourceRange m \<noteq> None \<and> targetRange m \<noteq> None
                               \<and> proposedPrice m = map_option sw_price (source m)))
               mappings"
proof -
  obtain sh th where r:
    "fst (addAnchors sh th anchors) \<noteq> []"
    "mapWeeksByHolidays sourceWeeks sourceYear targetYear anchors weekStartDay =
       Inr (map (\<lambda>w. projr (mapWeek (fst (addAnchors sh th anchors))
                               (snd (addAnchors sh th anchors)) weekStartDay w)) sourceWeeks)"
    using mapWeeksByHolidays_result [OF assms] by blast
  define f where "f = (\<lambda>w. projr (mapWeek (fst (addAnchors sh th anchors))
                               (snd (addAnchors sh th anchors)) weekStartDay w))"
  have each: "source (f w) \<noteq> None \<and> sourceStart (f w) \<noteq> None \<and> relationship (f w) \<noteq> None
              \<and> holidayKey (f w) \<noteq> None \<and> weeksAway (f w) \<noteq> None
              \<and> (if target (f w) = None
                   then error (f w) = Some ''No matching anchor in target year''
                        \<and> sourceRange (f w) = None \<and> targetRange (f w) = None
                        \<and> proposedPrice (f w) = None
                   else error (f w) = None
                        \<and> sourceRange (f w) \<noteq> None \<and> targetRange (f w) \<noteq> None
                        \<and> proposedPrice (f w) = map_option sw_price (source (f w)))"
    if "w \<in> set sourceWeeks" for w
  proof -
    from that assms have "validStart w" by (simp add: list_all_iff)
    then obtain t where t: "sourceStartOf w = Inr (Date t)"
      by (auto simp: validStart_def split: sum.splits jsdate.splits)
    obtain rel where rel:
      "getWeekHolidayRelationship (Date t) (fst (addAnchors sh th anchors)) weekStartDay = Inr rel"
      using getWeekHolidayRelationship_returns [OF r(1)] by blast
    have fw: "f w = projr (mapWeek (fst (addAnchors sh th anchors))
                             (snd (addAnchors sh th anchors)) weekStartDay w)"
      by (simp add: f_def)
    note g = mapWeek_valid [OF t rel, of "snd (addAnchors sh th anchors)", folded fw]
    show ?thesis
      using g(9) g(10) g(11) g(12)
      by (simp add: g(2) g(3) g(4) g(5) g(6) g(13))
  qed
  then have "list_all
               (\<lambda>m. source m \<noteq> None \<and> sourceStart m \<noteq> None \<and> relationship m \<noteq> None
                     \<and> holidayKey m \<noteq> None \<and> weeksAway m \<noteq> None
                     \<and> (if target m = None
                          then error m = Some ''No matching anchor in target year''
                               \<and> sourceRange m = None \<and> targetRange m = None
                               \<and> proposedPrice m = None
                          else error m = None
                               \<and> sourceRange m \<noteq> None \<and> targetRange m \<noteq> None
                               \<and> proposedPrice m = map_option sw_price (source m)))
               (map f sourceWeeks)"
    unfolding list_all_iff by simp
  then show ?thesis
    unfolding r(2) f_def [symmetric] by blast
qed

theorem mapWeeksByHolidays_error_mapping_fields_witness:
  "list_all validStart [laborDayWeek2026, aprilWeek2026]
   \<and> (\<exists>mappings.
         mapWeeksByHolidays [laborDayWeek2026, aprilWeek2026] 2026 2027 [aprilBreakAnchor] 6
           = Inr mappings
         \<and> list_all
             (\<lambda>m. source m \<noteq> None \<and> sourceStart m \<noteq> None \<and> relationship m \<noteq> None
                   \<and> holidayKey m \<noteq> None \<and> weeksAway m \<noteq> None
                   \<and> (if target m = None
                        then error m = Some ''No matching anchor in target year''
                             \<and> sourceRange m = None \<and> targetRange m = None
                             \<and> proposedPrice m = None
                        else error m = None
                             \<and> sourceRange m \<noteq> None \<and> targetRange m \<noteq> None
                             \<and> proposedPrice m = map_option sw_price (source m)))
             mappings)"
proof -
  have v: "list_all validStart [laborDayWeek2026, aprilWeek2026]"
    by (simp add: validStart_laborDayWeek2026 validStart_aprilWeek2026)
  from mapWeeksByHolidays_error_mapping_fields [OF v, of 2026 2027 "[aprilBreakAnchor]" 6] v
  show ?thesis by blast
qed

section \<open>Facts about sorting\<close>

lemma mset_insort_by: "mset (insort_by cmp x ys) = add_mset x (mset ys)"
  by (induction ys) auto

lemma mset_js_sort: "mset (js_sort cmp xs) = mset xs"
  unfolding js_sort_def by (induction xs) (simp_all add: mset_insort_by)

lemma set_js_sort: "set (js_sort cmp xs) = set xs"
  using mset_js_sort [of cmp xs] by (metis set_mset_mset)

lemma byTargetStart_le:
  "validTarget x \<Longrightarrow> validTarget y \<Longrightarrow>
   (case byTargetStart x y of None \<Rightarrow> True | Some v \<Rightarrow> v \<le> 0) = (targetDay x \<le> targetDay y)"
  by (auto simp: validTarget_def byTargetStart_def targetDay_def split: jsdate.splits)

lemma insort_by_targetDay:
  "validTarget x \<Longrightarrow> list_all validTarget ys \<Longrightarrow>
   insort_by byTargetStart x ys = insort_key targetDay x ys"
  by (induction ys) (simp_all add: byTargetStart_le)

text \<open>
  On mappings with valid target dates the JavaScript sort by \<open>target.start\<close> is the
  stable sort by day number.
\<close>

lemma js_sort_targetDay:
  "list_all validTarget xs \<Longrightarrow> js_sort byTargetStart xs = sort_key targetDay xs"
proof (induction xs)
  case Nil
  then show ?case by (simp add: js_sort_def)
next
  case (Cons x xs)
  then have ih: "js_sort byTargetStart xs = sort_key targetDay xs" by simp
  have "list_all validTarget (sort_key targetDay xs)"
    using Cons.prems by (simp add: list_all_iff)
  with Cons.prems have "insort_by byTargetStart x (sort_key targetDay xs) =
                        insort_key targetDay x (sort_key targetDay xs)"
    by (intro insort_by_targetDay) simp_all
  with ih show ?case
    by (simp add: js_sort_def)
qed

section \<open>Facts about applying resolutions\<close>

lemma applyConflict_unresolved: "\<not> c_resolved c \<Longrightarrow> applyConflict st c = st"
  by (cases st) (simp add: applyConflict_def)

lemma foldl_applyConflict_unresolved:
  "list_all (\<lambda>c. \<not> c_resolved c) conflicts \<Longrightarrow> foldl applyConflict st conflicts = st"
  by (induction conflicts arbitrary: st) (simp_all add: applyConflict_unresolved)

text \<open>
  C9. When no conflict is resolved, \<open>applyResolutions\<close> leaves the store as it was (no
  price changes) and returns the input mappings that have a target, sorted by
  \<open>target.start\<close>: the same mappings, none added and none removed, and where the
  target dates are valid, in the stable ascending order of their days.
\<close>

theorem applyResolutions_no_resolved_conflict:
  assumes "list_all (\<lambda>c. \<not> c_resolved c) conflicts"
  shows "applyResolutions h mappings conflicts =
           (h, js_sort byTargetStart (filter (\<lambda>m. target m \<noteq> None) (map h mappings)))
         \<and> mset (snd (applyResolutions h mappings conflicts)) =
             mset (filter (\<lambda>m. target m \<noteq> None) (map h mappings))
         \<and> (list_all validTarget (filter (\<lambda>m. target m \<noteq> None) (map h mappings)) \<longrightarrow>
              snd (applyResolutions h mappings conflicts) =
                sort_key targetDay (filter (\<lambda>m. target m \<noteq> None) (map h mappings))
              \<and> sorted (map targetDay (snd (applyResolutions h mappings conflicts))))"
proof -
  have r: "applyResolutions h mappings conflicts =
           (h, js_sort byTargetStart (filter (\<lambda>m. target m \<noteq> None) (map h mappings)))"
    by (simp add: applyResolutions_def foldl_applyConflict_unresolved [OF assms])
  show ?thesis
    unfolding r by (simp add: mset_js_sort js_sort_targetDay)
qed

lemma exampleStore_validTarget:
  "list_all validTarget (filter (\<lambda>m. target m \<noteq> None) (map exampleStore [1, 0]))"
  by (simp add: exampleStore_def exampleMapping_def validTarget_def targetStartOf_def)

theorem applyResolutions_no_resolved_conflict_witness:
  "list_all (\<lambda>c. \<not> c_resolved c) [exampleCollision False None]
   \<and> applyResolutions exampleStore [1, 0] [exampleCollision False None] =
       (exampleStore,
        js_sort byTargetStart (filter (\<lambda>m. target m \<noteq> None) (map exampleStore [1, 0])))
   \<and> mset (snd (applyResolutions exampleStore [1, 0] [exampleCollision False None])) =
       mset (filter (\<lambda>m. target m \<noteq> None) (map exampleStore [1, 0]))
   \<and> snd (applyResolutions exampleStore [1, 0] [exampleCollision False None]) =
       sort_key targetDay (filter (\<lambda>m. target m \<noteq> None) (map exampleStore [1, 0]))
   \<and> sorted (map targetDay (snd (applyResolutions exampleStore [1, 0] [exampleCollision False None])))"
proof -
  have u: "list_all (\<lambda>c. \<not> c_resolved c) [exampleCollision False None]"
    by (simp add: exampleCollision_def)
  from applyResolutions_no_resolved_conflict [OF u, of exampleStore "[1, 0]"]
       exampleStore_validTarget u
  show ?thesis by blast
qed

text \<open>The frame of one loop step, of the loop, and of the handling of one conflict.\<close>

lemma sameButPrice_refl: "sameButPrice m m"
  by (simp add: sameButPrice_def)

lemma sameButPrice_trans: "sameButPrice a b \<Longrightarrow> sameButPrice b c \<Longrightarrow> sameButPrice a c"
  by (cases a, cases b, cases c) (simp add: sameButPrice_def)

lemma sameButPrice_update: "sameButPrice m (m\<lparr>proposedPrice := p\<rparr>)"
  by (simp add: sameButPrice_def)

lemma collisionStep_frame:
  assumes "i < length rm" and "collisionStep col res i (h, rm, kept) = (h', rm', kept')"
  shows "set rm' \<subseteq> set rm" and "i \<le> length rm'"
    and "\<forall>a. sameButPrice (h a) (h' a)" and "\<forall>a. a \<notin> set rm \<longrightarrow> h' a = h a"
proof -
  have mem: "rm ! i \<in> set rm" using assms(1) by simp
  have sub: "set (take i rm @ drop (Suc i) rm) \<subseteq> set rm"
    by (auto dest: in_set_takeD in_set_dropD)
  have len: "i \<le> length (take i rm @ drop (Suc i) rm)"
    using assms(1) by simp
  from assms(2) sub show "set rm' \<subseteq> set rm"
    by (auto simp: collisionStep_def Let_def split: if_splits)
  from assms(2) len assms(1) show "i \<le> length rm'"
    by (auto simp: collisionStep_def Let_def split: if_splits)
  from assms(2) show "\<forall>a. sameButPrice (h a) (h' a)"
    by (auto simp: collisionStep_def Let_def sameButPrice_refl sameButPrice_update
             split: if_splits)
  from assms(2) mem show "\<forall>a. a \<notin> set rm \<longrightarrow> h' a = h a"
    by (auto simp: collisionStep_def Let_def split: if_splits)
qed

lemma collisionDownLoop_frame:
  assumes "n \<le> length rm" and "collisionDownLoop col res n (h, rm, kept) = (h', rm', kept')"
  shows "set rm' \<subseteq> set rm \<and> (\<forall>a. sameButPrice (h a) (h' a))
         \<and> (\<forall>a. a \<notin> set rm \<longrightarrow> h' a = h a)"
  using assms
proof (induction n arbitrary: h rm kept)
  case 0
  then show ?case by (simp add: sameButPrice_refl)
next
  case (Suc n)
  obtain h1 rm1 kept1 where step: "collisionStep col res n (h, rm, kept) = (h1, rm1, kept1)"
    by (cases "collisionStep col res n (h, rm, kept)") auto
  from Suc.prems(1) have n: "n < length rm" by simp
  note f = collisionStep_frame [OF n step]
  from Suc.prems(2) step have "collisionDownLoop col res n (h1, rm1, kept1) = (h', rm', kept')"
    by simp
  from Suc.IH [OF f(2) this]
  have ih: "set rm' \<subseteq> set rm1" "\<forall>a. sameButPrice (h1 a) (h' a)" "\<forall>a. a \<notin> set rm1 \<longrightarrow> h' a = h1 a"
    by auto
  from f(1) ih(1) have "set rm' \<subseteq> set rm" by blast
  moreover from f(3) ih(2) have "\<forall>a. sameButPrice (h a) (h' a)"
    by (blast intro: sameButPrice_trans)
  moreover have "\<forall>a. a \<notin> set rm \<longrightarrow> h' a = h a"
  proof (intro allI impI)
    fix a assume a: "a \<notin> set rm"
    with f(1) have "a \<notin> set rm1" by blast
    with ih(3) have "h' a = h1 a" by blast
    with f(4) a show "h' a = h a" by simp
  qed
  ultimately show ?case by blast
qed

lemma applyConflict_frame:
  assumes "applyConflict (h, rm, aw) c = (h', rm', aw')"
  shows "set rm' \<subseteq> set rm \<and> (\<forall>a. sameButPrice (h a) (h' a))
         \<and> (\<forall>a. a \<notin> set rm \<longrightarrow> h' a = h a)
         \<and> (\<not> resolvedCollision c \<longrightarrow> h' = h \<and> rm' = rm)"
proof (cases "c_resolved c \<and> c_resolution c \<noteq> None")
  case False
  with assms show ?thesis
    by (auto simp: applyConflict_def sameButPrice_refl split: if_splits option.splits)
next
  case True
  then obtain res where res: "c_resolved c" "c_resolution c = Some res" by auto
  show ?thesis
  proof (cases "c_kind c")
    case (Collision col)
    obtain h1 rm1 kept1 where l:
      "collisionDownLoop col res (length rm) (h, rm, False) = (h1, rm1, kept1)"
      by (cases "collisionDownLoop col res (length rm) (h, rm, False)") auto
    from assms res Collision l have "h' = h1" "rm' = rm1"
      by (simp_all add: applyConflict_def)
    with collisionDownLoop_frame [OF order_refl l] res Collision show ?thesis
      by (simp add: resolvedCollision_def)
  next
    case (Gap g)
    with assms res show ?thesis
      by (simp add: applyConflict_def sameButPrice_refl)
  next
    case (StrategyReversal r)
    with assms res show ?thesis
      by (simp add: applyConflict_def sameButPrice_refl)
  qed
qed

lemma foldl_applyConflict_frame:
  assumes "foldl applyConflict (h, rm, aw) conflicts = (h', rm', aw')"
  shows "set rm' \<subseteq> set rm \<and> (\<forall>a. sameButPrice (h a) (h' a))
         \<and> (\<forall>a. a \<notin> set rm \<longrightarrow> h' a = h a)
         \<and> (list_all (\<lambda>c. \<not> resolvedCollision c) conflicts \<longrightarrow> h' = h \<and> rm' = rm)"
  using assms
proof (induction conflicts arbitrary: h rm aw)
  case Nil
  then show ?case by (simp add: sameButPrice_refl)
next
  case (Cons c conflicts)
  obtain h1 rm1 aw1 where step: "applyConflict (h, rm, aw) c = (h1, rm1, aw1)"
    by (cases "applyConflict (h, rm, aw) c") auto
  note f = applyConflict_frame [OF step]
  from Cons.prems step have "foldl applyConflict (h1, rm1, aw1) conflicts = (h', rm', aw')"
    by simp
  note ih = Cons.IH [OF this]
  from f ih have "set rm' \<subseteq> set rm" by blast
  moreover from f ih have "\<forall>a. sameButPrice (h a) (h' a)"
    by (blast intro: sameButPrice_trans)
  moreover have "\<forall>a. a \<notin> set rm \<longrightarrow> h' a = h a"
  proof (intro allI impI)
    fix a assume a: "a \<notin> set rm"
    with f have "a \<notin> set rm1" by blast
    with ih have "h' a = h1 a" by blast
    with f a show "h' a = h a" by simp
  qed
  moreover have "list_all (\<lambda>c. \<not> resolvedCollision c) (c # conflicts) \<longrightarrow> h' = h \<and> rm' = rm"
    using f ih by simp
  ultimately show ?case by blast
qed

text \<open>
  What is written, and what is returned: a price that changes is one that the
  resolution of a collision in the list writes, the mappings that stay are a
  subsequence of the input, and one gap-fill mapping is added per resolved gap.
\<close>

lemma priceWritten_sameButPrice:
  "sameButPrice m m1 \<Longrightarrow> priceWritten col res m1 p = priceWritten col res m p"
  by (cases m, cases m1) (auto simp: sameButPrice_def priceWritten_def)

lemma subseq_remove_nth: "subseq (take i xs @ drop (Suc i) xs) xs"
proof -
  have d: "subseq (drop (Suc i) xs) (drop i xs)"
  proof (cases "i < length xs")
    case True
    then have "drop i xs = xs ! i # drop (Suc i) xs"
      by (simp add: Cons_nth_drop_Suc)
    then show ?thesis
      by (simp add: list_emb_Cons)
  next
    case False
    then show ?thesis by simp
  qed
  have "subseq (take i xs @ drop (Suc i) xs) (take i xs @ drop i xs)"
    by (rule list_emb_append_mono) (simp_all add: d)
  then show ?thesis by simp
qed

lemma collisionStep_written:
  assumes "collisionStep col res i (h, rm, kept) = (h', rm', kept')"
  shows "\<forall>a. proposedPrice (h' a) = proposedPrice (h a)
             \<or> priceWritten col res (h a) (proposedPrice (h' a))"
    and "subseq rm' rm"
proof -
  from assms show "\<forall>a. proposedPrice (h' a) = proposedPrice (h a)
             \<or> priceWritten col res (h a) (proposedPrice (h' a))"
    by (auto simp: collisionStep_def Let_def priceWritten_def split: if_splits)
  from assms show "subseq rm' rm"
    by (auto simp: collisionStep_def Let_def subseq_remove_nth split: if_splits)
qed

lemma collisionDownLoop_written:
  assumes "n \<le> length rm" and "collisionDownLoop col res n (h, rm, kept) = (h', rm', kept')"
  shows "(\<forall>a. proposedPrice (h' a) = proposedPrice (h a)
              \<or> priceWritten col res (h a) (proposedPrice (h' a)))
         \<and> subseq rm' rm"
  using assms
proof (induction n arbitrary: h rm kept)
  case 0
  then show ?case by simp
next
  case (Suc n)
  obtain h1 rm1 kept1 where step: "collisionStep col res n (h, rm, kept) = (h1, rm1, kept1)"
    by (cases "collisionStep col res n (h, rm, kept)") auto
  from Suc.prems(1) have n: "n < length rm" by simp
  note f = collisionStep_frame [OF n step]
  note w = collisionStep_written [OF step]
  from Suc.prems(2) step have "collisionDownLoop col res n (h1, rm1, kept1) = (h', rm', kept')"
    by simp
  note ih = Suc.IH [OF f(2) this]
  have "proposedPrice (h' a) = proposedPrice (h a)
        \<or> priceWritten col res (h a) (proposedPrice (h' a))" for a
  proof -
    from f(3) have s: "sameButPrice (h a) (h1 a)" by simp
    from ih have "proposedPrice (h' a) = proposedPrice (h1 a)
                  \<or> priceWritten col res (h1 a) (proposedPrice (h' a))" by simp
    then show ?thesis
    proof
      assume e: "proposedPrice (h' a) = proposedPrice (h1 a)"
      from w(1) have "proposedPrice (h1 a) = proposedPrice (h a)
                      \<or> priceWritten col res (h a) (proposedPrice (h1 a))" by simp
      with e show ?thesis by auto
    next
      assume "priceWritten col res (h1 a) (proposedPrice (h' a))"
      then show ?thesis
        unfolding priceWritten_sameButPrice [OF s] by simp
    qed
  qed
  moreover from ih w(2) have "subseq rm' rm"
    by (blast intro: subseq_order.order_trans)
  ultimately show ?case by simp
qed

lemma applyConflict_written:
  assumes "applyConflict (h, rm, aw) c = (h', rm', aw')"
  shows "(\<forall>a. proposedPrice (h' a) = proposedPrice (h a)
              \<or> priceWrittenBy c (h a) (proposedPrice (h' a)))
         \<and> subseq rm' rm \<and> aw' = aw @ gapFills [c]"
proof (cases "c_resolved c \<and> c_resolution c \<noteq> None")
  case False
  with assms show ?thesis
    by (auto simp: applyConflict_def gapFills_def List.map_filter_def
             split: if_splits option.splits conflict_kind.splits)
next
  case True
  then obtain res where res: "c_resolved c" "c_resolution c = Some res" by auto
  show ?thesis
  proof (cases "c_kind c")
    case (Collision col)
    obtain h1 rm1 kept1 where l:
      "collisionDownLoop col res (length rm) (h, rm, False) = (h1, rm1, kept1)"
      by (cases "collisionDownLoop col res (length rm) (h, rm, False)") auto
    from assms res Collision l have e: "h' = h1" "rm' = rm1" "aw' = aw"
      by (simp_all add: applyConflict_def)
    have g: "gapFills [c] = []"
      using Collision by (simp add: gapFills_def List.map_filter_def)
    from collisionDownLoop_written [OF order_refl l] res Collision show ?thesis
      unfolding e g by (simp add: priceWrittenBy_def)
  next
    case (Gap g)
    with assms res show ?thesis
      by (simp add: applyConflict_def gapFills_def List.map_filter_def)
  next
    case (StrategyReversal r)
    with assms res show ?thesis
      by (simp add: applyConflict_def gapFills_def List.map_filter_def)
  qed
qed

lemma priceWrittenBy_sameButPrice:
  "sameButPrice m m1 \<Longrightarrow> priceWrittenBy c m1 p = priceWrittenBy c m p"
  by (auto simp: priceWrittenBy_def priceWritten_sameButPrice
      split: conflict_kind.splits option.splits)

lemma gapFills_Cons: "gapFills (c # conflicts) = gapFills [c] @ gapFills conflicts"
  by (simp add: gapFills_def List.map_filter_def)

lemma foldl_applyConflict_written:
  assumes "foldl applyConflict (h, rm, aw) conflicts = (h', rm', aw')"
  shows "(\<forall>a. proposedPrice (h' a) = proposedPrice (h a)
              \<or> list_ex (\<lambda>c. priceWrittenBy c (h a) (proposedPrice (h' a))) conflicts)
         \<and> subseq rm' rm \<and> aw' = aw @ gapFills conflicts"
  using assms
proof (induction conflicts arbitrary: h rm aw)
  case Nil
  then show ?case by (simp add: gapFills_def List.map_filter_def)
next
  case (Cons c conflicts)
  obtain h1 rm1 aw1 where step: "applyConflict (h, rm, aw) c = (h1, rm1, aw1)"
    by (cases "applyConflict (h, rm, aw) c") auto
  note f = applyConflict_frame [OF step]
  note w = applyConflict_written [OF step]
  from Cons.prems step have "foldl applyConflict (h1, rm1, aw1) conflicts = (h', rm', aw')"
    by simp
  note ih = Cons.IH [OF this]
  have "proposedPrice (h' a) = proposedPrice (h a)
        \<or> list_ex (\<lambda>c. priceWrittenBy c (h a) (proposedPrice (h' a))) (c # conflicts)" for a
  proof -
    from f have s: "sameButPrice (h a) (h1 a)" by simp
    from ih have "proposedPrice (h' a) = proposedPrice (h1 a)
                  \<or> list_ex (\<lambda>c. priceWrittenBy c (h1 a) (proposedPrice (h' a))) conflicts"
      by simp
    then show ?thesis
    proof
      assume e: "proposedPrice (h' a) = proposedPrice (h1 a)"
      from w have "proposedPrice (h1 a) = proposedPrice (h a)
                   \<or> priceWrittenBy c (h a) (proposedPrice (h1 a))" by simp
      with e show ?thesis by auto
    next
      assume "list_ex (\<lambda>c. priceWrittenBy c (h1 a) (proposedPrice (h' a))) conflicts"
      then show ?thesis
        unfolding priceWrittenBy_sameButPrice [OF s] by simp
    qed
  qed
  moreover from ih w have "subseq rm' rm"
    by (blast intro: subseq_order.order_trans)
  moreover from ih w have "aw' = aw @ gapFills (c # conflicts)"
    by (simp add: gapFills_Cons [of c conflicts])
  ultimately show ?case by simp
qed

text \<open>
  C2, as the code has it. \<open>applyResolutions\<close> never changes a field of an input mapping
  other than \<open>proposedPrice\<close>, never changes an object outside the input list, and
  changes nothing at all unless some conflict is a resolved collision. The
  \<open>proposedPrice\<close> of an input mapping can change in place (see the counterexample that
  follows the witness): whenever it differs after the call, the conflict list holds a
  resolved collision for the mapping's target key, and the new price is the value of
  its resolution, whose \<open>sourceIndex\<close> is then the index of the mapping's \<open>sourceRange\<close>
  among the conflict's mappings, or the \<open>customPrice\<close> of its resolution, whose value is
  then \<open>custom\<close>. The returned list is the sorted list of the mappings with a target
  among the input objects that stay, which are a subsequence of the input list and are
  read as the call leaves them, followed by the gap-fill mappings of the resolved gaps.
\<close>

theorem applyResolutions_frame:
  "sameButPrice (h a) (fst (applyResolutions h mappings conflicts) a)
   \<and> (a \<notin> set mappings \<longrightarrow> fst (applyResolutions h mappings conflicts) a = h a)
   \<and> (list_all (\<lambda>c. \<not> resolvedCollision c) conflicts \<longrightarrow>
         fst (applyResolutions h mappings conflicts) = h)
   \<and> (proposedPrice (fst (applyResolutions h mappings conflicts) a) \<noteq> proposedPrice (h a) \<longrightarrow>
         list_ex (\<lambda>c. priceWrittenBy c (h a)
                        (proposedPrice (fst (applyResolutions h mappings conflicts) a)))
           conflicts)
   \<and> (\<exists>kept. subseq kept mappings
         \<and> snd (applyResolutions h mappings conflicts) =
             js_sort byTargetStart
               (filter (\<lambda>m. target m \<noteq> None)
                  (map (fst (applyResolutions h mappings conflicts)) kept @ gapFills conflicts)))"
proof -
  obtain h' rm' aw' where l: "foldl applyConflict (h, mappings, []) conflicts = (h', rm', aw')"
    by (cases "foldl applyConflict (h, mappings, []) conflicts") auto
  then have e: "fst (applyResolutions h mappings conflicts) = h'"
    and r: "snd (applyResolutions h mappings conflicts) =
            js_sort byTargetStart (filter (\<lambda>m. target m \<noteq> None) (map h' rm' @ aw'))"
    by (simp_all add: applyResolutions_def)
  note f = foldl_applyConflict_frame [OF l]
  note w = foldl_applyConflict_written [OF l]
  from w have k: "\<exists>kept. subseq kept mappings
         \<and> snd (applyResolutions h mappings conflicts) =
             js_sort byTargetStart
               (filter (\<lambda>m. target m \<noteq> None) (map h' kept @ gapFills conflicts))"
    unfolding r by (intro exI [of _ rm']) simp
  from w have p: "proposedPrice (h' a) \<noteq> proposedPrice (h a) \<longrightarrow>
                  list_ex (\<lambda>c. priceWrittenBy c (h a) (proposedPrice (h' a))) conflicts"
    by auto
  from f p k show ?thesis
    unfolding e by simp
qed

theorem applyResolutions_frame_witness:
  "sameButPrice (exampleStore 0)
     (fst (applyResolutions exampleStore [0, 1]
             [exampleCollision True
                (Some \<lparr>res_value = Str ''custom'', res_customPrice = Str ''$3,300'',
                       res_sourceIndex = None, res_interpolatedPrice = Undefined\<rparr>)]) 0)
   \<and> 2 \<notin> set [0, 1 :: nat]
   \<and> fst (applyResolutions exampleStore [0, 1]
             [exampleCollision True
                (Some \<lparr>res_value = Str ''custom'', res_customPrice = Str ''$3,300'',
                       res_sourceIndex = None, res_interpolatedPrice = Undefined\<rparr>)]) 2
       = exampleStore 2
   \<and> list_all (\<lambda>c. \<not> resolvedCollision c) [exampleCollision False None]
   \<and> fst (applyResolutions exampleStore [0, 1] [exampleCollision False None]) = exampleStore
   \<and> proposedPrice
        (fst (applyResolutions exampleStore [0, 1]
                [exampleCollision True
                   (Some \<lparr>res_value = Str ''custom'', res_customPrice = Str ''$3,300'',
                          res_sourceIndex = None, res_interpolatedPrice = Undefined\<rparr>)]) 0)
       \<noteq> proposedPrice (exampleStore 0)
   \<and> list_ex (\<lambda>c. priceWrittenBy c (exampleStore 0)
                    (proposedPrice
                       (fst (applyResolutions exampleStore [0, 1]
                               [exampleCollision True
                                  (Some \<lparr>res_value = Str ''custom'',
                                         res_customPrice = Str ''$3,300'',
                                         res_sourceIndex = None,
                                         res_interpolatedPrice = Undefined\<rparr>)]) 0)))
        [exampleCollision True
           (Some \<lparr>res_value = Str ''custom'', res_customPrice = Str ''$3,300'',
                  res_sourceIndex = None, res_interpolatedPrice = Undefined\<rparr>)]
   \<and> (\<exists>kept. subseq kept [0, 1]
         \<and> snd (applyResolutions exampleStore [0, 1]
                  [exampleCollision True
                     (Some \<lparr>res_value = Str ''custom'', res_customPrice = Str ''$3,300'',
                            res_sourceIndex = None, res_interpolatedPrice = Undefined\<rparr>)]) =
             js_sort byTargetStart
               (filter (\<lambda>m. target m \<noteq> None)
                  (map (fst (applyResolutions exampleStore [0, 1]
                               [exampleCollision True
                                  (Some \<lparr>res_value = Str ''custom'',
                                         res_customPrice = Str ''$3,300'',
                                         res_sourceIndex = None,
                                         res_interpolatedPrice = Undefined\<rparr>)])) kept
                   @ gapFills
                       [exampleCollision True
                          (Some \<lparr>res_value = Str ''custom'', res_customPrice = Str ''$3,300'',
                                 res_sourceIndex = None,
                                 res_interpolatedPrice = Undefined\<rparr>)])))"
proof -
  let ?custom = "[exampleCollision True
            (Some \<lparr>res_value = Str ''custom'', res_customPrice = Str ''$3,300'',
                   res_sourceIndex = None, res_interpolatedPrice = Undefined\<rparr>)]"
  have a: "2 \<notin> set [0, 1 :: nat]" by simp
  have b: "list_all (\<lambda>c. \<not> resolvedCollision c) [exampleCollision False None]"
    by (simp add: resolvedCollision_def exampleCollision_def)
  have c: "proposedPrice (fst (applyResolutions exampleStore [0, 1] ?custom) 0)
           \<noteq> proposedPrice (exampleStore 0)"
    by code_simp
  note t0 = applyResolutions_frame [of exampleStore 0 "[0, 1]" ?custom]
  note t2 = applyResolutions_frame [of exampleStore 2 "[0, 1]" ?custom]
  note tu = applyResolutions_frame [of exampleStore 0 "[0, 1]" "[exampleCollision False None]"]
  from t0 have c1: "sameButPrice (exampleStore 0)
                      (fst (applyResolutions exampleStore [0, 1] ?custom) 0)"
    by (rule conjunct1)
  from t2 a have c2: "fst (applyResolutions exampleStore [0, 1] ?custom) 2 = exampleStore 2"
    by blast
  from tu b have c3: "fst (applyResolutions exampleStore [0, 1] [exampleCollision False None])
                      = exampleStore"
    by blast
  from t0 c have c4: "list_ex (\<lambda>c. priceWrittenBy c (exampleStore 0)
                        (proposedPrice (fst (applyResolutions exampleStore [0, 1] ?custom) 0)))
                        ?custom"
    by blast
  from t0 have c5: "\<exists>kept. subseq kept [0, 1]
         \<and> snd (applyResolutions exampleStore [0, 1] ?custom) =
             js_sort byTargetStart
               (filter (\<lambda>m. target m \<noteq> None)
                  (map (fst (applyResolutions exampleStore [0, 1] ?custom)) kept
                   @ gapFills ?custom))"
    by (elim conjE)
  from c1 a c2 b c3 c c4 c5 show ?thesis
    by (intro conjI)
qed

text \<open>
  The claim that no input mapping is ever mutated fails: resolving the example
  collision with a custom price of \<open>$3,300\<close> (the resolution of the repository's own
  test) overwrites \<open>proposedPrice\<close> of the input mapping stored at address 0, which was
  \<open>$3,500\<close> before the call.
\<close>

theorem applyResolutions_mutates_input:
  "proposedPrice (exampleStore 0) = Some (Str ''$3,500'')
   \<and> proposedPrice
        (fst (applyResolutions exampleStore [0, 1]
                [exampleCollision True
                   (Some \<lparr>res_value = Str ''custom'', res_customPrice = Str ''$3,300'',
                          res_sourceIndex = None, res_interpolatedPrice = Undefined\<rparr>)]) 0)
       = Some (Str ''$3,300'')"
  by code_simp

text \<open>
  C1 fails on the code. The example collision is resolved by choosing the second
  contributor (\<open>sourceIndex = 1\<close>, value \<open>$3,200\<close>). The loop runs from the last
  mapping to the first: it keeps the mapping at index 1, and then leaves the mapping at
  index 0 in place, because the removal is guarded by \<open>!kept\<close>. Both mappings for
  \<open>2027-09-06\<close> are returned.
\<close>

theorem applyResolutions_resolved_collision_keeps_both:
  "map (\<lambda>m. (sourceRange m, map_option w_key (target m), proposedPrice m))
     (snd (applyResolutions exampleStore [0, 1]
             [exampleCollision True
                (Some \<lparr>res_value = Str ''$3,200'', res_customPrice = Undefined,
                       res_sourceIndex = Some 1, res_interpolatedPrice = Undefined\<rparr>)]))
   = [(Some ''Aug 22 - Aug 29'', Some ''2027-09-06'', Some (Str ''$3,500'')),
      (Some ''Aug 29 - Sep 5'', Some ''2027-09-06'', Some (Str ''$3,200''))]"
  by code_simp

text \<open>
  The resolution of the repository's test, which chooses the first contributor
  (\<open>sourceIndex = 0\<close>), does leave one mapping; a custom resolution without
  \<open>sourceIndex\<close> keeps and reprices both.
\<close>

lemma applyResolutions_first_contributor:
  "map (\<lambda>m. (sourceRange m, map_option w_key (target m), proposedPrice m))
     (snd (applyResolutions exampleStore [0, 1]
             [exampleCollision True
                (Some \<lparr>res_value = Str ''$3,500'', res_customPrice = Undefined,
                       res_sourceIndex = Some 0, res_interpolatedPrice = Undefined\<rparr>)]))
   = [(Some ''Aug 22 - Aug 29'', Some ''2027-09-06'', Some (Str ''$3,500''))]"
  by code_simp

lemma applyResolutions_custom_keeps_both:
  "map (\<lambda>m. (sourceRange m, map_option w_key (target m), proposedPrice m))
     (snd (applyResolutions exampleStore [0, 1]
             [exampleCollision True
                (Some \<lparr>res_value = Str ''custom'', res_customPrice = Str ''$3,300'',
                       res_sourceIndex = None, res_interpolatedPrice = Undefined\<rparr>)]))
   = [(Some ''Aug 22 - Aug 29'', Some ''2027-09-06'', Some (Str ''$3,300'')),
      (Some ''Aug 29 - Sep 5'', Some ''2027-09-06'', Some (Str ''$3,300''))]"
  by code_simp

section \<open>Facts about conflict detection\<close>

lemma targetKeys_snoc:
  "targetKeys (ms @ [m]) = targetKeys ms @ (case targetKeyOf m of None \<Rightarrow> [] | Some k \<Rightarrow> [k])"
  by (simp add: targetKeys_def List.map_filter_def split: option.splits)

lemma contributors_snoc:
  "contributors k (ms @ [m]) = contributors k ms @ (if targetKeyOf m = Some k then [m] else [])"
  by (simp add: contributors_def)

lemma set_targetKeys: "set (targetKeys ms) = {k. \<exists>m\<in>set ms. targetKeyOf m = Some k}"
  by (induction ms) (auto simp: targetKeys_def split: option.splits)

lemma contributors_empty: "k \<notin> set (targetKeys ms) \<Longrightarrow> contributors k ms = []"
  by (auto simp: set_targetKeys contributors_def filter_empty_conv)

lemma contributors_nonempty: "k \<in> set (targetKeys ms) \<Longrightarrow> contributors k ms \<noteq> []"
  by (auto simp: set_targetKeys contributors_def filter_empty_conv)

text \<open>One step of the index loop keeps the grouping up to date.\<close>

lemma indexStep_groups:
  "(case target m of
      None \<Rightarrow> (set (targetKeys seen), groupIndex seen)
    | Some t \<Rightarrow>
        (let k = w_key t;
             tk = (if map_of (groupIndex seen) k = None
                   then groupIndex seen @ [(k, [])] else groupIndex seen)
         in (insert k (set (targetKeys seen)),
             AList.update k ((case map_of tk k of None \<Rightarrow> [] | Some ms \<Rightarrow> ms) @ [m]) tk)))
   = (set (targetKeys (seen @ [m])), groupIndex (seen @ [m]))"
proof (cases "target m")
  case None
  then have k: "targetKeyOf m = None" by (simp add: targetKeyOf_def)
  then have "groupIndex (seen @ [m]) = groupIndex seen"
    by (simp add: groupIndex_def targetKeys_snoc contributors_snoc)
  with None k show ?thesis
    by (simp add: targetKeys_snoc)
next
  case (Some t)
  define k where "k = w_key t"
  have km: "targetKeyOf m = Some k"
    by (simp add: targetKeyOf_def Some k_def)
  define ks where "ks = firstOcc (targetKeys seen)"
  have gi: "groupIndex seen = map (\<lambda>x. (x, contributors x seen)) ks"
    by (simp add: groupIndex_def ks_def)
  have dist: "distinct ks" by (simp add: ks_def distinct_firstOcc)
  have setks: "set ks = set (targetKeys seen)" by (simp add: ks_def set_firstOcc)
  have keys: "set (targetKeys (seen @ [m])) = insert k (set (targetKeys seen))"
    by (simp add: targetKeys_snoc km)
  have grp: "AList.update k
               ((case map_of (if map_of (groupIndex seen) k = None
                              then groupIndex seen @ [(k, [])] else groupIndex seen) k of
                   None \<Rightarrow> [] | Some ms \<Rightarrow> ms) @ [m])
               (if map_of (groupIndex seen) k = None
                then groupIndex seen @ [(k, [])] else groupIndex seen)
             = groupIndex (seen @ [m])"
  proof (cases "k \<in> set ks")
    case True
    then have look: "map_of (groupIndex seen) k = Some (contributors k seen)"
      by (simp add: gi map_of_mapped)
    have "groupIndex (seen @ [m]) =
          map (\<lambda>x. (x, if x = k then contributors k seen @ [m] else contributors x seen)) ks"
      using True
      by (auto simp: groupIndex_def targetKeys_snoc km firstOcc_snoc ks_def [symmetric]
            contributors_snoc)
    moreover have "AList.update k (contributors k seen @ [m]) (groupIndex seen) =
          map (\<lambda>x. (x, if x = k then contributors k seen @ [m] else contributors x seen)) ks"
      unfolding gi by (rule update_mapped [OF dist True])
    ultimately show ?thesis
      by (simp add: look)
  next
    case False
    then have look: "map_of (groupIndex seen) k = None"
      by (simp add: gi map_of_mapped)
    from False setks have nil: "contributors k seen = []"
      by (simp add: contributors_empty)
    have "map (\<lambda>x. (x, contributors x (seen @ [m]))) ks = map (\<lambda>x. (x, contributors x seen)) ks"
      using False by (auto simp: contributors_snoc km)
    then have "groupIndex (seen @ [m]) = groupIndex seen @ [(k, [m])]"
      using False
      by (simp add: groupIndex_def targetKeys_snoc km firstOcc_snoc ks_def [symmetric]
            contributors_snoc nil)
    moreover have "AList.update k ([] @ [m]) (groupIndex seen @ [(k, [])])
          = groupIndex seen @ [(k, [] @ [m])]"
      unfolding gi by (rule update_appended [OF False])
    moreover have "map_of (groupIndex seen @ [(k, [])]) k = Some []"
      by (simp add: map_add_def look)
    ultimately show ?thesis
      by (simp add: look)
  qed
  show ?thesis
    unfolding Some option.case Let_def k_def [symmetric] grp keys ..
qed

text \<open>
  The index loop: \<open>mappedTargetKeys\<close> is the set of target keys of the successful
  mappings, and \<open>targetKeyToMappings\<close> lists each key once, in order of first
  occurrence, with all the mappings that have it.
\<close>

lemma indexLoop_groups:
  "indexLoop ms (set (targetKeys seen), groupIndex seen) =
   (set (targetKeys (seen @ ms)), groupIndex (seen @ ms))"
proof (induction ms arbitrary: seen)
  case Nil
  then show ?case by simp
next
  case (Cons m ms)
  have "indexLoop (m # ms) (set (targetKeys seen), groupIndex seen) =
        indexLoop ms (set (targetKeys (seen @ [m])), groupIndex (seen @ [m]))"
    by (simp only: indexLoop.simps indexStep_groups)
  also have "\<dots> = (set (targetKeys ((seen @ [m]) @ ms)), groupIndex ((seen @ [m]) @ ms))"
    by (rule Cons.IH)
  finally show ?case by simp
qed

lemma indexLoop_result:
  "indexLoop ms ({}, []) = (set (targetKeys ms), groupIndex ms)"
proof -
  have "targetKeys [] = []" by (simp add: targetKeys_def)
  moreover have "groupIndex [] = []" by (simp add: groupIndex_def targetKeys_def firstOcc_Nil)
  ultimately show ?thesis
    using indexLoop_groups [of ms "[]"] by simp
qed

lemma collisionLoop_result:
  assumes "list_all (\<lambda>km. length (snd km) > 1 \<longrightarrow> \<not> list_ex (\<lambda>m. source m = None) (snd km)) idx"
  shows "collisionLoop idx acc =
         Inr (acc @ map (\<lambda>km. collisionConflict (fst km) (snd km))
                      (filter (\<lambda>km. length (snd km) > 1) idx))"
  using assms
proof (induction idx arbitrary: acc)
  case Nil
  then show ?case by simp
next
  case (Cons km idx)
  obtain k maps where km: "km = (k, maps)" by (cases km)
  from Cons.prems have src: "length maps > 1 \<longrightarrow> \<not> list_ex (\<lambda>m. source m = None) maps"
    and rest: "list_all (\<lambda>km. length (snd km) > 1 \<longrightarrow> \<not> list_ex (\<lambda>m. source m = None) (snd km)) idx"
    by (simp_all add: km)
  show ?case
    unfolding km using src by (simp add: Cons.IH [OF rest])
qed

lemma collisionLoop_throws:
  assumes "\<not> list_all (\<lambda>km. length (snd km) > 1 \<longrightarrow> \<not> list_ex (\<lambda>m. source m = None) (snd km)) idx"
  shows "collisionLoop idx acc = Inl TypeError"
  using assms
proof (induction idx arbitrary: acc)
  case Nil
  then show ?case by simp
next
  case (Cons km idx)
  obtain k maps where km: "km = (k, maps)" by (cases km)
  show ?case
  proof (cases "length maps > 1 \<and> list_ex (\<lambda>m. source m = None) maps")
    case True
    then show ?thesis unfolding km by simp
  next
    case False
    with Cons.prems have
      "\<not> list_all (\<lambda>km. length (snd km) > 1 \<longrightarrow> \<not> list_ex (\<lambda>m. source m = None) (snd km)) idx"
      by (auto simp: km)
    from Cons.IH [OF this] False show ?thesis
      unfolding km by auto
  qed
qed

lemma groupIndex_sources:
  "list_all (\<lambda>km. length (snd km) > 1 \<longrightarrow> \<not> list_ex (\<lambda>m. source m = None) (snd km)) (groupIndex ms)
   = collidingSourcesPresent ms"
proof
  assume g: "list_all (\<lambda>km. length (snd km) > 1 \<longrightarrow> \<not> list_ex (\<lambda>m. source m = None) (snd km))
               (groupIndex ms)"
  have "source m \<noteq> None"
    if "m \<in> set ms" and "targetKeyOf m = Some k" and "2 \<le> length (contributors k ms)" for m k
  proof -
    from that(1,2) have "k \<in> set (firstOcc (targetKeys ms))"
      by (auto simp: set_firstOcc set_targetKeys)
    with g that(3) have "\<not> list_ex (\<lambda>m. source m = None) (contributors k ms)"
      by (auto simp: groupIndex_def list_all_iff)
    moreover from that(1,2) have "m \<in> set (contributors k ms)"
      by (simp add: contributors_def)
    ultimately show ?thesis by (auto simp: list_ex_iff)
  qed
  then show "collidingSourcesPresent ms"
    by (auto simp: collidingSourcesPresent_def list_all_iff split: option.splits)
next
  assume c: "collidingSourcesPresent ms"
  have "source m \<noteq> None"
    if "m \<in> set (contributors k ms)" and "length (contributors k ms) > 1" for m k
  proof -
    from that(1) have "m \<in> set ms" "targetKeyOf m = Some k"
      by (auto simp: contributors_def)
    with c that(2) show ?thesis
      by (auto simp: collidingSourcesPresent_def list_all_iff split: option.splits)
  qed
  then show "list_all (\<lambda>km. length (snd km) > 1 \<longrightarrow> \<not> list_ex (\<lambda>m. source m = None) (snd km))
               (groupIndex ms)"
    by (auto simp: groupIndex_def list_all_iff list_ex_iff)
qed

lemma sourcesPresent_colliding: "sourcesPresent ms \<Longrightarrow> collidingSourcesPresent ms"
  by (auto simp: sourcesPresent_def collidingSourcesPresent_def list_all_iff targetKeyOf_def
      split: option.splits)

text \<open>Every week that \<open>generateWeeksForYear\<close> yields starts on a valid date of the year.\<close>

lemma weeksLoop_valid:
  "list_all (\<lambda>w. \<exists>t. w_start w = Date t \<and> getFullYear t = year \<and> w_key w = weekKey (Date t)) acc
   \<Longrightarrow> list_all (\<lambda>w. \<exists>t. w_start w = Date t \<and> getFullYear t = year \<and> w_key w = weekKey (Date t))
         (weeksLoop year current acc)"
proof (induction year current acc rule: weeksLoop.induct)
  case (1 year current weeks)
  show ?case
  proof (cases "getFullYear current \<le> year")
    case True
    have "list_all (\<lambda>w. \<exists>t. w_start w = Date t \<and> getFullYear t = year \<and> w_key w = weekKey (Date t))
            (if getFullYear current = year
             then weeks @ [\<lparr>w_start = Date current, w_end = Date (current + 7),
                             w_key = weekKey (Date current)\<rparr>]
             else weeks)"
      using "1.prems" by simp
    from "1.IH" [OF True this] True show ?thesis
      by (subst weeksLoop.simps) simp
  next
    case False
    with "1.prems" show ?thesis
      by (subst weeksLoop.simps) simp
  qed
qed

lemma generateWeeksForYear_valid:
  "list_all (\<lambda>w. \<exists>t. w_start w = Date t \<and> getFullYear t = year \<and> w_key w = weekKey (Date t))
     (generateWeeksForYear year weekStartDay)"
  unfolding generateWeeksForYear_def Let_def
  by (rule weeksLoop_valid) simp

lemma offSeason_inSeason: "w_start w = Date t \<Longrightarrow> (\<not> offSeason w) = inSeason w"
  by (auto simp: offSeason_def inSeason_def Let_def)

text \<open>For a week with a valid start, the gap conflict is built and names the week.\<close>

lemma gapConflict_returns:
  assumes "hs \<noteq> []" and "w_start w = Date t"
  shows "gapConflict ms hs wsd w = Inr (projr (gapConflict ms hs wsd w))"
    and "gapsOf [projr (gapConflict ms hs wsd w)] \<noteq> []"
    and "map gap_targetWeek (gapsOf [projr (gapConflict ms hs wsd w)]) = [w_key w]"
    and "collisionsOf [projr (gapConflict ms hs wsd w)] = []"
    and "reversalsOf [projr (gapConflict ms hs wsd w)] = []"
proof -
  obtain rel where rel: "getWeekHolidayRelationship (Date t) hs wsd = Inr rel"
    using getWeekHolidayRelationship_returns [OF assms(1)] by blast
  obtain nb na where n: "foldl (nearestStep (Date t)) (None, None) ms = (nb, na)"
    by (cases "foldl (nearestStep (Date t)) (None, None) ms") auto
  show "gapConflict ms hs wsd w = Inr (projr (gapConflict ms hs wsd w))"
    by (simp add: gapConflict_def assms(2) rel n)
  show "gapsOf [projr (gapConflict ms hs wsd w)] \<noteq> []"
    by (simp add: gapConflict_def assms(2) rel n gapsOf_def)
  show "map gap_targetWeek (gapsOf [projr (gapConflict ms hs wsd w)]) = [w_key w]"
    by (simp add: gapConflict_def assms(2) rel n gapsOf_def)
  show "collisionsOf [projr (gapConflict ms hs wsd w)] = []"
    by (simp add: gapConflict_def assms(2) rel n collisionsOf_def)
  show "reversalsOf [projr (gapConflict ms hs wsd w)] = []"
    by (simp add: gapConflict_def assms(2) rel n reversalsOf_def)
qed

lemma gapLoop_result:
  assumes "hs \<noteq> []" and "list_all (\<lambda>w. \<exists>t. w_start w = Date t) weeks"
  shows "gapLoop ms keys hs wsd weeks acc =
         Inr (acc @ map (\<lambda>w. projr (gapConflict ms hs wsd w))
                      (filter (\<lambda>w. inSeason w \<and> w_key w \<notin> keys) weeks))"
  using assms(2)
proof (induction weeks arbitrary: acc)
  case Nil
  then show ?case by simp
next
  case (Cons w weeks)
  from Cons.prems obtain t where t: "w_start w = Date t" by auto
  from Cons.prems have rest: "list_all (\<lambda>w. \<exists>t. w_start w = Date t) weeks" by simp
  note ih = Cons.IH [OF rest]
  note season = offSeason_inSeason [OF t]
  show ?case
  proof (cases "inSeason w \<and> w_key w \<notin> keys")
    case True
    with season have "\<not> offSeason w" by simp
    with True show ?thesis
      by (simp add: ih) (subst gapConflict_returns(1) [OF assms(1) t], simp add: ih)
  next
    case False
    with season show ?thesis
      by (auto simp: ih)
  qed
qed

text \<open>What the strategy-reversal pass can push: nothing, or a reversal conflict.\<close>

lemma strategyReversal_kind:
  "strategyReversal ms idx = Some c \<Longrightarrow>
   \<exists>sp tp. c = reversalConflict (ms ! idx) sp tp"
  unfolding strategyReversal_def Let_def
  by (simp split: if_splits option.splits prod.splits) blast+

lemma kinds_append:
  "collisionsOf (xs @ ys) = collisionsOf xs @ collisionsOf ys"
  "gapsOf (xs @ ys) = gapsOf xs @ gapsOf ys"
  "reversalsOf (xs @ ys) = reversalsOf xs @ reversalsOf ys"
  by (simp_all add: collisionsOf_def gapsOf_def reversalsOf_def List.map_filter_def)

lemma reversal_pass_kinds:
  "collisionsOf (List.map_filter (strategyReversal ms) is) = []
   \<and> gapsOf (List.map_filter (strategyReversal ms) is) = []
   \<and> reversalsOf (List.map_filter (strategyReversal ms) is) =
       List.map_filter (strategyReversal ms) is"
proof (induction "is")
  case Nil
  then show ?case by (simp add: collisionsOf_def gapsOf_def reversalsOf_def)
next
  case (Cons i "is")
  show ?case
  proof (cases "strategyReversal ms i")
    case None
    with Cons show ?thesis by simp
  next
    case (Some c)
    then obtain sp tp where "c = reversalConflict (ms ! i) sp tp"
      using strategyReversal_kind by blast
    then have one: "collisionsOf [c] = []" "gapsOf [c] = []" "reversalsOf [c] = [c]"
      by (simp_all add: reversalConflict_def collisionsOf_def gapsOf_def reversalsOf_def)
    have split: "List.map_filter (strategyReversal ms) (i # is) =
                 [c] @ List.map_filter (strategyReversal ms) is"
      using Some by simp
    show ?thesis
      unfolding split kinds_append one using Cons by simp
  qed
qed

lemma collision_list_kinds:
  "collisionsOf (map (\<lambda>km. collisionConflict (fst km) (snd km)) xs) =
     map (\<lambda>km. \<lparr>col_targetWeek = fst km, col_targetRange = targetRange (hd (snd km)),
                 col_mappings = map collisionEntry (snd km)\<rparr>) xs"
  "gapsOf (map (\<lambda>km. collisionConflict (fst km) (snd km)) xs) = []"
  "reversalsOf (map (\<lambda>km. collisionConflict (fst km) (snd km)) xs) = []"
  by (induction xs)
     (simp_all add: collisionsOf_def gapsOf_def reversalsOf_def collisionConflict_def
        collisionEntry_def)

lemma gap_list_kinds:
  assumes "hs \<noteq> []" and "list_all (\<lambda>w. \<exists>t. w_start w = Date t) ws"
  shows "collisionsOf (map (\<lambda>w. projr (gapConflict ms hs wsd w)) ws) = []
         \<and> map gap_targetWeek (gapsOf (map (\<lambda>w. projr (gapConflict ms hs wsd w)) ws)) = map w_key ws
         \<and> reversalsOf (map (\<lambda>w. projr (gapConflict ms hs wsd w)) ws) = []"
  using assms(2)
proof (induction ws)
  case Nil
  show ?case by (simp add: collisionsOf_def gapsOf_def reversalsOf_def)
next
  case (Cons w ws)
  from Cons.prems obtain t where t: "w_start w = Date t" by auto
  from Cons.prems have rest: "list_all (\<lambda>w. \<exists>t. w_start w = Date t) ws" by simp
  note g = gapConflict_returns [OF assms(1) t, of ms wsd]
  have split: "map (\<lambda>w. projr (gapConflict ms hs wsd w)) (w # ws) =
               [projr (gapConflict ms hs wsd w)] @ map (\<lambda>w. projr (gapConflict ms hs wsd w)) ws"
    by simp
  show ?case
    unfolding split kinds_append using Cons.IH [OF rest] g(3) g(4) g(5) by simp
qed

text \<open>
  The whole of \<open>detectConflicts\<close> on mappings whose colliding entries have a source:
  the collisions of the grouped index, then the gaps of the in-season weeks without a
  mapping, then what the strategy-reversal pass pushes. When a colliding entry has no
  source, reading \<open>m.source.price\<close> throws in the collision pass.
\<close>

lemma detectConflicts_throws:
  assumes "\<not> collidingSourcesPresent ms"
  shows "detectConflicts ms targetYear weekStartDay = Inl TypeError"
proof -
  from assms have "collisionLoop (groupIndex ms) [] = Inl TypeError"
    unfolding groupIndex_sources [symmetric] by (rule collisionLoop_throws)
  then show ?thesis
    unfolding detectConflicts_def Let_def indexLoop_result by simp
qed

lemma detectConflicts_result:
  assumes "collidingSourcesPresent ms"
  shows "\<exists>th. getHolidaysForYear targetYear = Some th \<and> th \<noteq> []
          \<and> detectConflicts ms targetYear weekStartDay =
              Inr (map (\<lambda>km. collisionConflict (fst km) (snd km))
                     (filter (\<lambda>km. length (snd km) > 1) (groupIndex ms))
                   @ map (\<lambda>w. projr (gapConflict ms th weekStartDay w))
                       (filter (\<lambda>w. inSeason w \<and> w_key w \<notin> set (targetKeys ms))
                          (generateWeeksForYear targetYear weekStartDay))
                   @ List.map_filter (strategyReversal ms) [0..<length ms])"
proof -
  obtain th where th: "getHolidaysForYear targetYear = Some th" "map fst th = holidayKeys"
    using getHolidaysForYear_returns by blast
  then have ne: "th \<noteq> []" by (auto simp: holidayKeys_def)
  have weeks: "list_all (\<lambda>w. \<exists>t. w_start w = Date t) (generateWeeksForYear targetYear weekStartDay)"
    using generateWeeksForYear_valid [of targetYear weekStartDay]
    by (auto simp: list_all_iff)
  from assms have "list_all (\<lambda>km. length (snd km) > 1 \<longrightarrow>
                     \<not> list_ex (\<lambda>m. source m = None) (snd km)) (groupIndex ms)"
    unfolding groupIndex_sources .
  note c = collisionLoop_result [OF this, of "[]"]
  note g = gapLoop_result [OF ne weeks, of ms "set (targetKeys ms)" weekStartDay]
  have "detectConflicts ms targetYear weekStartDay =
          Inr (map (\<lambda>km. collisionConflict (fst km) (snd km))
                 (filter (\<lambda>km. length (snd km) > 1) (groupIndex ms))
               @ map (\<lambda>w. projr (gapConflict ms th weekStartDay w))
                   (filter (\<lambda>w. inSeason w \<and> w_key w \<notin> set (targetKeys ms))
                      (generateWeeksForYear targetYear weekStartDay))
               @ List.map_filter (strategyReversal ms) [0..<length ms])"
    unfolding detectConflicts_def Let_def indexLoop_result
    by (simp add: c g th(1))
  with th(1) ne show ?thesis by blast
qed

text \<open>
  Every list that \<open>mapWeeksByHolidays\<close> returns satisfies \<open>sourcesPresent\<close>: each mapping
  it pushes has the source week as its \<open>source\<close>.
\<close>

lemma mapWeek_source:
  "mapWeek allSource allTarget weekStartDay w = Inr m \<Longrightarrow> source m = Some w"
  unfolding mapWeek_def Let_def
  by (auto split: sum.splits option.splits)

lemma mapWeeksLoop_sources:
  "mapWeeksLoop allSource allTarget weekStartDay ws acc = Inr ms \<Longrightarrow>
   list_all (\<lambda>m. source m \<noteq> None) acc \<Longrightarrow> list_all (\<lambda>m. source m \<noteq> None) ms"
proof (induction ws arbitrary: acc)
  case Nil
  then show ?case by simp
next
  case (Cons w ws)
  from Cons.prems(1) obtain m where m: "mapWeek allSource allTarget weekStartDay w = Inr m"
    and r: "mapWeeksLoop allSource allTarget weekStartDay ws (acc @ [m]) = Inr ms"
    by (auto split: sum.splits)
  from mapWeek_source [OF m] Cons.prems(2)
  have "list_all (\<lambda>m. source m \<noteq> None) (acc @ [m])" by simp
  with r show ?case by (rule Cons.IH)
qed

lemma mapWeeksByHolidays_sourcesPresent:
  assumes "mapWeeksByHolidays sourceWeeks sourceYear targetYear anchors weekStartDay = Inr ms"
  shows "sourcesPresent ms"
proof -
  from assms obtain allSource allTarget where
    "mapWeeksLoop allSource allTarget weekStartDay sourceWeeks [] = Inr ms"
    unfolding mapWeeksByHolidays_def
    by (auto split: option.splits prod.splits)
  from mapWeeksLoop_sources [OF this]
  have "list_all (\<lambda>m. source m \<noteq> None) ms" by simp
  then show ?thesis
    by (simp add: sourcesPresent_def list_all_iff)
qed

lemma detectConflicts_kinds:
  assumes "collidingSourcesPresent ms"
  shows "\<exists>conflicts. detectConflicts ms targetYear weekStartDay = Inr conflicts
          \<and> collisionsOf conflicts =
              map (\<lambda>km. \<lparr>col_targetWeek = fst km, col_targetRange = targetRange (hd (snd km)),
                          col_mappings = map collisionEntry (snd km)\<rparr>)
                (filter (\<lambda>km. length (snd km) > 1) (groupIndex ms))
          \<and> map gap_targetWeek (gapsOf conflicts) =
              map w_key (filter (\<lambda>w. inSeason w \<and> w_key w \<notin> set (targetKeys ms))
                           (generateWeeksForYear targetYear weekStartDay))
          \<and> reversalsOf conflicts = List.map_filter (strategyReversal ms) [0..<length ms]"
proof -
  obtain th where th: "th \<noteq> []" and r:
    "detectConflicts ms targetYear weekStartDay =
       Inr (map (\<lambda>km. collisionConflict (fst km) (snd km))
              (filter (\<lambda>km. length (snd km) > 1) (groupIndex ms))
            @ map (\<lambda>w. projr (gapConflict ms th weekStartDay w))
                (filter (\<lambda>w. inSeason w \<and> w_key w \<notin> set (targetKeys ms))
                   (generateWeeksForYear targetYear weekStartDay))
            @ List.map_filter (strategyReversal ms) [0..<length ms])"
    using detectConflicts_result [OF assms] by blast
  have weeks: "list_all (\<lambda>w. \<exists>t. w_start w = Date t)
                 (filter (\<lambda>w. inSeason w \<and> w_key w \<notin> set (targetKeys ms))
                    (generateWeeksForYear targetYear weekStartDay))"
    using generateWeeksForYear_valid [of targetYear weekStartDay]
    by (auto simp: list_all_iff)
  note g = gap_list_kinds [OF th weeks, of ms weekStartDay]
  note v = reversal_pass_kinds [of ms "[0..<length ms]"]
  show ?thesis
    unfolding r by (simp add: kinds_append collision_list_kinds g v)
qed

lemma groupIndex_collision_keys:
  "map fst (filter (\<lambda>km. length (snd km) > 1) (groupIndex ms)) =
   filter (\<lambda>k. 2 \<le> length (contributors k ms)) (firstOcc (targetKeys ms))"
proof -
  have "filter (\<lambda>km. length (snd km) > 1) (map (\<lambda>k. (k, contributors k ms)) ks) =
        map (\<lambda>k. (k, contributors k ms)) (filter (\<lambda>k. 2 \<le> length (contributors k ms)) ks)" for ks
    by (induction ks) auto
  then show ?thesis
    unfolding groupIndex_def by (simp only: list.map_comp comp_def fst_conv list.map_ident)
qed

text \<open>
  C7. \<open>detectConflicts\<close> does not return for every mapping list. When every mapping
  that shares its target key with another successful mapping has a source week, it
  returns, and its collision conflicts are, in order of first occurrence, one for each
  target key that two or more successful mappings share: their keys are distinct, they
  are exactly the keys with at least two contributing mappings, and the \<open>mappings\<close>
  array of each has one entry per contributing mapping, in list order (so two
  contributors give an array of length 2). When some mapping of a colliding group has
  no source week (\<open>source\<close> is \<open>null\<close>), reading \<open>m.source.price\<close> throws a \<open>TypeError\<close> and
  no conflict is returned.
\<close>

theorem detectConflicts_collisions:
  "(collidingSourcesPresent mappings \<longrightarrow>
      (\<exists>conflicts.
         detectConflicts mappings targetYear weekStartDay = Inr conflicts
         \<and> map col_targetWeek (collisionsOf conflicts) =
             filter (\<lambda>k. 2 \<le> length (contributors k mappings)) (firstOcc (targetKeys mappings))
         \<and> distinct (map col_targetWeek (collisionsOf conflicts))
         \<and> set (map col_targetWeek (collisionsOf conflicts)) =
             {k. 2 \<le> length (contributors k mappings)}
         \<and> list_all (\<lambda>col. col_mappings col =
                              map collisionEntry (contributors (col_targetWeek col) mappings)
                            \<and> length (col_mappings col) =
                              length (contributors (col_targetWeek col) mappings))
             (collisionsOf conflicts)))
   \<and> (\<not> collidingSourcesPresent mappings \<longrightarrow>
        detectConflicts mappings targetYear weekStartDay = Inl TypeError)"
proof (intro conjI impI)
  assume assms: "collidingSourcesPresent mappings"
  obtain conflicts where r: "detectConflicts mappings targetYear weekStartDay = Inr conflicts"
    and c: "collisionsOf conflicts =
              map (\<lambda>km. \<lparr>col_targetWeek = fst km, col_targetRange = targetRange (hd (snd km)),
                          col_mappings = map collisionEntry (snd km)\<rparr>)
                (filter (\<lambda>km. length (snd km) > 1) (groupIndex mappings))"
    using detectConflicts_kinds [OF assms] by blast
  have keys: "map col_targetWeek (collisionsOf conflicts) =
              filter (\<lambda>k. 2 \<le> length (contributors k mappings)) (firstOcc (targetKeys mappings))"
  proof -
    have "map col_targetWeek
            (map (\<lambda>km. \<lparr>col_targetWeek = fst km, col_targetRange = targetRange (hd (snd km)),
                        col_mappings = map collisionEntry (snd km)\<rparr>) xs) = map fst xs"
      for xs :: "(string \<times> mapping list) list"
      by (simp add: comp_def)
    then show ?thesis
      unfolding c by (simp only: groupIndex_collision_keys)
  qed
  have dist: "distinct (map col_targetWeek (collisionsOf conflicts))"
    unfolding keys by (simp add: distinct_firstOcc)
  have "k \<in> set (targetKeys mappings)" if "2 \<le> length (contributors k mappings)" for k
  proof (rule ccontr)
    assume "k \<notin> set (targetKeys mappings)"
    then have "contributors k mappings = []" by (rule contributors_empty)
    with that show False by simp
  qed
  then have sets: "set (map col_targetWeek (collisionsOf conflicts)) =
                   {k. 2 \<le> length (contributors k mappings)}"
    unfolding keys by (auto simp: set_firstOcc)
  have entries: "list_all (\<lambda>col. col_mappings col =
                                map collisionEntry (contributors (col_targetWeek col) mappings)
                              \<and> length (col_mappings col) =
                                length (contributors (col_targetWeek col) mappings))
                   (collisionsOf conflicts)"
    unfolding c by (auto simp: list_all_iff groupIndex_def)
  from r keys dist sets entries
  show "\<exists>conflicts.
         detectConflicts mappings targetYear weekStartDay = Inr conflicts
         \<and> map col_targetWeek (collisionsOf conflicts) =
             filter (\<lambda>k. 2 \<le> length (contributors k mappings)) (firstOcc (targetKeys mappings))
         \<and> distinct (map col_targetWeek (collisionsOf conflicts))
         \<and> set (map col_targetWeek (collisionsOf conflicts)) =
             {k. 2 \<le> length (contributors k mappings)}
         \<and> list_all (\<lambda>col. col_mappings col =
                              map collisionEntry (contributors (col_targetWeek col) mappings)
                            \<and> length (col_mappings col) =
                              length (contributors (col_targetWeek col) mappings))
             (collisionsOf conflicts)"
    by blast
next
  assume "\<not> collidingSourcesPresent mappings"
  then show "detectConflicts mappings targetYear weekStartDay = Inl TypeError"
    by (rule detectConflicts_throws)
qed

theorem detectConflicts_collisions_witness:
  "collidingSourcesPresent (map exampleStore [0, 1])
   \<and> (\<exists>conflicts.
         detectConflicts (map exampleStore [0, 1]) 2027 6 = Inr conflicts
         \<and> map col_targetWeek (collisionsOf conflicts) = [''2027-09-06'']
         \<and> distinct (map col_targetWeek (collisionsOf conflicts))
         \<and> {k. 2 \<le> length (contributors k (map exampleStore [0, 1]))} = {''2027-09-06''}
         \<and> map (\<lambda>col. length (col_mappings col)) (collisionsOf conflicts) = [2])
   \<and> \<not> collidingSourcesPresent sourcelessCollision
   \<and> detectConflicts sourcelessCollision 2027 6 = Inl TypeError"
proof -
  let ?ms = "map exampleStore [0, 1]"
  have s: "collidingSourcesPresent ?ms"
    by code_simp
  have ns: "\<not> collidingSourcesPresent sourcelessCollision"
    by code_simp
  have k: "filter (\<lambda>k. 2 \<le> length (contributors k ?ms)) (firstOcc (targetKeys ?ms)) =
           [''2027-09-06'']"
    by code_simp
  have n: "length (contributors ''2027-09-06'' ?ms) = 2"
    by code_simp
  note t = detectConflicts_collisions [of ?ms 2027 6]
  note u = detectConflicts_collisions [of sourcelessCollision 2027 6]
  from u ns have throws: "detectConflicts sourcelessCollision 2027 6 = Inl TypeError"
    by (elim conjE) (erule mp)
  obtain conflicts where r: "detectConflicts ?ms 2027 6 = Inr conflicts"
    and keys: "map col_targetWeek (collisionsOf conflicts) = [''2027-09-06'']"
    and dist: "distinct (map col_targetWeek (collisionsOf conflicts))"
    and sets: "set (map col_targetWeek (collisionsOf conflicts)) =
               {k. 2 \<le> length (contributors k ?ms)}"
    and entries: "list_all (\<lambda>col. col_mappings col =
                                  map collisionEntry (contributors (col_targetWeek col) ?ms)
                                \<and> length (col_mappings col) =
                                  length (contributors (col_targetWeek col) ?ms))
                    (collisionsOf conflicts)"
    using t [THEN conjunct1, THEN mp, OF s] unfolding k
    by (elim exE conjE) (rule that; assumption)
  from keys obtain col where one: "collisionsOf conflicts = [col]"
    and ck: "col_targetWeek col = ''2027-09-06''"
    by (cases "collisionsOf conflicts") auto
  from entries have "length (col_mappings col) = length (contributors (col_targetWeek col) ?ms)"
    unfolding one list.pred_inject by (elim conjE)
  then have len: "map (\<lambda>col. length (col_mappings col)) (collisionsOf conflicts) = [2]"
    unfolding one ck n by simp
  from sets have st: "{k. 2 \<le> length (contributors k ?ms)} = {''2027-09-06''}"
    unfolding keys by simp
  from r keys dist st len
  have "\<exists>conflicts.
          detectConflicts ?ms 2027 6 = Inr conflicts
          \<and> map col_targetWeek (collisionsOf conflicts) = [''2027-09-06'']
          \<and> distinct (map col_targetWeek (collisionsOf conflicts))
          \<and> {k. 2 \<le> length (contributors k ?ms)} = {''2027-09-06''}
          \<and> map (\<lambda>col. length (col_mappings col)) (collisionsOf conflicts) = [2]"
    by (intro exI [of _ conflicts] conjI)
  with s ns throws show ?thesis by (intro conjI)
qed

text \<open>
  The claim for every mapping list fails: two successful mappings share the target
  key \<open>2027-09-06\<close>, the second has no source week, and \<open>detectConflicts\<close> throws instead
  of reporting the collision.
\<close>

theorem detectConflicts_sourceless_collision_throws:
  "map (\<lambda>m. (targetKeyOf m, source m \<noteq> None)) sourcelessCollision =
     [(Some ''2027-09-06'', True), (Some ''2027-09-06'', False)]
   \<and> detectConflicts sourcelessCollision 2027 6 = Inl TypeError"
  by code_simp

text \<open>
  The scenario of two distinct source weeks: with no custom anchors and weeks starting
  on Saturday, the 2026 weeks of 13 June (three weeks after Memorial Day) and 20 June
  (two weeks before July 4th) both map to the 2027 week of 19 June, and
  \<open>detectConflicts\<close> reports one collision with both of them.
\<close>

lemma detectConflicts_june_collision:
  "(case mapWeeksByHolidays juneWeeks2026 2026 2027 [] 6 of
      Inl e \<Rightarrow> False
    | Inr mappings \<Rightarrow>
        (case detectConflicts mappings 2027 6 of
           Inl e \<Rightarrow> False
         | Inr conflicts \<Rightarrow>
             collisionsOf conflicts =
               [\<lparr>col_targetWeek = ''2027-06-19'',
                 col_targetRange = Some ''Jun 19 - Jun 26'',
                 col_mappings =
                   [\<lparr>ce_sourceRange = Some ''Jun 13 - Jun 20'', ce_price = Str ''$3,000'',
                      ce_relationship = Some ''3 weeks after Memorial Day''\<rparr>,
                    \<lparr>ce_sourceRange = Some ''Jun 20 - Jun 27'', ce_price = Str ''$3,300'',
                      ce_relationship = Some ''2 weeks before July 4th''\<rparr>]\<rparr>]))"
  by code_simp

text \<open>
  C6. When every mapping that shares its target key with another successful mapping
  has a source week, \<open>detectConflicts\<close> returns, and its gap conflicts are, in order,
  one for each generated target-year week that starts in a month from April to
  November (zero-based 3 to 10) and whose key is not the target key of a successful
  mapping. Otherwise the collision pass throws a \<open>TypeError\<close> before any gap is looked
  for, and no gap conflict is emitted.
\<close>

theorem detectConflicts_gaps:
  "(collidingSourcesPresent mappings \<longrightarrow>
      (\<exists>conflicts.
         detectConflicts mappings targetYear weekStartDay = Inr conflicts
         \<and> map gap_targetWeek (gapsOf conflicts) =
             map w_key (filter (\<lambda>w. inSeason w \<and> w_key w \<notin> set (targetKeys mappings))
                          (generateWeeksForYear targetYear weekStartDay))))
   \<and> (\<not> collidingSourcesPresent mappings \<longrightarrow>
        detectConflicts mappings targetYear weekStartDay = Inl TypeError)"
proof (intro conjI impI)
  assume "collidingSourcesPresent mappings"
  from detectConflicts_kinds [OF this, of targetYear weekStartDay]
  show "\<exists>conflicts.
         detectConflicts mappings targetYear weekStartDay = Inr conflicts
         \<and> map gap_targetWeek (gapsOf conflicts) =
             map w_key (filter (\<lambda>w. inSeason w \<and> w_key w \<notin> set (targetKeys mappings))
                          (generateWeeksForYear targetYear weekStartDay))"
    by blast
next
  assume "\<not> collidingSourcesPresent mappings"
  then show "detectConflicts mappings targetYear weekStartDay = Inl TypeError"
    by (rule detectConflicts_throws)
qed

theorem detectConflicts_gaps_witness:
  "collidingSourcesPresent gapFilled
   \<and> targetKeys gapFilled = [''2027-07-10'', ''2027-07-03'']
   \<and> (\<exists>conflicts.
         detectConflicts gapFilled 2027 6 = Inr conflicts
         \<and> map gap_targetWeek (gapsOf conflicts) =
             [''2027-04-03'', ''2027-04-10'', ''2027-04-17'', ''2027-04-24'', ''2027-05-01'',
              ''2027-05-08'', ''2027-05-15'', ''2027-05-22'', ''2027-05-29'', ''2027-06-05'',
              ''2027-06-12'', ''2027-06-19'', ''2027-06-26'', ''2027-07-17'',
              ''2027-07-24'', ''2027-07-31'', ''2027-08-07'', ''2027-08-14'', ''2027-08-21'',
              ''2027-08-28'', ''2027-09-04'', ''2027-09-11'', ''2027-09-18'', ''2027-09-25'',
              ''2027-10-02'', ''2027-10-09'', ''2027-10-16'', ''2027-10-23'', ''2027-10-30'',
              ''2027-11-06'', ''2027-11-13'', ''2027-11-20'', ''2027-11-27''])
   \<and> collidingSourcesPresent julyMapped
   \<and> (\<exists>conflicts.
         detectConflicts julyMapped 2027 6 = Inr conflicts
         \<and> map gap_targetWeek (gapsOf conflicts) =
             [''2027-04-03'', ''2027-04-10'', ''2027-04-17'', ''2027-04-24'', ''2027-05-01'',
              ''2027-05-08'', ''2027-05-15'', ''2027-05-22'', ''2027-05-29'', ''2027-06-05'',
              ''2027-06-12'', ''2027-06-19'', ''2027-06-26'', ''2027-07-03'', ''2027-07-17'',
              ''2027-07-24'', ''2027-07-31'', ''2027-08-07'', ''2027-08-14'', ''2027-08-21'',
              ''2027-08-28'', ''2027-09-04'', ''2027-09-11'', ''2027-09-18'', ''2027-09-25'',
              ''2027-10-02'', ''2027-10-09'', ''2027-10-16'', ''2027-10-23'', ''2027-10-30'',
              ''2027-11-06'', ''2027-11-13'', ''2027-11-20'', ''2027-11-27''])
   \<and> \<not> collidingSourcesPresent gapFillCollision
   \<and> detectConflicts gapFillCollision 2027 6 = Inl TypeError"
proof -
  have s: "collidingSourcesPresent gapFilled"
    by code_simp
  have sj: "collidingSourcesPresent julyMapped"
    by code_simp
  have ns: "\<not> collidingSourcesPresent gapFillCollision"
    by code_simp
  have k: "targetKeys gapFilled = [''2027-07-10'', ''2027-07-03'']"
    by code_simp
  have e: "map w_key (filter (\<lambda>w. inSeason w \<and> w_key w \<notin> set (targetKeys gapFilled))
                        (generateWeeksForYear 2027 6)) =
             [''2027-04-03'', ''2027-04-10'', ''2027-04-17'', ''2027-04-24'', ''2027-05-01'',
              ''2027-05-08'', ''2027-05-15'', ''2027-05-22'', ''2027-05-29'', ''2027-06-05'',
              ''2027-06-12'', ''2027-06-19'', ''2027-06-26'', ''2027-07-17'',
              ''2027-07-24'', ''2027-07-31'', ''2027-08-07'', ''2027-08-14'', ''2027-08-21'',
              ''2027-08-28'', ''2027-09-04'', ''2027-09-11'', ''2027-09-18'', ''2027-09-25'',
              ''2027-10-02'', ''2027-10-09'', ''2027-10-16'', ''2027-10-23'', ''2027-10-30'',
              ''2027-11-06'', ''2027-11-13'', ''2027-11-20'', ''2027-11-27'']"
    by code_simp
  have ej: "map w_key (filter (\<lambda>w. inSeason w \<and> w_key w \<notin> set (targetKeys julyMapped))
                        (generateWeeksForYear 2027 6)) =
             [''2027-04-03'', ''2027-04-10'', ''2027-04-17'', ''2027-04-24'', ''2027-05-01'',
              ''2027-05-08'', ''2027-05-15'', ''2027-05-22'', ''2027-05-29'', ''2027-06-05'',
              ''2027-06-12'', ''2027-06-19'', ''2027-06-26'', ''2027-07-03'', ''2027-07-17'',
              ''2027-07-24'', ''2027-07-31'', ''2027-08-07'', ''2027-08-14'', ''2027-08-21'',
              ''2027-08-28'', ''2027-09-04'', ''2027-09-11'', ''2027-09-18'', ''2027-09-25'',
              ''2027-10-02'', ''2027-10-09'', ''2027-10-16'', ''2027-10-23'', ''2027-10-30'',
              ''2027-11-06'', ''2027-11-13'', ''2027-11-20'', ''2027-11-27'']"
    by code_simp
  note t = detectConflicts_gaps [of gapFilled 2027 6]
  note tj = detectConflicts_gaps [of julyMapped 2027 6]
  note u = detectConflicts_gaps [of gapFillCollision 2027 6]
  note a = t [THEN conjunct1, THEN mp, OF s, unfolded e]
  note b = tj [THEN conjunct1, THEN mp, OF sj, unfolded ej]
  note c = u [THEN conjunct2, THEN mp, OF ns]
  from s k a sj b ns c show ?thesis by (intro conjI)
qed

text \<open>
  The claim fails where the collision pass throws: the week of 3 July 2027 is a
  generated week in season that no mapping targets, yet no gap conflict is emitted,
  because the two mappings onto the week of 10 July collide and the second, a gap
  fill, has no source week.
\<close>

theorem detectConflicts_throws_before_gaps:
  "targetKeys gapFillCollision = [''2027-07-10'', ''2027-07-10'']
   \<and> map (\<lambda>m. source m \<noteq> None) gapFillCollision = [True, False]
   \<and> detectConflicts gapFillCollision 2027 6 = Inl TypeError"
  by code_simp

text \<open>
  The generated weeks of 2027 that start on Saturday, with the zero-based month of their
  start: the unmapped week of 3 July is in the second list of gap keys above once and,
  once filled, in none; the mapped week of 10 July and the January weeks are in neither.
\<close>

lemma generateWeeksForYear_2027_months:
  "map (\<lambda>w. (w_key w, case w_start w of Date t \<Rightarrow> getMonth t | InvalidDate \<Rightarrow> - 1))
     (take 5 (generateWeeksForYear 2027 6) @ take 3 (drop 25 (generateWeeksForYear 2027 6))) =
   [(''2027-01-02'', 0), (''2027-01-09'', 0), (''2027-01-16'', 0), (''2027-01-23'', 0),
    (''2027-01-30'', 0), (''2027-06-26'', 5), (''2027-07-03'', 6), (''2027-07-10'', 6)]"
  by code_simp

lemma strategyReversal_numeric:
  assumes "strategyReversal ms idx = Some c"
  shows "parsePrice (priceOf (ms ! idx)) \<noteq> None"
    and "parsePrice (neighbourPrice (ms ! (idx - 1))) \<noteq> None"
    and "parsePrice (neighbourPrice (ms ! (idx + 1))) \<noteq> None"
    and "parsePrice (priceOf (fst (targetNeighbours ms idx))) \<noteq> None"
    and "parsePrice (priceOf (snd (targetNeighbours ms idx))) \<noteq> None"
  using assms
  unfolding strategyReversal_def targetNeighbours_def neighbourPrice_def Let_def
  by (simp_all split: if_splits option.splits prod.splits)

lemma sourcesPresent_unparseableExample: "sourcesPresent unparseableExample"
  by (simp add: sourcesPresent_def unparseableExample_def pricedMapping_def exampleMapping_def)

text \<open>
  C8. The two price parsers differ, and neither returns 0 for empty input and NaN for
  non-numeric input. \<open>parsePrice\<close> of calculations.js never returns NaN: it returns 0
  for a falsy value (empty string, \<open>null\<close>, \<open>undefined\<close>, 0) and for text with no leading
  number. \<open>parsePrice\<close> of weekMapping.js, which conflict detection uses, returns NaN in
  both cases. Conflict detection skips on NaN: \<open>interpolatePrice\<close> returns its first
  argument when either price parses to NaN, no strategy reversal is reported for a
  mapping when its price, the price of a source neighbour or the price of a target
  neighbour parses to NaN, and \<open>detectConflicts\<close> returns, with the reversals of exactly
  the positions where the comparison reports one.
\<close>

theorem parsePrice_variants:
  "calc_parsePrice p \<noteq> None
   \<and> (\<not> truthy p \<or> js_parseInt (strip_currency (js_String p)) = None
        \<longrightarrow> calc_parsePrice p = Some 0 \<and> parsePrice p = None)
   \<and> (parsePrice p = None \<or> parsePrice q = None \<longrightarrow> interpolatePrice p q = p)
   \<and> (parsePrice (priceOf (ms ! idx)) = None
        \<or> parsePrice (neighbourPrice (ms ! (idx - 1))) = None
        \<or> parsePrice (neighbourPrice (ms ! (idx + 1))) = None
        \<or> parsePrice (priceOf (fst (targetNeighbours ms idx))) = None
        \<or> parsePrice (priceOf (snd (targetNeighbours ms idx))) = None
        \<longrightarrow> strategyReversal ms idx = None)
   \<and> (sourcesPresent ms \<longrightarrow>
        (\<exists>conflicts. detectConflicts ms targetYear weekStartDay = Inr conflicts
           \<and> reversalsOf conflicts = List.map_filter (strategyReversal ms) [0..<length ms]))"
proof (intro conjI impI)
  show "calc_parsePrice p \<noteq> None"
    by (simp add: calc_parsePrice_def split: option.splits)
next
  assume "\<not> truthy p \<or> js_parseInt (strip_currency (js_String p)) = None"
  then show "calc_parsePrice p = Some 0"
    by (auto simp: calc_parsePrice_def)
next
  assume "\<not> truthy p \<or> js_parseInt (strip_currency (js_String p)) = None"
  then show "parsePrice p = None"
    by (auto simp: parsePrice_def)
next
  assume "parsePrice p = None \<or> parsePrice q = None"
  then show "interpolatePrice p q = p"
    by (auto simp: interpolatePrice_def split: option.splits)
next
  assume nan: "parsePrice (priceOf (ms ! idx)) = None
        \<or> parsePrice (neighbourPrice (ms ! (idx - 1))) = None
        \<or> parsePrice (neighbourPrice (ms ! (idx + 1))) = None
        \<or> parsePrice (priceOf (fst (targetNeighbours ms idx))) = None
        \<or> parsePrice (priceOf (snd (targetNeighbours ms idx))) = None"
  show "strategyReversal ms idx = None"
  proof (cases "strategyReversal ms idx")
    case None
    then show ?thesis .
  next
    case (Some c)
    from strategyReversal_numeric [OF Some] nan show ?thesis by auto
  qed
next
  assume "sourcesPresent ms"
  then have "collidingSourcesPresent ms" by (rule sourcesPresent_colliding)
  from detectConflicts_kinds [OF this, of targetYear weekStartDay]
  show "\<exists>conflicts. detectConflicts ms targetYear weekStartDay = Inr conflicts
          \<and> reversalsOf conflicts = List.map_filter (strategyReversal ms) [0..<length ms]"
    by blast
qed

theorem parsePrice_variants_witness:
  "calc_parsePrice (Str ''abc'') = Some 0 \<and> parsePrice (Str ''abc'') = None
   \<and> calc_parsePrice (Str []) = Some 0 \<and> parsePrice (Str []) = None
   \<and> calc_parsePrice Null = Some 0 \<and> parsePrice Null = None
   \<and> interpolatePrice (Str ''abc'') (Str ''$3,000'') = Str ''abc''
   \<and> parsePrice (priceOf (unparseableExample ! 1)) = None
   \<and> strategyReversal unparseableExample 1 = None
   \<and> sourcesPresent unparseableExample
   \<and> (\<exists>conflicts. detectConflicts unparseableExample 2027 6 = Inr conflicts
          \<and> reversalsOf conflicts = [])"
proof -
  have abc: "js_parseInt (strip_currency (js_String (Str ''abc''))) = None"
    by code_simp
  have empty: "\<not> truthy (Str [])" and null: "\<not> truthy Null"
    by simp_all
  have price: "parsePrice (priceOf (unparseableExample ! 1)) = None"
    by code_simp
  have none: "List.map_filter (strategyReversal unparseableExample)
                [0..<length unparseableExample] = []"
    by code_simp
  note t = parsePrice_variants [of "Str ''abc''" "Str ''$3,000''" unparseableExample 1 2027 6]
  note e = parsePrice_variants [of "Str []" "Str []" unparseableExample 1 2027 6]
  note n = parsePrice_variants [of Null Null unparseableExample 1 2027 6]
  have a: "calc_parsePrice (Str ''abc'') = Some 0 \<and> parsePrice (Str ''abc'') = None"
    using t abc by blast
  have b: "calc_parsePrice (Str []) = Some 0 \<and> parsePrice (Str []) = None"
    using e empty by blast
  have c: "calc_parsePrice Null = Some 0 \<and> parsePrice Null = None"
    using n null by blast
  have d: "interpolatePrice (Str ''abc'') (Str ''$3,000'') = Str ''abc''"
    using t a by blast
  have f: "strategyReversal unparseableExample 1 = None"
    using t price by blast
  have g: "\<exists>conflicts. detectConflicts unparseableExample 2027 6 = Inr conflicts
             \<and> reversalsOf conflicts = []"
    using t sourcesPresent_unparseableExample unfolding none by blast
  from a b c d price f sourcesPresent_unparseableExample g show ?thesis
    by (intro conjI) (erule conjunct1 conjunct2 | assumption)+
qed

text \<open>
  The two parsers on the inputs of the claim: calculations.js gives 0, not NaN, for
  \<open>"abc"\<close>, and weekMapping.js gives NaN, not 0, for the empty string and \<open>null\<close>.
\<close>

theorem parsePrice_neither_variant:
  "calc_parsePrice (Str ''abc'') = Some 0
   \<and> parsePrice (Str []) = None
   \<and> parsePrice Null = None"
  by code_simp

text \<open>
  A reversal is reported where all five prices are numbers: in the example the second
  mapping was priced above its source neighbours and is below its target neighbours.
\<close>

lemma strategyReversal_example:
  "List.map_filter (strategyReversal reversalExample) [0..<length reversalExample] =
     [reversalConflict (reversalExample ! 1) ''higher'' ''lower'']"
  by code_simp

section \<open>Facts about double arithmetic and the list price\<close>

lemma twoTo1024_power: "twoTo1024 = 2 ^ 1024"
  by (simp add: twoTo1024_def)

lemma ilog2_bounds:
  "1 \<le> n \<Longrightarrow> 0 \<le> ilog2 n \<and> 2 ^ nat (ilog2 n) \<le> n \<and> n < 2 * 2 ^ nat (ilog2 n)"
proof (induction n rule: ilog2.induct)
  case (1 n)
  show ?case
  proof (cases "n \<le> 1")
    case True
    with "1.prems" have "n = 1" by simp
    then show ?thesis by (simp add: ilog2.simps [of 1])
  next
    case False
    then have h: "1 \<le> n div 2" by simp
    from "1.IH" [OF False h]
    have ih: "0 \<le> ilog2 (n div 2)" "2 ^ nat (ilog2 (n div 2)) \<le> n div 2"
      "n div 2 < 2 * 2 ^ nat (ilog2 (n div 2))"
      by simp_all
    have e: "ilog2 n = 1 + ilog2 (n div 2)"
      using False by (subst ilog2.simps) simp
    have p: "(2::int) ^ nat (1 + ilog2 (n div 2)) = 2 * 2 ^ nat (ilog2 (n div 2))"
      using ih(1) by (simp add: nat_add_distrib)
    have "2 * (n div 2) \<le> n" by simp
    moreover have "n < 2 * (n div 2) + 2" by simp
    ultimately show ?thesis
      unfolding e p using ih by simp
  qed
qed

lemma pow2_powi: "pow2 e = 2 powi e"
  by (simp add: pow2_def power_int_def field_simps)

lemma pow2_pos: "0 < pow2 e"
  by (simp add: pow2_powi)

lemma pow2_add: "pow2 (a + b) = pow2 a * pow2 b"
  by (simp add: pow2_powi power_int_add)

lemma pow2_nat: "0 \<le> e \<Longrightarrow> pow2 e = 2 ^ nat e"
  by (simp add: pow2_def)

text \<open>The exponent found for a positive number is that of its binade.\<close>

lemma floorLog2_le:
  assumes "0 < a"
  shows "pow2 (floorLog2 a) \<le> a"
proof -
  obtain p q where pq: "quotient_of a = (p, q)" by (cases "quotient_of a")
  then have q: "0 < q" by (rule quotient_of_denom_pos)
  from pq have a: "a = of_int p / of_int q" by (rule quotient_of_div)
  with assms q have p: "0 < p" by (simp add: zero_less_divide_iff)
  define e where "e = ilog2 p - ilog2 q"
  show ?thesis
  proof (cases "pow2 e \<le> a")
    case True
    then show ?thesis
      by (simp add: floorLog2_def pq e_def Let_def)
  next
    case False
    from p have bp: "0 \<le> ilog2 p" "2 ^ nat (ilog2 p) \<le> p"
      using ilog2_bounds [of p] by simp_all
    from q have bq: "0 \<le> ilog2 q" "q < 2 * 2 ^ nat (ilog2 q)"
      using ilog2_bounds [of q] by simp_all
    have "e - 1 = ilog2 p + (- ilog2 q - 1)"
      by (simp add: e_def)
    then have "pow2 (e - 1) = pow2 (ilog2 p) * pow2 (- ilog2 q - 1)"
      by (simp only: pow2_add)
    also have "pow2 (- ilog2 q - 1) = 1 / (2 * pow2 (ilog2 q))"
      by (simp add: pow2_powi power_int_diff power_int_minus field_simps)
    finally have "pow2 (e - 1) = pow2 (ilog2 p) / (2 * pow2 (ilog2 q))"
      by simp
    also have "\<dots> = of_int (2 ^ nat (ilog2 p)) / of_int (2 * 2 ^ nat (ilog2 q))"
      by (simp add: pow2_nat bp(1) bq(1))
    also have "\<dots> \<le> of_int p / of_int (2 * 2 ^ nat (ilog2 q))"
      using bp(2) by (intro divide_right_mono) simp_all
    also have "\<dots> \<le> of_int p / of_int q"
    proof -
      from bq(2) have "q \<le> 2 * 2 ^ nat (ilog2 q)" by simp
      then have "(of_int q :: rat) \<le> of_int (2 * 2 ^ nat (ilog2 q))"
        by (simp only: of_int_le_iff)
      moreover have "(0 :: rat) \<le> of_int p" using p by simp
      moreover have "(0 :: rat) < of_int (2 * 2 ^ nat (ilog2 q)) * of_int q"
        using q by simp
      ultimately show ?thesis by (rule divide_left_mono)
    qed
    finally have "pow2 (e - 1) \<le> a" unfolding a .
    with False show ?thesis
      by (simp add: floorLog2_def pq e_def Let_def)
  qed
qed

lemma floorLog2_gt:
  assumes "0 < a"
  shows "a < pow2 (floorLog2 a + 1)"
proof -
  obtain p q where pq: "quotient_of a = (p, q)" by (cases "quotient_of a")
  then have q: "0 < q" by (rule quotient_of_denom_pos)
  from pq have a: "a = of_int p / of_int q" by (rule quotient_of_div)
  with assms q have p: "0 < p" by (simp add: zero_less_divide_iff)
  define e where "e = ilog2 p - ilog2 q"
  show ?thesis
  proof (cases "pow2 e \<le> a")
    case False
    then show ?thesis
      by (simp add: floorLog2_def pq e_def Let_def)
  next
    case True
    from p have bp: "0 \<le> ilog2 p" "p < 2 * 2 ^ nat (ilog2 p)"
      using ilog2_bounds [of p] by simp_all
    from q have bq: "0 \<le> ilog2 q" "2 ^ nat (ilog2 q) \<le> q"
      using ilog2_bounds [of q] by simp_all
    have "e + 1 = (ilog2 p + 1) + (- ilog2 q)"
      by (simp add: e_def)
    then have "pow2 (e + 1) = pow2 (ilog2 p + 1) * pow2 (- ilog2 q)"
      by (simp only: pow2_add)
    also have "pow2 (- ilog2 q) = 1 / pow2 (ilog2 q)"
      by (simp add: pow2_powi power_int_minus field_simps)
    also have "pow2 (ilog2 p + 1) = 2 * pow2 (ilog2 p)"
      by (simp only: pow2_add) (simp add: pow2_def)
    finally have "pow2 (e + 1) = of_int (2 * 2 ^ nat (ilog2 p)) / of_int (2 ^ nat (ilog2 q))"
      by (simp add: pow2_nat bp(1) bq(1))
    moreover have "of_int p / of_int q < (of_int (2 * 2 ^ nat (ilog2 p)) :: rat) / of_int q"
    proof -
      from bp(2) have "(of_int p :: rat) < of_int (2 * 2 ^ nat (ilog2 p))"
        by (simp only: of_int_less_iff)
      then show ?thesis
        using q by (simp add: divide_strict_right_mono)
    qed
    moreover have "(of_int (2 * 2 ^ nat (ilog2 p)) :: rat) / of_int q
                   \<le> of_int (2 * 2 ^ nat (ilog2 p)) / of_int (2 ^ nat (ilog2 q))"
    proof -
      from bq(2) have "(of_int (2 ^ nat (ilog2 q)) :: rat) \<le> of_int q"
        by (simp only: of_int_le_iff)
      moreover have "(0 :: rat) \<le> of_int (2 * 2 ^ nat (ilog2 p))" by simp
      moreover have "(0 :: rat) < of_int q * of_int (2 ^ nat (ilog2 q))"
        using q by simp
      ultimately show ?thesis by (rule divide_left_mono)
    qed
    ultimately have "a < pow2 (e + 1)" unfolding a by simp
    with True show ?thesis
      by (simp add: floorLog2_def pq e_def Let_def)
  qed
qed

lemma roundHalfEven_near: "\<bar>of_int (roundHalfEven y) - y\<bar> \<le> 1 / 2"
proof -
  define f where "f = \<lfloor>y\<rfloor>"
  define r where "r = y - of_int f"
  have r: "0 \<le> r" "r < 1"
    unfolding r_def f_def by linarith+
  have y: "y = of_int f + r" by (simp add: r_def)
  have "roundHalfEven y =
          (if r < 1 / 2 then f else if r > 1 / 2 then f + 1 else if even f then f else f + 1)"
    by (simp add: roundHalfEven_def Let_def f_def r_def)
  then show ?thesis
    unfolding y using r by (auto simp: abs_if)
qed

lemma pow2_1023: "2 * pow2 1023 = twoTo1024"
  by (simp add: pow2_def twoTo1024_def)

lemma pow2_minus_52: "pow2 (e - 52) = pow2 e / 2 ^ 52"
proof -
  have "pow2 (e - 52) = pow2 (e + (- 52))" by simp
  also have "\<dots> = pow2 e * pow2 (- 52)" by (rule pow2_add)
  finally show ?thesis by (simp add: pow2_def)
qed

lemma roundDouble_error:
  assumes "pow2 (- 1022) \<le> \<bar>x\<bar>" and "\<bar>x\<bar> \<le> pow2 1023"
  shows "\<exists>y. roundDouble x = Double y \<and> \<bar>y - x\<bar> \<le> \<bar>x\<bar> / 2 ^ 53"
proof -
  define a where "a = \<bar>x\<bar>"
  define e where "e = max (floorLog2 a) (- 1022)"
  define ulp where "ulp = pow2 (e - 52)"
  define m where "m = roundHalfEven (a / ulp)"
  define r where "r = (of_int m :: rat) * ulp"
  have a: "0 < a"
    using assms(1) pow2_pos [of "- 1022"] unfolding a_def by linarith
  then have x: "x \<noteq> 0" unfolding a_def by simp
  have pe: "pow2 e \<le> a"
  proof (cases "floorLog2 a \<le> - 1022")
    case True
    then have "e = - 1022" by (simp add: e_def)
    with assms(1) show ?thesis by (simp add: a_def)
  next
    case False
    then have "e = floorLog2 a" by (simp add: e_def)
    with floorLog2_le [OF a] show ?thesis by simp
  qed
  have ulp: "0 < ulp" "ulp = pow2 e / 2 ^ 52"
    unfolding ulp_def by (simp_all add: pow2_pos pow2_minus_52)
  have "\<bar>of_int m - a / ulp\<bar> \<le> 1 / 2"
    unfolding m_def by (rule roundHalfEven_near)
  then have "\<bar>of_int m - a / ulp\<bar> * ulp \<le> 1 / 2 * ulp"
    using ulp(1) by (intro mult_right_mono) simp_all
  moreover have "\<bar>of_int m - a / ulp\<bar> * ulp = \<bar>r - a\<bar>"
  proof -
    have "\<bar>of_int m - a / ulp\<bar> * ulp = \<bar>of_int m - a / ulp\<bar> * \<bar>ulp\<bar>"
      using ulp(1) by simp
    also have "\<dots> = \<bar>(of_int m - a / ulp) * ulp\<bar>"
      by (simp only: abs_mult)
    also have "(of_int m - a / ulp) * ulp = r - a"
      using ulp(1) by (simp add: r_def left_diff_distrib)
    finally show ?thesis .
  qed
  ultimately have near: "\<bar>r - a\<bar> \<le> ulp / 2" by simp
  have "ulp / 2 = pow2 e / 2 ^ 53" by (simp add: ulp(2))
  also have "\<dots> \<le> a / 2 ^ 53"
    using pe by (intro divide_right_mono) simp_all
  finally have bound: "ulp / 2 \<le> a / 2 ^ 53" .
  with near have err: "\<bar>r - a\<bar> \<le> a / 2 ^ 53" by simp
  have "r \<le> a + a / 2 ^ 53"
  proof -
    define c where "c = a / 2 ^ 53"
    from err have "\<bar>r - a\<bar> \<le> c" by (simp only: c_def)
    then have "r \<le> a + c" by linarith
    then show ?thesis by (simp only: c_def)
  qed
  also have "\<dots> \<le> pow2 1023 + pow2 1023 / 2 ^ 53"
    using assms(2) unfolding a_def by (intro add_mono divide_right_mono) simp_all
  also have "\<dots> < 2 * pow2 1023"
    using pow2_pos [of 1023] by simp
  finally have "r < twoTo1024" by (simp add: pow2_1023)
  then have val: "roundDouble x = Double (if x > 0 then r else - r)"
    using x by (simp add: roundDouble_def Let_def r_def m_def ulp_def e_def a_def)
  have "\<bar>(if x > 0 then r else - r) - x\<bar> = \<bar>r - a\<bar>"
    using x by (auto simp: a_def abs_if)
  with err val show ?thesis
    by (simp add: a_def)
qed

lemma pow2_small: "pow2 (- 1022) \<le> 1 / 2 ^ 53"
proof -
  have "(2::rat) ^ 53 \<le> 2 ^ nat 1022"
    by (rule power_increasing) simp_all
  then show ?thesis
    by (simp add: pow2_def frac_le)
qed

lemma pow2_large: "2 ^ 53 \<le> pow2 1023"
proof -
  have "(2::rat) ^ 53 \<le> 2 ^ nat 1023"
    by (rule power_increasing) simp_all
  then show ?thesis
    by (simp add: pow2_def)
qed

lemma calculateListPrice_error:
  assumes "1 / 2 ^ 53 \<le> 1 - r" and "1 - r \<le> 2 ^ 53"
    and "1 \<le> n / (1 - r)" and "n / (1 - r) \<le> 2 ^ 51"
  shows "\<exists>k. calculateListPrice (Double n) (Double r) = Double (of_int k)
           \<and> \<bar>k - \<lceil>n / (1 - r)\<rceil>\<bar> \<le> 1"
proof -
  define u :: rat where "u = 1 / 2 ^ 53"
  define s where "s = 1 - r"
  define x where "x = n / s"
  have u: "0 < u" "u \<le> 1 / 3" by (simp_all add: u_def)
  have s: "0 < s" using assms(1) unfolding s_def by (simp add: less_le_trans [rotated])
  have x: "1 \<le> x" "x \<le> 2 ^ 51" using assms(3,4) by (simp_all add: x_def s_def)
  have n: "0 < n"
  proof (rule ccontr)
    assume "\<not> 0 < n"
    then have "n / s \<le> 0" using s by (simp add: divide_le_0_iff)
    with x(1) show False by (simp add: x_def)
  qed
  have "pow2 (- 1022) \<le> \<bar>s\<bar>"
    using pow2_small assms(1) s by (simp add: s_def)
  moreover have "\<bar>s\<bar> \<le> pow2 1023"
    using pow2_large assms(2) s by (simp add: s_def)
  ultimately obtain d where d: "roundDouble s = Double d" "\<bar>d - s\<bar> \<le> \<bar>s\<bar> / 2 ^ 53"
    using roundDouble_error by blast
  from d(2) s have ds: "\<bar>d - s\<bar> \<le> s * u" by (simp add: u_def)
  have su: "s * u \<le> s / 3" using s u(2) by (simp add: field_simps)
  define c where "c = s * u"
  from ds have "\<bar>d - s\<bar> \<le> c" by (simp only: c_def)
  moreover from su have "c \<le> s / 3" by (simp only: c_def)
  ultimately have dlow: "2 / 3 * s \<le> d" and dhigh: "d \<le> 2 * s"
    using s by linarith+
  from dlow s have dpos: "0 < d" by linarith
  define x' where "x' = n / d"
  have x'pos: "0 < x'" using n dpos by (simp add: x'_def)
  have x'high: "x' \<le> 3 / 2 * x"
  proof -
    have "n / d \<le> n / (2 / 3 * s)"
      using dlow n s dpos by (intro divide_left_mono) simp_all
    then show ?thesis by (simp add: x'_def x_def)
  qed
  have x'low: "x / 2 \<le> x'"
  proof -
    have "n / (2 * s) \<le> n / d"
      using dhigh n s dpos by (intro divide_left_mono) simp_all
    then show ?thesis by (simp add: x'_def x_def)
  qed
  have diff: "\<bar>x' - x\<bar> \<le> x' * u"
  proof -
    have "x' - x = n * (s - d) / (d * s)"
      using dpos s by (simp add: x'_def x_def field_simps)
    then have "\<bar>x' - x\<bar> = n * \<bar>d - s\<bar> / (d * s)"
      using n dpos s by (simp add: abs_mult abs_minus_commute)
    also have "\<dots> \<le> n * (s * u) / (d * s)"
      using ds n dpos s by (intro divide_right_mono mult_left_mono) simp_all
    also have "\<dots> = x' * u"
      using dpos s by (simp add: x'_def)
    finally show ?thesis .
  qed
  have "pow2 (- 1022) \<le> \<bar>x'\<bar>"
  proof -
    have "pow2 (- 1022) \<le> 1 / 2" using pow2_small by simp
    also have "\<dots> \<le> x'" using x'low x(1) by simp
    finally show ?thesis using x'pos by simp
  qed
  moreover have "\<bar>x'\<bar> \<le> pow2 1023"
  proof -
    have "x' \<le> 3 / 2 * 2 ^ 51" using x'high x(2) by simp
    also have "\<dots> \<le> 2 ^ 53" by simp
    finally show ?thesis using pow2_large x'pos by simp
  qed
  ultimately obtain q where q: "roundDouble x' = Double q" "\<bar>q - x'\<bar> \<le> \<bar>x'\<bar> / 2 ^ 53"
    using roundDouble_error by blast
  from q(2) x'pos have qx': "\<bar>q - x'\<bar> \<le> x' * u" by (simp add: u_def)
  have "x' * u \<le> 3 / 2 * 2 ^ 51 * u"
    using x'high x(2) u(1) by (intro mult_right_mono) simp_all
  also have "\<dots> = 3 / 8" by (simp add: u_def)
  finally have x'u: "x' * u \<le> 3 / 8" .
  from qx' diff x'u have close: "\<bar>q - x\<bar> < 1" by linarith
  have r1: "r < 1" using s by (simp add: s_def)
  have val: "calculateListPrice (Double n) (Double r) = Double (of_int \<lceil>q\<rceil>)"
    using r1 dpos d(1) q(1)
    by (simp add: calculateListPrice_def js_ge_def js_sub_def js_div_def js_ceil_def
        Let_def s_def x'_def)
  have "\<lceil>q\<rceil> \<le> \<lceil>x + 1\<rceil>" using close by (intro ceiling_mono) linarith
  moreover have "\<lceil>x - 1\<rceil> \<le> \<lceil>q\<rceil>" using close by (intro ceiling_mono) linarith
  ultimately have "\<bar>\<lceil>q\<rceil> - \<lceil>x\<rceil>\<bar> \<le> 1" by simp
  with val show ?thesis
    unfolding x_def s_def by blast
qed

text \<open>
  C3. The list price is computed in double arithmetic, and is not always the ceiling
  of the exact quotient. For a commission rate of 1 or more (or infinite) the net
  price is returned unchanged. For a rate \<open>r\<close> with \<open>1 - r\<close> between \<open>2 ^ -53\<close> and \<open>2 ^ 53\<close>
  (which holds of every double rate from \<open>- 2 ^ 52\<close> to below 1) and a net price \<open>n\<close> whose
  exact quotient \<open>n / (1 - r)\<close> lies between 1 and \<open>2 ^ 51\<close>, the result is a whole number
  that is the ceiling of the exact quotient or differs from it by one. The price for
  3500 at 15.5 percent is 4143, and 3000 at 0 percent stays 3000.
\<close>

theorem calculateListPrice_grossup:
  "(js_ge commissionRate (Double 1) \<longrightarrow> calculateListPrice netPrice commissionRate = netPrice)
   \<and> (1 / 2 ^ 53 \<le> 1 - r \<and> 1 - r \<le> 2 ^ 53 \<and> 1 \<le> n / (1 - r) \<and> n / (1 - r) \<le> 2 ^ 51 \<longrightarrow>
        (\<exists>k. calculateListPrice (Double n) (Double r) = Double (of_int k)
           \<and> \<bar>k - \<lceil>n / (1 - r)\<rceil>\<bar> \<le> 1))
   \<and> calculateListPrice (Double 3500) (roundDouble (155 / 1000)) = Double 4143
   \<and> calculateListPrice (Double 3000) (Double 0) = Double 3000"
proof (intro conjI impI)
  assume "js_ge commissionRate (Double 1)"
  then show "calculateListPrice netPrice commissionRate = netPrice"
    by (simp add: calculateListPrice_def)
next
  assume "1 / 2 ^ 53 \<le> 1 - r \<and> 1 - r \<le> 2 ^ 53 \<and> 1 \<le> n / (1 - r) \<and> n / (1 - r) \<le> 2 ^ 51"
  then show "\<exists>k. calculateListPrice (Double n) (Double r) = Double (of_int k)
           \<and> \<bar>k - \<lceil>n / (1 - r)\<rceil>\<bar> \<le> 1"
    by (intro calculateListPrice_error) simp_all
next
  show "calculateListPrice (Double 3500) (roundDouble (155 / 1000)) = Double 4143"
    by code_simp
next
  show "calculateListPrice (Double 3000) (Double 0) = Double 3000"
    by code_simp
qed

theorem calculateListPrice_grossup_witness:
  "js_ge (Double (3 / 2)) (Double 1)
   \<and> calculateListPrice (Double 3500) (Double (3 / 2)) = Double 3500
   \<and> 1 / 2 ^ 53 \<le> 1 - (5404319552844595 / 18014398509481984 :: rat)
   \<and> 1 - (5404319552844595 / 18014398509481984 :: rat) \<le> 2 ^ 53
   \<and> 1 \<le> 2800 / (1 - (5404319552844595 / 18014398509481984 :: rat))
   \<and> 2800 / (1 - (5404319552844595 / 18014398509481984 :: rat)) \<le> 2 ^ 51
   \<and> (\<exists>k. calculateListPrice (Double 2800) (Double (5404319552844595 / 18014398509481984))
              = Double (of_int k)
          \<and> \<bar>k - \<lceil>2800 / (1 - (5404319552844595 / 18014398509481984 :: rat))\<rceil>\<bar> \<le> 1)"
proof -
  have g: "js_ge (Double (3 / 2)) (Double 1)"
    by (simp add: js_ge_def)
  have h: "1 / 2 ^ 53 \<le> 1 - (5404319552844595 / 18014398509481984 :: rat)
           \<and> 1 - (5404319552844595 / 18014398509481984 :: rat) \<le> 2 ^ 53
           \<and> 1 \<le> 2800 / (1 - (5404319552844595 / 18014398509481984 :: rat))
           \<and> 2800 / (1 - (5404319552844595 / 18014398509481984 :: rat)) \<le> 2 ^ 51"
    by simp
  note t = calculateListPrice_grossup
             [of "Double (3 / 2)" "Double 3500" "5404319552844595 / 18014398509481984" 2800]
  note a = t [THEN conjunct1, THEN mp, OF g]
  note b = t [THEN conjunct2, THEN conjunct1, THEN mp, OF h]
  from g a h b show ?thesis by (elim conjE) (intro conjI)
qed

text \<open>
  The formula of the claim fails in exact arithmetic: \<open>0.3\<close> is the double
  5404319552844595 / 18014398509481984, the exact quotient 2800 / (1 - 0.3) has the
  ceiling 4000 (for the double as for three tenths), and the code returns 4001, since
  \<open>1 - 0.3\<close> rounds to a double below seven tenths and the quotient to one above 4000.
\<close>

theorem calculateListPrice_above_exact_ceiling:
  "roundDouble (3 / 10) = Double (5404319552844595 / 18014398509481984)
   \<and> calculateListPrice (Double 2800) (Double (5404319552844595 / 18014398509481984)) = Double 4001
   \<and> \<lceil>2800 / (1 - (5404319552844595 / 18014398509481984 :: rat))\<rceil> = 4000
   \<and> \<lceil>2800 / (1 - (3 / 10 :: rat))\<rceil> = 4000"
proof (intro conjI)
  show "roundDouble (3 / 10) = Double (5404319552844595 / 18014398509481984)"
    by code_simp
  show "calculateListPrice (Double 2800) (Double (5404319552844595 / 18014398509481984)) = Double 4001"
    by code_simp
  show "\<lceil>2800 / (1 - (5404319552844595 / 18014398509481984 :: rat))\<rceil> = 4000"
    by (simp add: ceiling_eq_iff)
  show "\<lceil>2800 / (1 - (3 / 10 :: rat))\<rceil> = 4000"
    by (simp add: ceiling_eq_iff)
qed

end
